theory Spec2Isabelle
  imports Complex_Main "HOL-Library.Log_Nat" "HOL-Library.Word"
begin

unbundle bit_operations_syntax

section \<open>Numbers of the C++ source\<close>

text \<open>
  The plugin computes with \<^verbatim>\<open>float\<close> (IEEE binary32), \<^verbatim>\<open>double\<close> (binary64, the
  result type of \<^verbatim>\<open>atof\<close>), \<^verbatim>\<open>int\<close>/\<^verbatim>\<open>int32_t\<close>, \<^verbatim>\<open>int16_t\<close> and \<^verbatim>\<open>uint8_t\<close>.
  A finite floating-point value is the real number it denotes; every arithmetic
  operation returns the exact result rounded to the nearest representable value, ties to
  even. Infinities and NaN are outside the model, and so is overflow of the exponent
  range: the rounding below is right for magnitudes below the largest finite value.
\<close>

definition round_even :: "real \<Rightarrow> int" where
  "round_even x =
     (let f = \<lfloor>x\<rfloor>; d = x - of_int f in
      if d < 1 / 2 then f
      else if 1 / 2 < d then f + 1
      else if even f then f else f + 1)"

text \<open>
  Rounding of a non-negative real to a binary format with \<open>p\<close> bits of precision
  whose subnormal numbers are the multiples of \<open>2 ^ - q\<close>: the value is scaled to units
  of \<open>2 ^ - q\<close>, and the number of bits of its integer part beyond \<open>p\<close> is the number
  of low bits rounded away.
\<close>

definition fl_nonneg :: "nat \<Rightarrow> nat \<Rightarrow> real \<Rightarrow> real" where
  "fl_nonneg p q x =
     (let u = x * 2 ^ q;
          s = nat (bitlen \<lfloor>u\<rfloor>) - p
      in of_int (round_even (u / 2 ^ s)) * 2 ^ s / 2 ^ q)"

definition fl :: "nat \<Rightarrow> nat \<Rightarrow> real \<Rightarrow> real" where
  "fl p q x = (if x < 0 then - fl_nonneg p q (- x) else fl_nonneg p q x)"

definition to_float :: "real \<Rightarrow> real" where
  "to_float x = fl 24 149 x"

definition to_double :: "real \<Rightarrow> real" where
  "to_double x = fl 53 1074 x"

definition fadd :: "real \<Rightarrow> real \<Rightarrow> real" where
  "fadd a b = to_float (a + b)"

definition fsub :: "real \<Rightarrow> real \<Rightarrow> real" where
  "fsub a b = to_float (a - b)"

definition fmul :: "real \<Rightarrow> real \<Rightarrow> real" where
  "fmul a b = to_float (a * b)"

definition fdiv :: "real \<Rightarrow> real \<Rightarrow> real" where
  "fdiv a b = to_float (a / b)"

text \<open>Truncation towards zero.\<close>

definition trunc :: "real \<Rightarrow> int" where
  "trunc x = (if x < 0 then \<lceil>x\<rceil> else \<lfloor>x\<rfloor>)"

text \<open>
  The conversion of a floating-point value to \<^verbatim>\<open>int\<close> or \<^verbatim>\<open>int32_t\<close> truncates towards
  zero. When the truncated value is not a value of the type, C leaves the conversion
  undefined; the model gives it the result of the conversion instruction of x86-64, the
  smallest value of the type. A conversion to \<^verbatim>\<open>int16_t\<close> is this conversion followed
  by the store into 16 bits.
\<close>

definition float_to_int :: "real \<Rightarrow> int" where
  "float_to_int x =
     (if - 2147483648 \<le> trunc x \<and> trunc x \<le> 2147483647 then trunc x else - 2147483648)"

text \<open>C's integer division truncates towards zero.\<close>

definition cdiv :: "int \<Rightarrow> int \<Rightarrow> int" where
  "cdiv a b = sgn a * sgn b * (\<bar>a\<bar> div \<bar>b\<bar>)"

text \<open>Storing an integer into a signed 16-bit or 32-bit object keeps it modulo the width.\<close>

definition int16_t :: "int \<Rightarrow> int" where
  "int16_t x = (x + 32768) mod 65536 - 32768"

definition int32_t :: "int \<Rightarrow> int" where
  "int32_t x = (x + 2147483648) mod 4294967296 - 2147483648"

section \<open>Constants\<close>

definition MAX_VOICES :: nat where
  "MAX_VOICES = 4"

definition BRAIDS_BLOCK_SIZE :: nat where
  "BRAIDS_BLOCK_SIZE = 24"

definition PITCH_CORRECTION :: int where
  "PITCH_CORRECTION = 1724"

definition MAX_PRESETS :: nat where
  "MAX_PRESETS = 64"

section \<open>SimpleADSR\<close>

datatype Stage = IDLE | ATTACK | DECAY | SUSTAIN | RELEASE

record SimpleADSR =
  stage :: Stage
  level :: real
  attack_rate :: real
  decay_rate :: real
  sustain_level :: real
  release_rate :: real

definition init :: "SimpleADSR \<Rightarrow> SimpleADSR" where
  "init e = e\<lparr>stage := IDLE, level := 0\<rparr>"

definition time_to_rate :: "real \<Rightarrow> real" where
  "time_to_rate p =
     (let t = fadd (to_float (1 / 1000)) (fmul (fmul p p) 10)
      in fdiv 1 (fmul t 44100))"

definition set_params :: "real \<Rightarrow> real \<Rightarrow> real \<Rightarrow> real \<Rightarrow> SimpleADSR \<Rightarrow> SimpleADSR" where
  "set_params a d s r e =
     e\<lparr>attack_rate := time_to_rate a,
       decay_rate := time_to_rate d,
       sustain_level := s,
       release_rate := time_to_rate r\<rparr>"

definition gate_on :: "SimpleADSR \<Rightarrow> SimpleADSR" where
  "gate_on e = e\<lparr>stage := ATTACK\<rparr>"

definition gate_off :: "SimpleADSR \<Rightarrow> SimpleADSR" where
  "gate_off e = (if stage e \<noteq> IDLE then e\<lparr>stage := RELEASE\<rparr> else e)"

definition is_active :: "SimpleADSR \<Rightarrow> bool" where
  "is_active e = (stage e \<noteq> IDLE)"

text \<open>\<^verbatim>\<open>process\<close> mutates the envelope and returns the level: the pair of both.\<close>

definition process :: "SimpleADSR \<Rightarrow> real \<times> SimpleADSR" where
  "process e =
     (let e' =
        (case stage e of
           ATTACK \<Rightarrow>
             (let l = fadd (level e) (attack_rate e) in
              if 1 \<le> l then e\<lparr>level := 1, stage := DECAY\<rparr> else e\<lparr>level := l\<rparr>)
         | DECAY \<Rightarrow>
             (let l = fsub (level e) (decay_rate e) in
              if l \<le> sustain_level e then e\<lparr>level := sustain_level e, stage := SUSTAIN\<rparr>
              else e\<lparr>level := l\<rparr>)
         | SUSTAIN \<Rightarrow> e\<lparr>level := sustain_level e\<rparr>
         | RELEASE \<Rightarrow>
             (let l = fsub (level e) (release_rate e) in
              if l \<le> 0 then e\<lparr>level := 0, stage := IDLE\<rparr> else e\<lparr>level := l\<rparr>)
         | IDLE \<Rightarrow> e\<lparr>level := 0\<rparr>)
      in (level e', e'))"

section \<open>Voices and the instance\<close>

text \<open>
  The macro oscillator and the state-variable filter come from the Braids library,
  whose code is not part of the plugin file: a voice holds their states as values of
  two type parameters. The flags \<^verbatim>\<open>active\<close> and \<^verbatim>\<open>gate\<close> are C ints that
  only ever hold 0 or 1.
\<close>

record ('o, 'f) BraidsVoice =
  osc :: 'o
  amp_env :: SimpleADSR
  filt_env :: SimpleADSR
  svf :: 'f
  osc_buffer :: "int list"
  v_note :: int
  velocity :: int
  active :: bool
  gate :: bool
  age :: int

record BraidsPreset =
  p_name :: string
  p_params :: "real list"
  p_octave_transpose :: int

text \<open>
  The array \<^verbatim>\<open>presets\<close> with its fill count \<^verbatim>\<open>preset_count\<close> is the list of the
  presets loaded so far.
\<close>

record ('o, 'f) braids_instance =
  voices :: "('o, 'f) BraidsVoice list"
  params :: "real list"
  octave_transpose :: int
  voice_counter :: int
  presets :: "BraidsPreset list"
  current_preset :: int
  preset_name :: string

definition preset_count :: "('o, 'f) braids_instance \<Rightarrow> int" where
  "preset_count inst = int (length (presets inst))"

section \<open>Voice management\<close>

primrec first_inactive :: "('o, 'f) BraidsVoice list \<Rightarrow> nat list \<Rightarrow> nat option" where
  "first_inactive vs [] = None"
| "first_inactive vs (i # js) =
     (if \<not> active (vs ! i) then Some i else first_inactive vs js)"

primrec steal_oldest :: "('o, 'f) BraidsVoice list \<Rightarrow> nat list \<Rightarrow> nat \<Rightarrow> int \<Rightarrow> nat" where
  "steal_oldest vs [] oldest oldest_age = oldest"
| "steal_oldest vs (i # js) oldest oldest_age =
     (if age (vs ! i) < oldest_age then steal_oldest vs js i (age (vs ! i))
      else steal_oldest vs js oldest oldest_age)"

definition find_free_voice :: "('o, 'f) braids_instance \<Rightarrow> int" where
  "find_free_voice inst =
     (case first_inactive (voices inst) [0..<MAX_VOICES] of
        Some i \<Rightarrow> int i
      | None \<Rightarrow> int (steal_oldest (voices inst) [1..<MAX_VOICES] 0 (age (voices inst ! 0))))"

primrec note_scan :: "('o, 'f) BraidsVoice list \<Rightarrow> int \<Rightarrow> nat list \<Rightarrow> int \<Rightarrow> int" where
  "note_scan vs n [] releasing = releasing"
| "note_scan vs n (i # js) releasing =
     (if active (vs ! i) \<and> v_note (vs ! i) = n
      then (if gate (vs ! i) then int i else note_scan vs n js (int i))
      else note_scan vs n js releasing)"

definition find_voice_for_note :: "('o, 'f) braids_instance \<Rightarrow> int \<Rightarrow> int" where
  "find_voice_for_note inst n = note_scan (voices inst) n [0..<MAX_VOICES] (- 1)"

section \<open>Strings and the C library\<close>

text \<open>
  A C string is the list of its characters before the terminating NUL. The functions of
  the C library that the plugin calls are modelled here as far as the plugin uses them.
\<close>

fun starts_with :: "string \<Rightarrow> string \<Rightarrow> bool" where
  "starts_with s [] = True"
| "starts_with [] (p # ps) = False"
| "starts_with (c # cs) (p # ps) = (c = p \<and> starts_with cs ps)"

text \<open>\<^verbatim>\<open>strstr\<close>: the suffix of the text at the first occurrence of the pattern.\<close>

fun strstr :: "string \<Rightarrow> string \<Rightarrow> string option" where
  "strstr [] pat = (if pat = [] then Some [] else None)"
| "strstr (c # cs) pat = (if starts_with (c # cs) pat then Some (c # cs) else strstr cs pat)"

definition isspace :: "char \<Rightarrow> bool" where
  "isspace c = (c = CHR '' '' \<or> (9 \<le> (of_char c :: nat) \<and> (of_char c :: nat) \<le> 13))"

definition is_digit :: "char \<Rightarrow> bool" where
  "is_digit c = (48 \<le> (of_char c :: nat) \<and> (of_char c :: nat) \<le> 57)"

definition digit_val :: "char \<Rightarrow> nat" where
  "digit_val c = of_char c - 48"

definition digit_char :: "nat \<Rightarrow> char" where
  "digit_char n = char_of (48 + n)"

definition dec_val :: "string \<Rightarrow> nat" where
  "dec_val ds = foldl (\<lambda>a c. 10 * a + digit_val c) 0 ds"

text \<open>
  The exponent part of a decimal floating-point literal, 0 when there is none: an
  \<^verbatim>\<open>e\<close> or \<^verbatim>\<open>E\<close>, an optional sign and at least one digit.
\<close>

definition dec_exponent :: "string \<Rightarrow> int" where
  "dec_exponent s =
     (case s of
        [] \<Rightarrow> 0
      | c # r \<Rightarrow>
          if c = CHR ''e'' \<or> c = CHR ''E'' then
            (case r of
               [] \<Rightarrow> 0
             | d # r' \<Rightarrow>
                 if d = CHR ''-'' then - int (dec_val (takeWhile is_digit r'))
                 else if d = CHR ''+'' then int (dec_val (takeWhile is_digit r'))
                 else int (dec_val (takeWhile is_digit r)))
          else 0)"

text \<open>
  \<^verbatim>\<open>atof\<close> on decimal notation: leading white space, an optional sign, digits with an
  optional fraction, an optional exponent; the text after the literal is ignored, and a
  text with no digits gives 0. The result is the \<^verbatim>\<open>double\<close> nearest to the decimal
  value. The notations \<^verbatim>\<open>inf\<close>, \<^verbatim>\<open>nan\<close> and hexadecimal are outside the model.
\<close>

definition atof_unsigned :: "string \<Rightarrow> real" where
  "atof_unsigned s =
     (let ip = takeWhile is_digit s;
          s3 = dropWhile is_digit s;
          fp = (case s3 of [] \<Rightarrow> [] | c # r \<Rightarrow> if c = CHR ''.'' then takeWhile is_digit r else []);
          s4 = (case s3 of [] \<Rightarrow> [] | c # r \<Rightarrow> if c = CHR ''.'' then dropWhile is_digit r else s3);
          ex = dec_exponent s4
      in if ip = [] \<and> fp = [] then 0
         else of_nat (dec_val (ip @ fp)) / 10 ^ length fp
                * (if ex < 0 then 1 / 10 ^ nat (- ex) else 10 ^ nat ex))"

definition atof_exact :: "string \<Rightarrow> real" where
  "atof_exact s =
     (case dropWhile isspace s of
        [] \<Rightarrow> 0
      | c # r \<Rightarrow>
          if c = CHR ''-'' then - atof_unsigned r
          else if c = CHR ''+'' then atof_unsigned r
          else atof_unsigned (c # r))"

definition atof :: "string \<Rightarrow> real" where
  "atof s = to_double (atof_exact s)"

text \<open>
  \<^verbatim>\<open>atoi\<close>: leading white space, an optional sign, digits. For a value beyond the
  range of \<^verbatim>\<open>int\<close>, which C leaves undefined, the model follows the C library of a
  64-bit Linux, where \<^verbatim>\<open>atoi\<close> is \<^verbatim>\<open>strtol\<close> converted to \<^verbatim>\<open>int\<close>: the value
  saturates at the bounds of \<^verbatim>\<open>long\<close>, and the conversion keeps its low 32 bits.
\<close>

definition strtol10 :: "string \<Rightarrow> int" where
  "strtol10 s =
     (let s1 = dropWhile isspace s;
          neg = (case s1 of [] \<Rightarrow> False | c # _ \<Rightarrow> c = CHR ''-'');
          s2 = (case s1 of [] \<Rightarrow> [] | c # r \<Rightarrow> if c = CHR ''-'' \<or> c = CHR ''+'' then r else s1);
          n = int (dec_val (takeWhile is_digit s2));
          v = (if neg then - n else n)
      in if 9223372036854775807 < v then 9223372036854775807
         else if v < - 9223372036854775808 then - 9223372036854775808
         else v)"

definition atoi :: "string \<Rightarrow> int" where
  "atoi s = int32_t (strtol10 s)"

text \<open>The conversions \<^verbatim>\<open>%d\<close> and \<^verbatim>\<open>%.4f\<close> of \<^verbatim>\<open>snprintf\<close>.\<close>

fun show_nat :: "nat \<Rightarrow> string" where
  "show_nat n = (if n < 10 then [digit_char n] else show_nat (n div 10) @ [digit_char (n mod 10)])"

declare show_nat.simps [simp del]

definition show_int :: "int \<Rightarrow> string" where
  "show_int i = (if i < 0 then CHR ''-'' # show_nat (nat (- i)) else show_nat (nat i))"

definition show_fixed4 :: "real \<Rightarrow> string" where
  "show_fixed4 v =
     (let n = nat (round_even (\<bar>v\<bar> * 10000)) in
      (if v < 0 then [CHR ''-''] else []) @ show_nat (n div 10000) @ [CHR ''.'',
         digit_char (n div 1000 mod 10), digit_char (n div 100 mod 10),
         digit_char (n div 10 mod 10), digit_char (n mod 10)])"

section \<open>Shapes and the parameter table\<close>

definition g_shape_names :: "string list" where
  "g_shape_names =
     [''CSAW'', ''MORPH'', [CHR ''/'', CHR 0x5C, CHR ''-'', CHR ''_''], ''SINE^'', ''BUZZ'', ''SQR<'',
      ''SAW<'', ''SQsync'', ''SWsync'', ''3xSAW'', ''3xSQR'', ''3xTRI'',
      ''3xSIN'', ''3xRNG'', ''SWARM'', ''COMB'', ''TOY'', ''ZLPF'',
      ''ZPKF'', ''ZBPF'', ''ZHPF'', ''VOSIM'', ''VOWL'', ''V.FOF'',
      ''HARM'', ''FM'', ''FBFM'', ''WTFM'', ''PLUK'', ''BOWD'',
      ''BLOW'', ''FLUT'', ''BELL'', ''DRUM'', ''KICK'', ''CYMB'',
      ''SNAR'', ''WTBL'', ''WMAP'', ''WLIN'', ''WTx4'', ''NOIS'',
      ''TWNQ'', ''CLKN'', ''GRN'', ''PART'', ''QPSK'']"

text \<open>
  \<^verbatim>\<open>NUM_SHAPES\<close> is one more than an enumerator of the Braids library, whose header is
  not part of the file: 47, the number of entries of the table of names and of the
  synthesis algorithms the file's head comment announces.
\<close>

definition NUM_SHAPES :: nat where
  "NUM_SHAPES = 47"

definition PARAM_ENGINE :: nat where
  "PARAM_ENGINE = 0"

definition PARAM_TIMBRE :: nat where
  "PARAM_TIMBRE = 1"

definition PARAM_COLOR :: nat where
  "PARAM_COLOR = 2"

definition PARAM_ATTACK :: nat where
  "PARAM_ATTACK = 3"

definition PARAM_DECAY :: nat where
  "PARAM_DECAY = 4"

definition PARAM_SUSTAIN :: nat where
  "PARAM_SUSTAIN = 5"

definition PARAM_RELEASE :: nat where
  "PARAM_RELEASE = 6"

definition PARAM_FM :: nat where
  "PARAM_FM = 7"

definition PARAM_CUTOFF :: nat where
  "PARAM_CUTOFF = 8"

definition PARAM_RESONANCE :: nat where
  "PARAM_RESONANCE = 9"

definition PARAM_FILT_ENV :: nat where
  "PARAM_FILT_ENV = 10"

definition PARAM_F_ATTACK :: nat where
  "PARAM_F_ATTACK = 11"

definition PARAM_F_DECAY :: nat where
  "PARAM_F_DECAY = 12"

definition PARAM_F_SUSTAIN :: nat where
  "PARAM_F_SUSTAIN = 13"

definition PARAM_F_RELEASE :: nat where
  "PARAM_F_RELEASE = 14"

definition PARAM_VOLUME :: nat where
  "PARAM_VOLUME = 15"

definition PARAM_COUNT :: nat where
  "PARAM_COUNT = 16"

datatype param_type = PARAM_TYPE_FLOAT | PARAM_TYPE_INT

text \<open>
  The descriptor type \<^verbatim>\<open>param_def_t\<close> is declared in \<^verbatim>\<open>param_helper.h\<close>, which is
  not part of the file; the fields are the ones the file reads and initialises.
\<close>

record param_def_t =
  pd_key :: string
  pd_name :: string
  pd_type :: param_type
  pd_index :: nat
  min_val :: real
  max_val :: real

definition pdef :: "string \<Rightarrow> string \<Rightarrow> param_type \<Rightarrow> nat \<Rightarrow> real \<Rightarrow> real \<Rightarrow> param_def_t" where
  "pdef k n t i lo hi =
     \<lparr>pd_key = k, pd_name = n, pd_type = t, pd_index = i, min_val = lo, max_val = hi\<rparr>"

definition g_shadow_params :: "param_def_t list" where
  "g_shadow_params =
     [pdef ''engine'' ''Engine'' PARAM_TYPE_INT PARAM_ENGINE 0 (of_nat (NUM_SHAPES - 1)),
      pdef ''timbre'' ''Timbre'' PARAM_TYPE_FLOAT PARAM_TIMBRE 0 (1),
      pdef ''color'' ''Color'' PARAM_TYPE_FLOAT PARAM_COLOR 0 (1),
      pdef ''attack'' ''Attack'' PARAM_TYPE_FLOAT PARAM_ATTACK 0 (1),
      pdef ''decay'' ''Decay'' PARAM_TYPE_FLOAT PARAM_DECAY 0 (1),
      pdef ''sustain'' ''Sustain'' PARAM_TYPE_FLOAT PARAM_SUSTAIN 0 (1),
      pdef ''release'' ''Release'' PARAM_TYPE_FLOAT PARAM_RELEASE 0 (1),
      pdef ''fm'' ''FM'' PARAM_TYPE_FLOAT PARAM_FM 0 (1),
      pdef ''cutoff'' ''Cutoff'' PARAM_TYPE_FLOAT PARAM_CUTOFF 0 (1),
      pdef ''resonance'' ''Resonance'' PARAM_TYPE_FLOAT PARAM_RESONANCE 0 (1),
      pdef ''filt_env'' ''Filt Env'' PARAM_TYPE_FLOAT PARAM_FILT_ENV 0 (1),
      pdef ''f_attack'' ''F.Attack'' PARAM_TYPE_FLOAT PARAM_F_ATTACK 0 (1),
      pdef ''f_decay'' ''F.Decay'' PARAM_TYPE_FLOAT PARAM_F_DECAY 0 (1),
      pdef ''f_sustain'' ''F.Sustain'' PARAM_TYPE_FLOAT PARAM_F_SUSTAIN 0 (1),
      pdef ''f_release'' ''F.Release'' PARAM_TYPE_FLOAT PARAM_F_RELEASE 0 (1),
      pdef ''volume'' ''Volume'' PARAM_TYPE_FLOAT PARAM_VOLUME 0 (1)]"

section \<open>JSON helpers\<close>

definition dq :: char where
  "dq = CHR 0x22"

text \<open>The search text \<^verbatim>\<open>"key":\<close> that both helpers build in a buffer of 64 bytes.\<close>

definition json_search :: "string \<Rightarrow> string" where
  "json_search k = take 63 (dq # k @ [dq, CHR '':''])"

definition json_get_number :: "string \<Rightarrow> string \<Rightarrow> real option" where
  "json_get_number json k =
     (case strstr json (json_search k) of
        None \<Rightarrow> None
      | Some pos \<Rightarrow>
          Some (to_float (atof (dropWhile (\<lambda>c. c = CHR '' '') (drop (length (json_search k)) pos)))))"

definition json_get_string :: "string \<Rightarrow> string \<Rightarrow> nat \<Rightarrow> string option" where
  "json_get_string json k out_len =
     (case strstr json (json_search k) of
        None \<Rightarrow> None
      | Some pos \<Rightarrow>
          (case dropWhile (\<lambda>c. c = CHR '' '') (drop (length (json_search k)) pos) of
             [] \<Rightarrow> None
           | c # r \<Rightarrow>
               if c \<noteq> dq then None
               else Some (take (out_len - 1) (takeWhile (\<lambda>c. c \<noteq> dq) r))))"

section \<open>The Braids library\<close>

text \<open>
  The oscillator and the filter are capabilities of the Braids library: the operations
  the plugin calls on them are the fields of a record, over the two types of their
  states. \<open>osc_Init\<close> and \<open>svf_Init\<close> are the states after \<^verbatim>\<open>Init()\<close>;
  \<open>osc_Render\<close> takes the block size and gives the samples it writes, by position.
\<close>

record ('o, 'f) braids_dsp =
  osc_Init :: 'o
  osc_set_shape :: "int \<Rightarrow> 'o \<Rightarrow> 'o"
  osc_set_parameters :: "int \<Rightarrow> int \<Rightarrow> 'o \<Rightarrow> 'o"
  osc_set_pitch :: "int \<Rightarrow> 'o \<Rightarrow> 'o"
  osc_Strike :: "'o \<Rightarrow> 'o"
  osc_Render :: "nat \<Rightarrow> 'o \<Rightarrow> (nat \<Rightarrow> int) \<times> 'o"
  svf_Init :: 'f
  svf_set_resonance :: "int \<Rightarrow> 'f \<Rightarrow> 'f"
  svf_set_frequency :: "int \<Rightarrow> 'f \<Rightarrow> 'f"
  svf_Process :: "int \<Rightarrow> 'f \<Rightarrow> int \<times> 'f"

section \<open>Pitch and parameters of a voice\<close>

definition note_to_pitch :: "int \<Rightarrow> int" where
  "note_to_pitch n = int16_t (int16_t (n * 128) + PITCH_CORRECTION)"

definition apply_params_to_voice ::
  "('o, 'f) braids_dsp \<Rightarrow> ('o, 'f) braids_instance \<Rightarrow> ('o, 'f) BraidsVoice \<Rightarrow> ('o, 'f) BraidsVoice" where
  "apply_params_to_voice dsp inst v =
     (let shape0 = float_to_int (params inst ! PARAM_ENGINE);
          shape1 = (if shape0 < 0 then 0 else shape0);
          shape = (if int NUM_SHAPES \<le> shape1 then int NUM_SHAPES - 1 else shape1);
          timbre = int16_t (float_to_int (fmul (params inst ! PARAM_TIMBRE) 32767));
          color = int16_t (float_to_int (fmul (params inst ! PARAM_COLOR) 32767));
          reso_val = int16_t (float_to_int (fmul (params inst ! PARAM_RESONANCE) 32767))
      in v\<lparr>osc := osc_set_parameters dsp timbre color (osc_set_shape dsp shape (osc v)),
           svf := svf_set_resonance dsp reso_val (svf v),
           amp_env := set_params (params inst ! PARAM_ATTACK) (params inst ! PARAM_DECAY)
                        (params inst ! PARAM_SUSTAIN) (params inst ! PARAM_RELEASE) (amp_env v),
           filt_env := set_params (params inst ! PARAM_F_ATTACK) (params inst ! PARAM_F_DECAY)
                        (params inst ! PARAM_F_SUSTAIN) (params inst ! PARAM_F_RELEASE) (filt_env v)\<rparr>)"

section \<open>Presets\<close>

definition v2_apply_preset :: "('o, 'f) braids_instance \<Rightarrow> int \<Rightarrow> ('o, 'f) braids_instance" where
  "v2_apply_preset inst preset_idx =
     (if preset_idx < 0 \<or> preset_count inst \<le> preset_idx then inst
      else
        (let p = presets inst ! nat preset_idx in
         inst\<lparr>preset_name := take 63 (p_name p),
              params := fold (\<lambda>i ps. ps[i := p_params p ! i]) [0..<PARAM_COUNT] (params inst),
              octave_transpose := p_octave_transpose p\<rparr>))"

primrec shape_index :: "string list \<Rightarrow> string \<Rightarrow> nat \<Rightarrow> nat option" where
  "shape_index [] s i = None"
| "shape_index (n # ns) s i = (if s = n then Some i else shape_index ns s (Suc i))"

definition clamp_octave :: "int \<Rightarrow> int" where
  "clamp_octave t = (let t1 = (if t < - 3 then - 3 else t) in if 3 < t1 then 3 else t1)"

text \<open>
  \<^verbatim>\<open>load_braids_preset\<close> reads one file: \<open>None\<close> is a file that cannot be opened,
  \<open>Some data\<close> the text of a file that can. The result is the instance with the new
  preset appended, or the instance as it was when the function returns -1.
\<close>

definition load_braids_preset ::
  "('o, 'f) braids_instance \<Rightarrow> string option \<Rightarrow> ('o, 'f) braids_instance" where
  "load_braids_preset inst file =
     (if int MAX_PRESETS \<le> preset_count inst then inst
      else
        (case file of
           None \<Rightarrow> inst
         | Some data \<Rightarrow>
             if length data = 0 \<or> 4096 < length data then inst
             else
               (let nm = (case json_get_string data ''name'' 64 of
                            None \<Rightarrow> take 63 (''Preset '' @ show_int (preset_count inst))
                          | Some n \<Rightarrow> n);
                    engine = (case json_get_string data ''engine'' 32 of
                                Some engine_str \<Rightarrow>
                                  (case shape_index (take NUM_SHAPES g_shape_names) engine_str 0 of
                                     Some i \<Rightarrow> of_nat i
                                   | None \<Rightarrow> 0)
                              | None \<Rightarrow>
                                  (case json_get_number data ''engine'' of
                                     Some fval \<Rightarrow> fval
                                   | None \<Rightarrow> 0));
                    num = (\<lambda>k d. case json_get_number data k of
                                   Some fval \<Rightarrow> fval
                                 | None \<Rightarrow> to_float d);
                    ps = (replicate PARAM_COUNT 0)
                           [PARAM_ENGINE := engine,
                            PARAM_TIMBRE := num ''timbre'' (1 / 2),
                            PARAM_COLOR := num ''color'' (1 / 2),
                            PARAM_ATTACK := num ''attack'' 0,
                            PARAM_DECAY := num ''decay'' (1 / 2),
                            PARAM_SUSTAIN := num ''sustain'' 1,
                            PARAM_RELEASE := num ''release'' (3 / 10),
                            PARAM_FM := num ''fm'' 0,
                            PARAM_CUTOFF := num ''cutoff'' 1,
                            PARAM_RESONANCE := num ''resonance'' 0,
                            PARAM_FILT_ENV := num ''filt_env'' 0,
                            PARAM_F_ATTACK := num ''f_attack'' 0,
                            PARAM_F_DECAY := num ''f_decay'' (3 / 10),
                            PARAM_F_SUSTAIN := num ''f_sustain'' 0,
                            PARAM_F_RELEASE := num ''f_release'' (3 / 10),
                            PARAM_VOLUME := num ''volume'' (7 / 10)];
                    oct = (case json_get_number data ''octave_transpose'' of
                             Some fval \<Rightarrow> clamp_octave (float_to_int fval)
                           | None \<Rightarrow> 0)
                in inst\<lparr>presets := presets inst
                          @ [\<lparr>p_name = nm, p_params = ps, p_octave_transpose = oct\<rparr>]\<rparr>)))"

text \<open>
  \<^verbatim>\<open>load_presets\<close> lists the preset directory, keeps at most \<^verbatim>\<open>MAX_PRESETS\<close> names,
  sorts them and loads each file. The file system is outside the model: the argument is
  the list of the files of the directory in the order of their sorted names.
\<close>

definition load_presets ::
  "('o, 'f) braids_instance \<Rightarrow> string option list \<Rightarrow> ('o, 'f) braids_instance" where
  "load_presets inst files = fold (\<lambda>f i. load_braids_preset i f) (take MAX_PRESETS files) inst"

section \<open>Instance creation\<close>

definition default_params :: "real list" where
  "default_params =
     (replicate PARAM_COUNT 0)
       [PARAM_ENGINE := 0,
        PARAM_TIMBRE := to_float (1 / 2),
        PARAM_COLOR := to_float (1 / 2),
        PARAM_ATTACK := 0,
        PARAM_DECAY := to_float (1 / 2),
        PARAM_SUSTAIN := 1,
        PARAM_RELEASE := to_float (3 / 10),
        PARAM_FM := 0,
        PARAM_CUTOFF := 1,
        PARAM_RESONANCE := 0,
        PARAM_FILT_ENV := 0,
        PARAM_F_ATTACK := 0,
        PARAM_F_DECAY := to_float (3 / 10),
        PARAM_F_SUSTAIN := 0,
        PARAM_F_RELEASE := to_float (3 / 10),
        PARAM_VOLUME := to_float (7 / 10)]"

definition zero_env :: SimpleADSR where
  "zero_env =
     init \<lparr>stage = IDLE, level = 0, attack_rate = 0, decay_rate = 0,
           sustain_level = 0, release_rate = 0\<rparr>"

definition v2_create_instance ::
  "('o, 'f) braids_dsp \<Rightarrow> string option list \<Rightarrow> ('o, 'f) braids_instance" where
  "v2_create_instance dsp files =
     (let v = \<lparr>osc = osc_Init dsp, amp_env = zero_env, filt_env = zero_env,
               svf = svf_Init dsp, osc_buffer = replicate BRAIDS_BLOCK_SIZE 0,
               v_note = 0, velocity = 0, active = False, gate = False, age = 0\<rparr>;
          inst = \<lparr>voices = replicate MAX_VOICES v, params = default_params,
                  octave_transpose = 0, voice_counter = 0, presets = [],
                  current_preset = 0, preset_name = ''Init''\<rparr>;
          inst1 = load_presets inst files
      in if 0 < preset_count inst1 then v2_apply_preset (inst1\<lparr>current_preset := 0\<rparr>) 0
         else inst1)"

section \<open>MIDI\<close>

text \<open>
  \<^verbatim>\<open>v2_on_midi\<close> on the message bytes; \<^verbatim>\<open>len\<close> is the length of the list. The
  voice counter is a C int: its overflow after \<open>2 ^ 31\<close> notes is outside the model.
\<close>

definition v2_on_midi ::
  "('o, 'f) braids_dsp \<Rightarrow> ('o, 'f) braids_instance \<Rightarrow> 8 word list \<Rightarrow> ('o, 'f) braids_instance" where
  "v2_on_midi dsp inst msg =
     (if length msg < 2 then inst
      else
        (let status = (msg ! 0) AND 0xF0;
             data1 = msg ! 1;
             data2 = (if 2 < length msg then msg ! 2 else 0);
             note0 = uint data1;
             note1 = (if status = 0x90 \<or> status = 0x80
                      then note0 + octave_transpose inst * 12 else note0);
             note2 = (if (status = 0x90 \<or> status = 0x80) \<and> note1 < 0 then 0 else note1);
             note = (if (status = 0x90 \<or> status = 0x80) \<and> 127 < note2 then 127 else note2)
         in
         if status = 0x90 then
           (if 0 < data2 then
              (let vi = nat (find_free_voice inst);
                   v = voices inst ! vi;
                   counter = voice_counter inst + 1;
                   inst1 = inst\<lparr>voice_counter := counter\<rparr>;
                   v1 = v\<lparr>v_note := note, velocity := uint data2, active := True,
                          gate := True, age := counter,
                          osc := osc_set_pitch dsp (note_to_pitch note) (osc v)\<rparr>;
                   v2 = apply_params_to_voice dsp inst1 v1;
                   v3 = v2\<lparr>osc := osc_Strike dsp (osc v2),
                           amp_env := gate_on (amp_env v2),
                           filt_env := gate_on (filt_env v2)\<rparr>
               in inst1\<lparr>voices := (voices inst1)[vi := v3]\<rparr>)
            else
              (let vi = find_voice_for_note inst note in
               if 0 \<le> vi then
                 (let v = voices inst ! nat vi in
                  inst\<lparr>voices := (voices inst)
                    [nat vi := v\<lparr>gate := False, amp_env := gate_off (amp_env v),
                                 filt_env := gate_off (filt_env v)\<rparr>]\<rparr>)
               else inst))
         else if status = 0x80 then
           (let vi = find_voice_for_note inst note in
            if 0 \<le> vi then
              (let v = voices inst ! nat vi in
               inst\<lparr>voices := (voices inst)
                 [nat vi := v\<lparr>gate := False, amp_env := gate_off (amp_env v),
                              filt_env := gate_off (filt_env v)\<rparr>]\<rparr>)
            else inst)
         else if status = 0xB0 then
           (if data1 = 1
            then inst\<lparr>params := (params inst)[PARAM_FM := fdiv (of_int (uint data2)) 127]\<rparr>
            else inst)
         else if status = 0xE0 then
           (let bend = (push_bit 7 (uint data2) OR uint data1) - 8192;
                bend_semitones = fmul (fdiv (of_int bend) 8192) 2
            in inst\<lparr>voices :=
                 map (\<lambda>v. if active v
                           then v\<lparr>osc := osc_set_pitch dsp
                                   (int16_t (note_to_pitch (v_note v)
                                      + int16_t (float_to_int (fmul bend_semitones 128)))) (osc v)\<rparr>
                           else v)
                   (voices inst)\<rparr>)
         else inst))"

section \<open>Setting parameters\<close>

definition clamp_float :: "real \<Rightarrow> real \<Rightarrow> real \<Rightarrow> real" where
  "clamp_float lo hi fval =
     (let f1 = (if fval < lo then lo else fval) in if hi < f1 then hi else f1)"

text \<open>The loop of the state restore over the parameter table.\<close>

definition restore_params ::
  "string \<Rightarrow> ('o, 'f) braids_instance \<Rightarrow> ('o, 'f) braids_instance" where
  "restore_params val inst =
     fold (\<lambda>d i. case json_get_number val (pd_key d) of
                    Some fval \<Rightarrow>
                      i\<lparr>params := (params i)[pd_index d := clamp_float (min_val d) (max_val d) fval]\<rparr>
                  | None \<Rightarrow> i)
       g_shadow_params inst"

text \<open>The loop of the named parameter access: the first entry of the table with the key.\<close>

primrec set_named ::
  "param_def_t list \<Rightarrow> string \<Rightarrow> real \<Rightarrow> ('o, 'f) braids_instance \<Rightarrow> ('o, 'f) braids_instance" where
  "set_named [] k fval inst = inst"
| "set_named (d # ds) k fval inst =
     (if k = pd_key d
      then inst\<lparr>params := (params inst)[pd_index d := clamp_float (min_val d) (max_val d) fval]\<rparr>
      else set_named ds k fval inst)"

definition v2_set_param ::
  "('o, 'f) braids_instance \<Rightarrow> string \<Rightarrow> string \<Rightarrow> ('o, 'f) braids_instance" where
  "v2_set_param inst k val =
     (if k = ''state'' then
        (let inst1 =
               (case json_get_number val ''preset'' of
                  Some fval \<Rightarrow>
                    (let idx = float_to_int fval in
                     if 0 \<le> idx \<and> idx < preset_count inst
                     then v2_apply_preset (inst\<lparr>current_preset := idx\<rparr>) idx
                     else inst)
                | None \<Rightarrow> inst);
             inst2 =
               (case json_get_number val ''octave_transpose'' of
                  Some fval \<Rightarrow> inst1\<lparr>octave_transpose := clamp_octave (float_to_int fval)\<rparr>
                | None \<Rightarrow> inst1)
         in restore_params val inst2)
      else if k = ''octave_transpose'' then
        inst\<lparr>octave_transpose := clamp_octave (atoi val)\<rparr>
      else if k = ''preset'' then
        (let idx = atoi val in
         if 0 \<le> idx \<and> idx < preset_count inst then
           v2_apply_preset
             (inst\<lparr>voices := map (\<lambda>v. v\<lparr>active := False, gate := False,
                                          amp_env := init (amp_env v),
                                          filt_env := init (filt_env v)\<rparr>) (voices inst),
                   current_preset := idx\<rparr>) idx
         else inst)
      else if k = ''engine'' then
        (case shape_index (take NUM_SHAPES g_shape_names) val 0 of
           Some i \<Rightarrow> inst\<lparr>params := (params inst)[PARAM_ENGINE := of_nat i]\<rparr>
         | None \<Rightarrow>
             (let v = to_float (atof val);
                  v1 = (if v < 0 then 0 else v);
                  v2 = (if of_nat NUM_SHAPES \<le> v1 then of_nat NUM_SHAPES - 1 else v1)
              in inst\<lparr>params := (params inst)[PARAM_ENGINE := v2]\<rparr>))
      else set_named g_shadow_params k (to_float (atof val)) inst)"

section \<open>Serialising the state\<close>

text \<open>
  The branch of \<^verbatim>\<open>v2_get_param\<close> for the key \<^verbatim>\<open>state\<close>, writing into a buffer that
  is large enough for the whole text. The branches before it are for other keys;
  \<^verbatim>\<open>param_helper_get\<close>, of a header that is not part of the file, is asked first for a
  key of the parameter table, which \<^verbatim>\<open>state\<close> is not.
\<close>

definition v2_get_param_state :: "('o, 'f) braids_instance \<Rightarrow> string" where
  "v2_get_param_state inst =
     [CHR 0x7B, dq] @ ''preset'' @ [dq, CHR '':''] @ show_int (current_preset inst)
       @ [CHR '','', dq] @ ''octave_transpose'' @ [dq, CHR '':''] @ show_int (octave_transpose inst)
       @ concat (map (\<lambda>d. [CHR '','', dq] @ pd_key d @ [dq, CHR '':'']
                       @ (if pd_type d = PARAM_TYPE_INT
                          then show_int (float_to_int (params inst ! pd_index d))
                          else show_fixed4 (params inst ! pd_index d)))
                  g_shadow_params)
       @ [CHR 0x7D]"

section \<open>Rendering\<close>

text \<open>The local variables that \<^verbatim>\<open>v2_render_block\<close> computes before its loops.\<close>

record render_locals =
  gain :: real
  fm_amount :: real
  base_cutoff :: real
  filt_env_amount :: real
  use_filter :: bool

definition sat16 :: "int \<Rightarrow> int" where
  "sat16 x = (let x1 = (if 32767 < x then 32767 else x) in if x1 < - 32768 then - 32768 else x1)"

text \<open>
  The mix of one sample into the frame at \<open>idx\<close>: both channels are read, the scaled
  sample is converted to \<^verbatim>\<open>int32_t\<close> and added in 32-bit arithmetic, each sum is
  saturated and stored as \<^verbatim>\<open>int16_t\<close>. A sum beyond 32 bits wraps in the model.
\<close>

definition mix_frame :: "int list \<Rightarrow> nat \<Rightarrow> int \<Rightarrow> real \<Rightarrow> int list" where
  "mix_frame out idx sample g =
     (let left = int32_t (out ! idx + float_to_int (fmul (to_float (of_int sample)) g));
          right = int32_t (out ! (idx + 1) + float_to_int (fmul (to_float (of_int sample)) g))
      in out[idx := int16_t (sat16 left), idx + 1 := int16_t (sat16 right)])"

text \<open>
  The sample of a voice at position \<open>s\<close> of its block, from the envelope levels
  \<open>amp\<close> and \<open>filt_val\<close> of this step: amplitude envelope, filter, velocity. The
  result is the sample and the voice with the filter state it leaves.
\<close>

definition voice_sample ::
  "('o, 'f) braids_dsp \<Rightarrow> render_locals \<Rightarrow> real \<Rightarrow> real \<Rightarrow> nat \<Rightarrow> ('o, 'f) BraidsVoice
     \<Rightarrow> int \<times> ('o, 'f) BraidsVoice" where
  "voice_sample dsp loc amp filt_val s v =
     (let sample0 = osc_buffer v ! s;
          sample1 = float_to_int (fmul (to_float (of_int sample0)) amp);
          mod_cutoff0 = fadd (base_cutoff loc) (fmul filt_val (filt_env_amount loc));
          mod_cutoff = (if 1 < mod_cutoff0 then 1 else mod_cutoff0);
          cutoff_freq = int16_t (push_bit 7 (int16_t (float_to_int (fmul mod_cutoff 127))));
          filtered = svf_Process dsp sample1 (svf_set_frequency dsp cutoff_freq (svf v));
          sample2 = (if use_filter loc then int32_t (fst filtered) else sample1);
          v2 = (if use_filter loc then v\<lparr>svf := snd filtered\<rparr> else v)
      in (cdiv (int32_t (sample2 * velocity v2)) 127, v2))"

text \<open>
  The loop over the samples of one block: the list holds the values of \<open>s\<close> still to
  run. Both envelopes advance; the \<^verbatim>\<open>break\<close> returns the voice with \<^verbatim>\<open>active\<close>
  cleared and the output as it is.
\<close>

primrec render_samples ::
  "('o, 'f) braids_dsp \<Rightarrow> render_locals \<Rightarrow> nat \<Rightarrow> nat list \<Rightarrow> ('o, 'f) BraidsVoice \<Rightarrow> int list
     \<Rightarrow> ('o, 'f) BraidsVoice \<times> int list" where
  "render_samples dsp loc rendered [] v out = (v, out)"
| "render_samples dsp loc rendered (s # ss) v out =
     (let amp = fst (process (amp_env v));
          filt_val = fst (process (filt_env v));
          v1 = v\<lparr>amp_env := snd (process (amp_env v)), filt_env := snd (process (filt_env v))\<rparr>
      in
      if \<not> gate v1 \<and> \<not> is_active (amp_env v1) then (v1\<lparr>active := False\<rparr>, out)
      else
        (let sv = voice_sample dsp loc amp filt_val s v1
         in render_samples dsp loc rendered ss (snd sv)
              (mix_frame out ((rendered + s) * 2) (fst sv) (gain loc))))"

text \<open>
  The loop over the blocks of at most 24 samples, from \<open>rendered\<close> on: the size of
  the next block, the voice after the oscillator has rendered it, and the loop.
\<close>

definition block_size_at :: "nat \<Rightarrow> nat \<Rightarrow> nat" where
  "block_size_at frames rendered =
     (if frames < rendered + BRAIDS_BLOCK_SIZE then frames - rendered else BRAIDS_BLOCK_SIZE)"

definition render_osc :: "('o, 'f) braids_dsp \<Rightarrow> nat \<Rightarrow> ('o, 'f) BraidsVoice \<Rightarrow> ('o, 'f) BraidsVoice" where
  "render_osc dsp block_size v =
     (let r = osc_Render dsp block_size (osc v)
      in v\<lparr>osc := snd r,
           osc_buffer := map (\<lambda>s. if s < block_size then int16_t (fst r s) else osc_buffer v ! s)
                           [0..<BRAIDS_BLOCK_SIZE]\<rparr>)"

function render_blocks ::
  "('o, 'f) braids_dsp \<Rightarrow> render_locals \<Rightarrow> nat \<Rightarrow> nat \<Rightarrow> ('o, 'f) BraidsVoice \<Rightarrow> int list
     \<Rightarrow> ('o, 'f) BraidsVoice \<times> int list" where
  "render_blocks dsp loc frames rendered v out =
     (if rendered < frames then
        (let block_size = block_size_at frames rendered;
             vo = render_samples dsp loc rendered [0..<block_size] (render_osc dsp block_size v) out
         in if \<not> active (fst vo) then vo
            else render_blocks dsp loc frames (rendered + block_size) (fst vo) (snd vo))
      else (v, out))"
  by pat_completeness auto
termination
  by (relation "measure (\<lambda>(dsp, loc, frames, rendered, v, out). frames - rendered)")
     (auto simp: BRAIDS_BLOCK_SIZE_def block_size_at_def)

declare render_blocks.simps [simp del]

text \<open>The body of the loop over the voices, for one voice.\<close>

definition render_voice ::
  "('o, 'f) braids_dsp \<Rightarrow> ('o, 'f) braids_instance \<Rightarrow> render_locals \<Rightarrow> nat
     \<Rightarrow> ('o, 'f) BraidsVoice \<Rightarrow> int list \<Rightarrow> ('o, 'f) BraidsVoice \<times> int list" where
  "render_voice dsp inst loc frames v out =
     (if \<not> active v then (v, out)
      else
        (let v1 = apply_params_to_voice dsp inst v;
             pitch0 = note_to_pitch (v_note v1);
             pitch = (if to_float (1 / 1000) < fm_amount loc
                      then int16_t (pitch0 + int16_t (float_to_int (fmul (fm_amount loc) 1536)))
                      else pitch0);
             v2 = v1\<lparr>osc := osc_set_pitch dsp pitch (osc v1)\<rparr>
         in render_blocks dsp loc frames 0 v2 out))"

primrec render_voices ::
  "('o, 'f) braids_dsp \<Rightarrow> ('o, 'f) braids_instance \<Rightarrow> render_locals \<Rightarrow> nat \<Rightarrow> nat list
     \<Rightarrow> ('o, 'f) BraidsVoice list \<Rightarrow> int list \<Rightarrow> ('o, 'f) BraidsVoice list \<times> int list" where
  "render_voices dsp inst loc frames [] vs out = (vs, out)"
| "render_voices dsp inst loc frames (vi # vis) vs out =
     (let r = render_voice dsp inst loc frames (vs ! vi) out
      in render_voices dsp inst loc frames vis (vs[vi := fst r]) (snd r))"

text \<open>
  \<^verbatim>\<open>v2_render_block\<close> for a live instance and \<open>frames\<close> frames: the instance after
  the call and the interleaved output buffer of \<open>2 * frames\<close> samples, cleared first.
\<close>

definition render_locals_of :: "('o, 'f) braids_instance \<Rightarrow> render_locals" where
  "render_locals_of inst =
     \<lparr>gain = fdiv (params inst ! PARAM_VOLUME) (of_nat MAX_VOICES),
      fm_amount = params inst ! PARAM_FM,
      base_cutoff = params inst ! PARAM_CUTOFF,
      filt_env_amount = params inst ! PARAM_FILT_ENV,
      use_filter = (params inst ! PARAM_CUTOFF < to_float (99 / 100)
                     \<or> to_float (1 / 100) < params inst ! PARAM_RESONANCE
                     \<or> to_float (1 / 100) < params inst ! PARAM_FILT_ENV)\<rparr>"

definition v2_render_block ::
  "('o, 'f) braids_dsp \<Rightarrow> ('o, 'f) braids_instance \<Rightarrow> nat \<Rightarrow> ('o, 'f) braids_instance \<times> int list" where
  "v2_render_block dsp inst frames =
     (let r = render_voices dsp inst (render_locals_of inst) frames [0..<MAX_VOICES] (voices inst)
                (replicate (2 * frames) 0)
      in (inst\<lparr>voices := fst r\<rparr>, snd r))"

section \<open>The amplitude envelope over time\<close>

text \<open>
  The envelope after \<open>n\<close> calls of \<^verbatim>\<open>process\<close>, and the number of the next \<open>m\<close> calls
  that come before the first call leaving the envelope idle (\<open>m\<close> when none does).
\<close>

definition amp_after :: "SimpleADSR \<Rightarrow> nat \<Rightarrow> SimpleADSR" where
  "amp_after e n = ((\<lambda>x. snd (process x)) ^^ n) e"

primrec steps_alive :: "SimpleADSR \<Rightarrow> nat \<Rightarrow> nat" where
  "steps_alive e 0 = 0"
| "steps_alive e (Suc m) =
     (if is_active (snd (process e)) then Suc (steps_alive (snd (process e)) m) else 0)"

text \<open>Every sample of a buffer is a value of \<^verbatim>\<open>int16_t\<close>.\<close>

definition in16 :: "int list \<Rightarrow> bool" where
  "in16 out = (\<forall>x \<in> set out. - 32768 \<le> x \<and> x \<le> 32767)"

section \<open>The states of an instance\<close>

text \<open>
  The states that the model reaches: the one that \<^verbatim>\<open>v2_create_instance\<close> returns, and
  the ones that \<^verbatim>\<open>v2_set_param\<close>, \<^verbatim>\<open>v2_on_midi\<close> and \<^verbatim>\<open>v2_render_block\<close> make of
  it. The other entries of the API table, \<^verbatim>\<open>v2_get_param\<close> and \<^verbatim>\<open>v2_get_error\<close>,
  assign to no field of the instance. A state that holds an infinity or a NaN, which the
  code reaches from a text that \<^verbatim>\<open>atof\<close> reads as one, is not a state of the model.
\<close>

inductive reachable :: "('o, 'f) braids_dsp \<Rightarrow> ('o, 'f) braids_instance \<Rightarrow> bool"
  for dsp :: "('o, 'f) braids_dsp" where
  created: "reachable dsp (v2_create_instance dsp files)"
| param_set: "reachable dsp inst \<Longrightarrow> reachable dsp (v2_set_param inst k val)"
| midi: "reachable dsp inst \<Longrightarrow> reachable dsp (v2_on_midi dsp inst msg)"
| rendered: "reachable dsp inst \<Longrightarrow> reachable dsp (fst (v2_render_block dsp inst frames))"

text \<open>
  What every assignment of the file keeps: the sixteen parameters of the array, and an
  octave transpose between -3 and 3 in the instance and in every preset.
\<close>

definition state_shape :: "('o, 'f) braids_instance \<Rightarrow> bool" where
  "state_shape inst \<longleftrightarrow>
     length (params inst) = PARAM_COUNT
     \<and> - 3 \<le> octave_transpose inst \<and> octave_transpose inst \<le> 3
     \<and> (\<forall>p \<in> set (presets inst). - 3 \<le> p_octave_transpose p \<and> p_octave_transpose p \<le> 3)"

section \<open>The numbers of a state snapshot\<close>

text \<open>
  The number that the text written for a parameter denotes: the value rounded to four
  decimals by \<^verbatim>\<open>%.4f\<close>, or converted to \<^verbatim>\<open>int\<close> by the cast before \<^verbatim>\<open>%d\<close>.
\<close>

definition fixed4 :: "real \<Rightarrow> real" where
  "fixed4 v = (if v < 0 then - 1 else 1) * of_int (round_even (\<bar>v\<bar> * 10000)) / 10000"

definition snapshot_value :: "param_type \<Rightarrow> real \<Rightarrow> real" where
  "snapshot_value t v =
     (case t of PARAM_TYPE_INT \<Rightarrow> of_int (float_to_int v) | PARAM_TYPE_FLOAT \<Rightarrow> fixed4 v)"

section \<open>Example states\<close>

definition ex_env :: "Stage \<Rightarrow> real \<Rightarrow> SimpleADSR" where
  "ex_env st l =
     \<lparr>stage = st, level = l, attack_rate = 1 / 4, decay_rate = 1 / 4,
      sustain_level = 1 / 2, release_rate = 1 / 4\<rparr>"

definition ex_voice :: "bool \<Rightarrow> bool \<Rightarrow> int \<Rightarrow> int \<Rightarrow> (unit, unit) BraidsVoice" where
  "ex_voice a g n ag =
     \<lparr>osc = (), amp_env = ex_env (if a then (if g then SUSTAIN else RELEASE) else IDLE) (1 / 2),
      filt_env = ex_env (if a then (if g then SUSTAIN else RELEASE) else IDLE) (1 / 2),
      svf = (), osc_buffer = replicate 24 0,
      v_note = n, velocity = 100, active = a, gate = g, age = ag\<rparr>"

definition ex_params :: "real list" where
  "ex_params = [0, 1 / 2, 1 / 2, 0, 1 / 2, 1, 1 / 4, 0, 1, 0, 0, 0, 1 / 4, 0, 1 / 4, 3 / 4]"

definition ex_inst :: "(unit, unit) BraidsVoice list \<Rightarrow> (unit, unit) braids_instance" where
  "ex_inst vs =
     \<lparr>voices = vs, params = ex_params, octave_transpose = 0, voice_counter = 7,
      presets = [], current_preset = 0, preset_name = ''Init''\<rparr>"

definition ex_dsp :: "(unit, unit) braids_dsp" where
  "ex_dsp =
     \<lparr>osc_Init = (), osc_set_shape = (\<lambda>_ x. x), osc_set_parameters = (\<lambda>_ _ x. x),
      osc_set_pitch = (\<lambda>_ x. x), osc_Strike = (\<lambda>x. x),
      osc_Render = (\<lambda>n x. (\<lambda>i. 1000, x)),
      svf_Init = (), svf_set_resonance = (\<lambda>_ x. x), svf_set_frequency = (\<lambda>_ x. x),
      svf_Process = (\<lambda>s x. (s, x))\<rparr>"

definition ex_preset :: BraidsPreset where
  "ex_preset = \<lparr>p_name = ''Bass'', p_params = replicate 16 (1 / 4), p_octave_transpose = 1\<rparr>"

text \<open>The text \<^verbatim>\<open>{"timbre":5}\<close> of a preset file.\<close>

definition ex_preset_file :: string where
  "ex_preset_file = [CHR 0x7B, dq] @ ''timbre'' @ [dq] @ '':5}''"

text \<open>A fresh instance without presets after Note On and Note Off of the note 60.\<close>

definition ex_released :: "(unit, unit) braids_instance" where
  "ex_released =
     v2_on_midi ex_dsp (v2_on_midi ex_dsp (v2_create_instance ex_dsp []) [0x90, 60, 100])
       [0x80, 60, 0]"

text \<open>
  A fresh instance without presets after three calls of \<^verbatim>\<open>v2_set_param\<close>: the engine
  12, the octave transpose 2 and the timbre 0.25.
\<close>

definition ex_tweaked :: "(unit, unit) braids_instance" where
  "ex_tweaked =
     v2_set_param
       (v2_set_param (v2_set_param (v2_create_instance ex_dsp []) ''engine'' ''12'')
          ''octave_transpose'' ''2'')
       ''timbre'' ''0.25''"

text \<open>A fresh instance without presets with the timbre set from the text 0.00001.\<close>

definition ex_timbre :: "(unit, unit) braids_instance" where
  "ex_timbre = v2_set_param (v2_create_instance ex_dsp []) ''timbre'' ''0.00001''"

text \<open>The text \<^verbatim>\<open>{"volume":4e9}\<close> of a preset file.\<close>

definition ex_volume_file :: string where
  "ex_volume_file = [CHR 0x7B, dq] @ ''volume'' @ [dq] @ '':4e9}''"

text \<open>
  An instance created over a preset directory with that one file, after the Note On of
  the note 60 with velocity 127; its voices are three voices as created and the voice
  that the Note On has struck.
\<close>

definition ex_idle_voice :: "(unit, unit) BraidsVoice" where
  "ex_idle_voice =
     \<lparr>osc = (), amp_env = zero_env, filt_env = zero_env, svf = (),
      osc_buffer = replicate 24 0, v_note = 0, velocity = 0, active = False, gate = False,
      age = 0\<rparr>"

definition ex_struck_voice :: "(unit, unit) BraidsVoice" where
  "ex_struck_voice =
     \<lparr>osc = (),
      amp_env = \<lparr>stage = ATTACK, level = 0, attack_rate = time_to_rate 0,
                 decay_rate = time_to_rate (1 / 2), sustain_level = 1,
                 release_rate = time_to_rate (5033165 / 16777216)\<rparr>,
      filt_env = \<lparr>stage = ATTACK, level = 0, attack_rate = time_to_rate 0,
                  decay_rate = time_to_rate (5033165 / 16777216), sustain_level = 0,
                  release_rate = time_to_rate (5033165 / 16777216)\<rparr>,
      svf = (), osc_buffer = replicate 24 0, v_note = 60, velocity = 127, active = True,
      gate = True, age = 1\<rparr>"

definition ex_loud :: "(unit, unit) braids_instance" where
  "ex_loud = v2_on_midi ex_dsp (v2_create_instance ex_dsp [Some ex_volume_file]) [0x90, 60, 127]"

section \<open>Rounding to a floating-point format\<close>

lemma round_even_of_int: "round_even (of_int i) = i"
  by (simp add: round_even_def)

lemma round_even_bounds: "x - 1 / 2 \<le> of_int (round_even x)" "of_int (round_even x) \<le> x + 1 / 2"
  unfolding round_even_def Let_def by (auto split: if_splits) linarith+

lemma round_even_mono:
  assumes "x \<le> y"
  shows "round_even x \<le> round_even y"
proof (cases "\<lfloor>x\<rfloor> = \<lfloor>y\<rfloor>")
  case True
  with assms have "x - of_int \<lfloor>x\<rfloor> \<le> y - of_int \<lfloor>y\<rfloor>" by simp
  with True show ?thesis unfolding round_even_def Let_def by (auto split: if_splits)
next
  case False
  with assms have "\<lfloor>x\<rfloor> < \<lfloor>y\<rfloor>" using floor_mono [OF assms] by linarith
  then have "\<lfloor>x\<rfloor> + 1 \<le> \<lfloor>y\<rfloor>" by simp
  moreover have "round_even x \<le> \<lfloor>x\<rfloor> + 1" unfolding round_even_def Let_def by simp
  moreover have "\<lfloor>y\<rfloor> \<le> round_even y" unfolding round_even_def Let_def by simp
  ultimately show ?thesis by linarith
qed

lemma round_even_le_int: "x \<le> of_int i \<Longrightarrow> round_even x \<le> i"
  using round_even_mono [of x "of_int i"] by (simp add: round_even_of_int)

lemma round_even_ge_int: "of_int i \<le> x \<Longrightarrow> i \<le> round_even x"
  using round_even_mono [of "of_int i" x] by (simp add: round_even_of_int)

lemma bitlen_le_nat: "bitlen x \<le> int w \<longleftrightarrow> x < 2 ^ w"
  by (simp add: bitlen_le_iff_power)

lemma bitlen_ge_nat: "int w \<le> bitlen x \<longleftrightarrow> w = 0 \<or> 2 ^ (w - 1) \<le> x"
  by (auto simp: bitlen_ge_iff_power)

lemma floor_bitlen_shift:
  assumes "0 \<le> (u::real)" and "u < 2 ^ (p + s)" and "s = 0 \<or> 2 ^ (p + s - 1) \<le> u"
  shows "nat (bitlen \<lfloor>u\<rfloor>) - p = s"
proof -
  have n0: "0 \<le> \<lfloor>u\<rfloor>" using assms(1) by simp
  have "\<lfloor>u\<rfloor> < 2 ^ (p + s)"
  proof -
    have "of_int \<lfloor>u\<rfloor> \<le> u" by simp
    also have "u < 2 ^ (p + s)" by fact
    finally have "(of_int \<lfloor>u\<rfloor> :: real) < of_int (2 ^ (p + s))" by simp
    then show ?thesis by (simp only: of_int_less_iff)
  qed
  then have le: "bitlen \<lfloor>u\<rfloor> \<le> int (p + s)" by (simp only: bitlen_le_nat)
  show ?thesis
  proof (cases "s = 0")
    case True
    with le show ?thesis by simp
  next
    case False
    with assms(3) have "2 ^ (p + s - 1) \<le> u" by simp
    then have "(of_int (2 ^ (p + s - 1)) :: real) \<le> u" by simp
    then have "(2 :: int) ^ (p + s - 1) \<le> \<lfloor>u\<rfloor>" by (simp only: le_floor_iff)
    then have "int (p + s) \<le> bitlen \<lfloor>u\<rfloor>" by (simp only: bitlen_ge_nat) simp
    with le have "bitlen \<lfloor>u\<rfloor> = int (p + s)" by simp
    then show ?thesis by simp
  qed
qed

lemma fl_nonneg_at:
  assumes "0 \<le> x" and "x * 2 ^ q < 2 ^ (p + s)" and "s = 0 \<or> 2 ^ (p + s - 1) \<le> x * 2 ^ q"
  shows "fl_nonneg p q x = of_int (round_even (x * 2 ^ q / 2 ^ s)) * 2 ^ s / 2 ^ q"
proof -
  have "0 \<le> x * 2 ^ q" using assms(1) by simp
  from floor_bitlen_shift [OF this assms(2,3)] show ?thesis
    by (simp add: fl_nonneg_def Let_def)
qed

text \<open>The shift that the rounding uses always exists.\<close>

lemma fl_nonneg_shift:
  assumes "0 \<le> x"
  obtains s where "x * 2 ^ q < 2 ^ (p + s)" "s = 0 \<or> 2 ^ (p + s - 1) \<le> x * 2 ^ q"
    "fl_nonneg p q x = of_int (round_even (x * 2 ^ q / 2 ^ s)) * 2 ^ s / 2 ^ q"
proof -
  define u where "u = x * 2 ^ q"
  define k where "k = nat (bitlen \<lfloor>u\<rfloor>)"
  define s where "s = k - p"
  have u0: "0 \<le> u" using assms by (simp add: u_def)
  then have n0: "0 \<le> \<lfloor>u\<rfloor>" by simp
  have "bitlen \<lfloor>u\<rfloor> \<le> int k" by (simp add: k_def)
  then have "\<lfloor>u\<rfloor> < 2 ^ k" by (simp only: bitlen_le_nat)
  then have "\<lfloor>u\<rfloor> + 1 \<le> 2 ^ k" by simp
  then have "(of_int (\<lfloor>u\<rfloor> + 1) :: real) \<le> of_int (2 ^ k)" by (simp only: of_int_le_iff)
  then have "of_int \<lfloor>u\<rfloor> + 1 \<le> (2::real) ^ k" by simp
  moreover have "u < of_int \<lfloor>u\<rfloor> + 1" by linarith
  ultimately have uk: "u < 2 ^ k" by linarith
  have kle: "k \<le> p + s" by (simp add: s_def)
  have "(2::real) ^ k \<le> 2 ^ (p + s)" using kle by (simp add: power_increasing)
  with uk have a: "u < 2 ^ (p + s)" by linarith
  have b: "s = 0 \<or> 2 ^ (p + s - 1) \<le> u"
  proof (cases "s = 0")
    case False
    then have ks: "k = p + s" by (simp add: s_def)
    then have "int k \<le> bitlen \<lfloor>u\<rfloor>" "0 < k" using False by (simp_all add: k_def)
    then have "2 ^ (k - 1) \<le> \<lfloor>u\<rfloor>" by (simp only: bitlen_ge_nat) simp
    then have "(of_int (2 ^ (k - 1)) :: real) \<le> of_int \<lfloor>u\<rfloor>" by (simp only: of_int_le_iff)
    also have "\<dots> \<le> u" by simp
    finally show ?thesis using ks by simp
  qed simp
  have "fl_nonneg p q x = of_int (round_even (x * 2 ^ q / 2 ^ s)) * 2 ^ s / 2 ^ q"
    by (simp add: fl_nonneg_def Let_def s_def k_def u_def)
  with a b that show thesis unfolding u_def by blast
qed

lemma fl_nonneg_mono:
  assumes "0 \<le> x" "x \<le> y" "0 < p"
  shows "fl_nonneg p q x \<le> fl_nonneg p q y"
proof -
  from assms have y0: "0 \<le> y" by simp
  obtain s where s: "x * 2 ^ q < 2 ^ (p + s)" "s = 0 \<or> 2 ^ (p + s - 1) \<le> x * 2 ^ q"
    "fl_nonneg p q x = of_int (round_even (x * 2 ^ q / 2 ^ s)) * 2 ^ s / 2 ^ q"
    using fl_nonneg_shift [OF assms(1)] by blast
  obtain t where t: "y * 2 ^ q < 2 ^ (p + t)" "t = 0 \<or> 2 ^ (p + t - 1) \<le> y * 2 ^ q"
    "fl_nonneg p q y = of_int (round_even (y * 2 ^ q / 2 ^ t)) * 2 ^ t / 2 ^ q"
    using fl_nonneg_shift [OF y0] by blast
  have xy: "x * 2 ^ q \<le> y * 2 ^ q" using assms(2) by simp
  have st: "s \<le> t"
  proof (rule ccontr)
    assume "\<not> s \<le> t"
    then have ts: "t < s" by simp
    then have "s \<noteq> 0" by simp
    with s(2) have "2 ^ (p + s - 1) \<le> x * 2 ^ q" by simp
    moreover have "(2::real) ^ (p + t) \<le> 2 ^ (p + s - 1)" using ts by (simp add: power_increasing)
    ultimately show False using t(1) xy by linarith
  qed
  have "of_int (round_even (x * 2 ^ q / 2 ^ s)) * (2::real) ^ s
        \<le> of_int (round_even (y * 2 ^ q / 2 ^ t)) * 2 ^ t"
  proof (cases "s = t")
    case True
    have "x * 2 ^ q / 2 ^ s \<le> y * 2 ^ q / 2 ^ s" using xy by (simp add: divide_right_mono)
    from round_even_mono [OF this] show ?thesis unfolding True by simp
  next
    case False
    with st have lt: "s < t" by simp
    then have "t \<noteq> 0" by simp
    with t(2) have yl: "2 ^ (p + t - 1) \<le> y * 2 ^ q" by simp
    have "x * 2 ^ q / 2 ^ s \<le> 2 ^ (p + s) / 2 ^ s" using s(1) by (simp add: divide_right_mono)
    then have "x * 2 ^ q / 2 ^ s \<le> of_int (2 ^ p)" by (simp add: power_add)
    then have "round_even (x * 2 ^ q / 2 ^ s) \<le> 2 ^ p" by (rule round_even_le_int)
    then have "(of_int (round_even (x * 2 ^ q / 2 ^ s)) :: real) \<le> of_int (2 ^ p)"
      by (simp only: of_int_le_iff)
    then have "of_int (round_even (x * 2 ^ q / 2 ^ s)) * (2::real) ^ s \<le> 2 ^ p * 2 ^ s" by simp
    also have "\<dots> = 2 ^ (p + s)" by (simp add: power_add)
    also have "\<dots> \<le> 2 ^ (p + t - 1)" using lt by (simp add: power_increasing)
    finally have A: "of_int (round_even (x * 2 ^ q / 2 ^ s)) * (2::real) ^ s \<le> 2 ^ (p + t - 1)" .
    have e: "(2::real) ^ (p + t - 1) = 2 ^ (p - 1) * 2 ^ t"
      using \<open>0 < p\<close> by (simp flip: power_add)
    have "(2::real) ^ (p + t - 1) / 2 ^ t \<le> y * 2 ^ q / 2 ^ t" using yl by (simp add: divide_right_mono)
    then have "of_int (2 ^ (p - 1)) \<le> y * 2 ^ q / 2 ^ t" unfolding e by simp
    then have "2 ^ (p - 1) \<le> round_even (y * 2 ^ q / 2 ^ t)" by (rule round_even_ge_int)
    then have "(of_int (2 ^ (p - 1)) :: real) \<le> of_int (round_even (y * 2 ^ q / 2 ^ t))"
      by (simp only: of_int_le_iff)
    then have "(2::real) ^ (p - 1) * 2 ^ t \<le> of_int (round_even (y * 2 ^ q / 2 ^ t)) * 2 ^ t"
      by simp
    with A e show ?thesis by linarith
  qed
  then show ?thesis unfolding s(3) t(3) by (simp add: divide_right_mono)
qed


lemma fl_nonneg_nonneg: "0 \<le> x \<Longrightarrow> 0 \<le> fl_nonneg p q x"
proof -
  assume x: "0 \<le> x"
  have "of_int 0 \<le> x * 2 ^ q / 2 ^ (nat (bitlen \<lfloor>x * 2 ^ q\<rfloor>) - p)" using x by simp
  then have "0 \<le> round_even (x * 2 ^ q / 2 ^ (nat (bitlen \<lfloor>x * 2 ^ q\<rfloor>) - p))"
    by (rule round_even_ge_int)
  then show ?thesis by (simp add: fl_nonneg_def Let_def)
qed

lemma fl_nonneg_zero: "fl_nonneg p q 0 = 0"
  by (simp add: fl_nonneg_def round_even_def)

lemma fl_mono:
  assumes "x \<le> y" "0 < p"
  shows "fl p q x \<le> fl p q y"
proof -
  consider "0 \<le> x" | "x < 0" "0 \<le> y" | "y < 0" by linarith
  then show ?thesis
  proof cases
    case 1
    with assms show ?thesis by (simp add: fl_def fl_nonneg_mono)
  next
    case 2
    then have "0 \<le> fl_nonneg p q (- x)" "0 \<le> fl_nonneg p q y"
      by (simp_all add: fl_nonneg_nonneg)
    with 2 show ?thesis by (simp add: fl_def)
  next
    case 3
    with assms have "0 \<le> - y" "- y \<le> - x" by simp_all
    from fl_nonneg_mono [OF this \<open>0 < p\<close>] 3 assms show ?thesis by (simp add: fl_def)
  qed
qed

lemma to_float_mono: "x \<le> y \<Longrightarrow> to_float x \<le> to_float y"
  by (simp add: to_float_def fl_mono)

lemma to_double_mono: "x \<le> y \<Longrightarrow> to_double x \<le> to_double y"
  by (simp add: to_double_def fl_mono)

text \<open>A value with at most \<open>p\<close> significant bits above the subnormal spacing is kept.\<close>

lemma fl_nonneg_exact:
  assumes "0 \<le> m" "m < 2 ^ p"
  shows "fl_nonneg p q (of_int m * 2 ^ e / 2 ^ q) = of_int m * 2 ^ e / 2 ^ q"
proof (cases "m = 0")
  case True
  then show ?thesis by (simp add: fl_nonneg_zero)
next
  case False
  with assms have m: "0 < m" by simp
  define s where "s = nat (bitlen (m * 2 ^ e)) - p"
  have u: "(of_int m * 2 ^ e / 2 ^ q) * 2 ^ q = (of_int (m * 2 ^ e) :: real)" by simp
  have "bitlen m \<le> int p" using assms(2) by (simp only: bitlen_le_nat)
  moreover have "bitlen (m * 2 ^ e) = bitlen m + int e" using m by simp
  ultimately have "s \<le> e" by (simp add: s_def)
  then obtain d where d: "e = s + d" using le_Suc_ex by blast
  have "(of_int (m * 2 ^ e) :: real) / 2 ^ s = of_int (m * 2 ^ (e - s))"
    unfolding d by (simp add: power_add)
  then have "of_int (round_even (of_int (m * 2 ^ e) / 2 ^ s)) * (2::real) ^ s
      = of_int (m * 2 ^ (e - s)) * 2 ^ s"
    by (simp only: round_even_of_int)
  also have "\<dots> = of_int m * 2 ^ e" using \<open>s \<le> e\<close> by (simp flip: power_add)
  finally show ?thesis
    unfolding fl_nonneg_def Let_def u floor_of_int s_def [symmetric] by simp
qed

lemma fl_of_int:
  assumes "\<bar>i\<bar> < 2 ^ p"
  shows "fl p q (of_int i) = of_int i"
proof (cases "i < 0")
  case True
  with assms have "0 \<le> - i" "- i < 2 ^ p" by simp_all
  from fl_nonneg_exact [OF this, of q q] True show ?thesis by (simp add: fl_def)
next
  case False
  with assms have "0 \<le> i" "i < 2 ^ p" by simp_all
  from fl_nonneg_exact [OF this, of q q] False show ?thesis by (simp add: fl_def)
qed

lemma to_float_of_int: "\<bar>i\<bar> < 16777216 \<Longrightarrow> to_float (of_int i) = of_int i"
  by (simp add: to_float_def fl_of_int)

lemma to_double_of_int: "\<bar>i\<bar> < 9007199254740992 \<Longrightarrow> to_double (of_int i) = of_int i"
  by (simp add: to_double_def fl_of_int)


lemma to_float_eval:
  assumes "0 \<le> x" and "x * 2 ^ 149 < 2 ^ (24 + s)" and "s = 0 \<or> 2 ^ (24 + s - 1) \<le> x * 2 ^ 149"
    and "of_int (round_even (x * 2 ^ 149 / 2 ^ s)) * 2 ^ s / 2 ^ 149 = y"
  shows "to_float x = y"
  using fl_nonneg_at [OF assms(1-3)] assms(1,4) by (simp add: to_float_def fl_def)

section \<open>Voice allocation\<close>

lemma first_inactive_Some:
  "first_inactive vs js = Some i \<Longrightarrow>
     \<exists>pre post. js = pre @ i # post \<and> \<not> active (vs ! i) \<and> (\<forall>j \<in> set pre. active (vs ! j))"
proof (induction js)
  case Nil
  then show ?case by simp
next
  case (Cons k js)
  show ?case
  proof (cases "active (vs ! k)")
    case False
    with Cons.prems have "i = k" by simp
    with False have "k # js = [] @ i # js \<and> \<not> active (vs ! i) \<and> (\<forall>j \<in> set []. active (vs ! j))"
      by simp
    then show ?thesis by blast
  next
    case True
    with Cons.prems have "first_inactive vs js = Some i" by simp
    from Cons.IH [OF this] obtain pre post where
      "js = pre @ i # post" "\<not> active (vs ! i)" "\<forall>j \<in> set pre. active (vs ! j)" by blast
    with True have "k # js = (k # pre) @ i # post \<and> \<not> active (vs ! i)
        \<and> (\<forall>j \<in> set (k # pre). active (vs ! j))" by simp
    then show ?thesis by blast
  qed
qed

lemma first_inactive_None:
  "first_inactive vs js = None \<longleftrightarrow> (\<forall>j \<in> set js. active (vs ! j))"
  by (induction js) auto

lemma first_inactive_upt:
  assumes "first_inactive vs [0..<n] = Some i"
  shows "i < n \<and> \<not> active (vs ! i) \<and> (\<forall>j < i. active (vs ! j))"
proof -
  from first_inactive_Some [OF assms] obtain pre post where
    s: "[0..<n] = pre @ i # post" and a: "\<not> active (vs ! i)" and b: "\<forall>j \<in> set pre. active (vs ! j)"
    by blast
  have "i \<in> set [0..<n]" by (simp add: s)
  then have "i < n" by simp
  have "sorted_wrt (<) (pre @ i # post)" using s sorted_wrt_upt [of 0 n] by simp
  then have lt: "\<forall>j \<in> set pre. j < i" by (simp add: sorted_wrt_append)
  have "\<forall>j < i. j \<in> set pre"
  proof (intro allI impI)
    fix j assume "j < i"
    then have "j \<in> set [0..<n]" using \<open>i < n\<close> by simp
    then have "j \<in> set pre \<or> j = i \<or> j \<in> set post" by (auto simp: s)
    moreover have "\<forall>k \<in> set post. i < k"
      using \<open>sorted_wrt (<) (pre @ i # post)\<close> by (simp add: sorted_wrt_append)
    ultimately show "j \<in> set pre" using \<open>j < i\<close> by auto
  qed
  with a b \<open>i < n\<close> show ?thesis by blast
qed

lemma steal_oldest_min:
  assumes "oldest_age = age (vs ! oldest)"
  shows "(let r = steal_oldest vs js oldest oldest_age in
           (r = oldest \<or> r \<in> set js)
         \<and> age (vs ! r) \<le> oldest_age
         \<and> (\<forall>j \<in> set js. age (vs ! r) \<le> age (vs ! j)))"
  using assms
proof (induction js arbitrary: oldest oldest_age)
  case Nil
  then show ?case by simp
next
  case (Cons k js)
  show ?case
  proof (cases "age (vs ! k) < oldest_age")
    case True
    from Cons.IH [of "age (vs ! k)" k] True Cons.prems show ?thesis
      by (auto simp: Let_def)
  next
    case False
    from Cons.IH [of oldest_age oldest] False Cons.prems show ?thesis
      by (auto simp: Let_def)
  qed
qed

text \<open>
  C5. \<^verbatim>\<open>find_free_voice\<close> always returns an index of the voice array. When some voice
  is inactive, the result is the first inactive voice in index order; when every voice
  is active, the result is a voice whose age is minimal among all voices.
\<close>

theorem find_free_voice_spec:
  assumes len: "length (voices inst) = MAX_VOICES"
  shows "0 \<le> find_free_voice inst \<and> find_free_voice inst < int MAX_VOICES
       \<and> ((\<exists>i < MAX_VOICES. \<not> active (voices inst ! i)) \<longrightarrow>
            \<not> active (voices inst ! nat (find_free_voice inst))
          \<and> (\<forall>j < nat (find_free_voice inst). active (voices inst ! j)))
       \<and> ((\<forall>i < MAX_VOICES. active (voices inst ! i)) \<longrightarrow>
            (\<forall>j < MAX_VOICES. age (voices inst ! nat (find_free_voice inst)) \<le> age (voices inst ! j)))"
proof (cases "first_inactive (voices inst) [0..<MAX_VOICES]")
  case (Some i)
  from first_inactive_upt [OF Some]
  have i: "i < MAX_VOICES" "\<not> active (voices inst ! i)" "\<forall>j < i. active (voices inst ! j)"
    by blast+
  have r: "find_free_voice inst = int i" by (simp add: find_free_voice_def Some)
  from i show ?thesis unfolding r by auto
next
  case None
  then have all: "\<forall>j < MAX_VOICES. active (voices inst ! j)"
    by (simp add: first_inactive_None)
  define r where "r = steal_oldest (voices inst) [1..<MAX_VOICES] 0 (age (voices inst ! 0))"
  have fr: "find_free_voice inst = int r" by (simp add: find_free_voice_def None r_def)
  from steal_oldest_min [of "age (voices inst ! 0)" "voices inst" 0 "[1..<MAX_VOICES]"]
  have m: "r = 0 \<or> r \<in> set [1..<MAX_VOICES]"
    "age (voices inst ! r) \<le> age (voices inst ! 0)"
    "\<forall>j \<in> set [1..<MAX_VOICES]. age (voices inst ! r) \<le> age (voices inst ! j)"
    by (simp_all add: Let_def r_def)
  from m(1) have rb: "r < MAX_VOICES" by (auto simp: MAX_VOICES_def)
  have "\<forall>j < MAX_VOICES. age (voices inst ! r) \<le> age (voices inst ! j)"
  proof (intro allI impI)
    fix j assume "j < MAX_VOICES"
    then have "j = 0 \<or> j \<in> set [1..<MAX_VOICES]" by auto
    with m(2,3) show "age (voices inst ! r) \<le> age (voices inst ! j)" by auto
  qed
  with rb all show ?thesis unfolding fr by auto
qed

theorem find_free_voice_spec_witness:
  "length (voices (ex_inst [ex_voice True True 60 5, ex_voice True False 62 2,
                            ex_voice True True 64 7, ex_voice True True 65 3])) = MAX_VOICES
   \<and> find_free_voice (ex_inst [ex_voice True True 60 5, ex_voice True False 62 2,
                            ex_voice True True 64 7, ex_voice True True 65 3]) = 1
   \<and> length (voices (ex_inst [ex_voice True True 60 5, ex_voice True False 62 2,
                            ex_voice False False 64 7, ex_voice False True 65 3])) = MAX_VOICES
   \<and> find_free_voice (ex_inst [ex_voice True True 60 5, ex_voice True False 62 2,
                            ex_voice False False 64 7, ex_voice False True 65 3]) = 2"
  using find_free_voice_spec [of "ex_inst [ex_voice True True 60 5, ex_voice True False 62 2,
                            ex_voice True True 64 7, ex_voice True True 65 3]"]
    find_free_voice_spec [of "ex_inst [ex_voice True True 60 5, ex_voice True False 62 2,
                            ex_voice False False 64 7, ex_voice False True 65 3]"]
  by (simp add: find_free_voice_def ex_inst_def ex_voice_def MAX_VOICES_def upt_rec)

lemma note_scan_gated:
  assumes "\<exists>i \<in> set js. active (vs ! i) \<and> v_note (vs ! i) = n \<and> gate (vs ! i)"
  shows "\<exists>k \<in> set js. note_scan vs n js r = int k
           \<and> active (vs ! k) \<and> v_note (vs ! k) = n \<and> gate (vs ! k)"
  using assms by (induction js arbitrary: r) auto

lemma note_scan_releasing:
  assumes "\<forall>i \<in> set js. \<not> (active (vs ! i) \<and> v_note (vs ! i) = n \<and> gate (vs ! i))"
  shows "note_scan vs n js r =
           (case filter (\<lambda>i. active (vs ! i) \<and> v_note (vs ! i) = n) js of
              [] \<Rightarrow> r
            | m # ms \<Rightarrow> int (last (m # ms)))"
  using assms
proof (induction js arbitrary: r)
  case Nil
  then show ?case by simp
next
  case (Cons k js)
  then show ?case by (auto split: list.splits)
qed

lemma sorted_le_last: "sorted xs \<Longrightarrow> (x::nat) \<in> set xs \<Longrightarrow> x \<le> last xs"
  by (induction xs) auto

lemma last_filter_upt:
  assumes "filter P [0..<n] = m # ms"
  shows "last (m # ms) < n \<and> P (last (m # ms)) \<and> (\<forall>j < n. P j \<longrightarrow> j \<le> last (m # ms))"
proof -
  let ?l = "last (m # ms)"
  have mem: "?l \<in> set (filter P [0..<n])" unfolding assms by (rule last_in_set) simp
  then have a: "?l < n" "P ?l" by auto
  have srt: "sorted (filter P [0..<n])" by (rule sorted_wrt_filter) simp
  have "\<forall>j < n. P j \<longrightarrow> j \<le> ?l"
  proof (intro allI impI)
    fix j assume "j < n" "P j"
    then have "j \<in> set (m # ms)" using assms [symmetric] by simp
    moreover have "sorted (m # ms)" using srt assms by simp
    ultimately show "j \<le> ?l" by (rule sorted_le_last [rotated])
  qed
  with a show ?thesis by blast
qed

text \<open>
  C6. \<^verbatim>\<open>find_voice_for_note\<close> for a note \<open>n\<close>: when some active voice holds \<open>n\<close>
  with its gate set, the result is such a voice, whatever releasing voices hold the same
  note; when the only active voices holding \<open>n\<close> are releasing ones, the result is
  the match the scan met last, that is the releasing match of the highest index; when no
  active voice holds \<open>n\<close>, the result is -1.
\<close>

theorem find_voice_for_note_spec:
  assumes len: "length (voices inst) = MAX_VOICES"
  shows "((\<exists>i < MAX_VOICES. active (voices inst ! i) \<and> v_note (voices inst ! i) = n
              \<and> gate (voices inst ! i)) \<longrightarrow>
            0 \<le> find_voice_for_note inst n \<and> find_voice_for_note inst n < int MAX_VOICES
          \<and> active (voices inst ! nat (find_voice_for_note inst n))
          \<and> v_note (voices inst ! nat (find_voice_for_note inst n)) = n
          \<and> gate (voices inst ! nat (find_voice_for_note inst n)))
       \<and> ((\<forall>i < MAX_VOICES. \<not> (active (voices inst ! i) \<and> v_note (voices inst ! i) = n
              \<and> gate (voices inst ! i))) \<and>
          (\<exists>i < MAX_VOICES. active (voices inst ! i) \<and> v_note (voices inst ! i) = n) \<longrightarrow>
            0 \<le> find_voice_for_note inst n \<and> find_voice_for_note inst n < int MAX_VOICES
          \<and> active (voices inst ! nat (find_voice_for_note inst n))
          \<and> v_note (voices inst ! nat (find_voice_for_note inst n)) = n
          \<and> \<not> gate (voices inst ! nat (find_voice_for_note inst n))
          \<and> (\<forall>j < MAX_VOICES. active (voices inst ! j) \<and> v_note (voices inst ! j) = n \<longrightarrow>
                int j \<le> find_voice_for_note inst n))
       \<and> ((\<forall>i < MAX_VOICES. \<not> (active (voices inst ! i) \<and> v_note (voices inst ! i) = n)) \<longrightarrow>
            find_voice_for_note inst n = - 1)"
proof (intro conjI impI)
  let ?vs = "voices inst"
  let ?P = "\<lambda>i. active (?vs ! i) \<and> v_note (?vs ! i) = n"
  {
    assume "\<exists>i < MAX_VOICES. active (?vs ! i) \<and> v_note (?vs ! i) = n \<and> gate (?vs ! i)"
    then have "\<exists>i \<in> set [0..<MAX_VOICES]. active (?vs ! i) \<and> v_note (?vs ! i) = n \<and> gate (?vs ! i)"
      by auto
    from note_scan_gated [OF this, of "- 1"] obtain k where
      k: "k < MAX_VOICES" "find_voice_for_note inst n = int k"
         "active (?vs ! k)" "v_note (?vs ! k) = n" "gate (?vs ! k)"
      by (auto simp: find_voice_for_note_def)
    then show "0 \<le> find_voice_for_note inst n" "find_voice_for_note inst n < int MAX_VOICES"
      "active (?vs ! nat (find_voice_for_note inst n))"
      "v_note (?vs ! nat (find_voice_for_note inst n)) = n"
      "gate (?vs ! nat (find_voice_for_note inst n))"
      by simp_all
  }
  {
    assume h: "(\<forall>i < MAX_VOICES. \<not> (active (?vs ! i) \<and> v_note (?vs ! i) = n \<and> gate (?vs ! i)))
       \<and> (\<exists>i < MAX_VOICES. active (?vs ! i) \<and> v_note (?vs ! i) = n)"
    then have ng: "\<forall>i \<in> set [0..<MAX_VOICES]. \<not> (active (?vs ! i) \<and> v_note (?vs ! i) = n \<and> gate (?vs ! i))"
      by auto
    from h obtain i where "i \<in> set [0..<MAX_VOICES]" "?P i" by auto
    then have "filter ?P [0..<MAX_VOICES] \<noteq> []" by (auto simp: filter_empty_conv)
    then obtain m ms where f: "filter ?P [0..<MAX_VOICES] = m # ms" by (cases "filter ?P [0..<MAX_VOICES]") auto
    have r: "find_voice_for_note inst n = int (last (m # ms))"
      unfolding find_voice_for_note_def note_scan_releasing [OF ng] f by simp
    from last_filter_upt [OF f] have l: "last (m # ms) < MAX_VOICES" "?P (last (m # ms))"
      "\<forall>j < MAX_VOICES. ?P j \<longrightarrow> j \<le> last (m # ms)" by blast+
    from l(1,2) ng have g: "\<not> gate (?vs ! last (m # ms))" by auto
    from l g show "0 \<le> find_voice_for_note inst n" "find_voice_for_note inst n < int MAX_VOICES"
      "active (?vs ! nat (find_voice_for_note inst n))"
      "v_note (?vs ! nat (find_voice_for_note inst n)) = n"
      "\<not> gate (?vs ! nat (find_voice_for_note inst n))"
      "\<forall>j < MAX_VOICES. active (?vs ! j) \<and> v_note (?vs ! j) = n \<longrightarrow>
                int j \<le> find_voice_for_note inst n"
      unfolding r by simp_all
  }
  {
    assume h: "\<forall>i < MAX_VOICES. \<not> (active (?vs ! i) \<and> v_note (?vs ! i) = n)"
    then have ng: "\<forall>i \<in> set [0..<MAX_VOICES]. \<not> (active (?vs ! i) \<and> v_note (?vs ! i) = n \<and> gate (?vs ! i))"
      by auto
    from h have "filter ?P [0..<MAX_VOICES] = []" by (auto simp: filter_empty_conv)
    then show "find_voice_for_note inst n = - 1"
      unfolding find_voice_for_note_def note_scan_releasing [OF ng] by simp
  }
qed

theorem find_voice_for_note_spec_witness:
  "length (voices (ex_inst [ex_voice True False 60 5, ex_voice True True 60 2,
                            ex_voice True False 60 7, ex_voice False True 60 3])) = MAX_VOICES
   \<and> find_voice_for_note (ex_inst [ex_voice True False 60 5, ex_voice True True 60 2,
                            ex_voice True False 60 7, ex_voice False True 60 3]) 60 = 1
   \<and> find_voice_for_note (ex_inst [ex_voice True False 60 5, ex_voice True True 61 2,
                            ex_voice True False 60 7, ex_voice False True 60 3]) 60 = 2
   \<and> find_voice_for_note (ex_inst [ex_voice True False 60 5, ex_voice True True 61 2,
                            ex_voice True False 60 7, ex_voice False True 60 3]) 62 = - 1"
  using find_voice_for_note_spec [of "ex_inst [ex_voice True False 60 5, ex_voice True True 60 2,
                            ex_voice True False 60 7, ex_voice False True 60 3]" 60]
    find_voice_for_note_spec [of "ex_inst [ex_voice True False 60 5, ex_voice True True 61 2,
                            ex_voice True False 60 7, ex_voice False True 60 3]" 60]
    find_voice_for_note_spec [of "ex_inst [ex_voice True False 60 5, ex_voice True True 61 2,
                            ex_voice True False 60 7, ex_voice False True 60 3]" 62]
  by (simp add: find_voice_for_note_def ex_inst_def ex_voice_def MAX_VOICES_def upt_rec)

section \<open>The envelope's step function\<close>

text \<open>
  C3. One step of \<^verbatim>\<open>process\<close>, by the stage it starts in. It returns the level it
  leaves in the envelope and never touches the rates or the sustain level. Attack adds
  the attack rate and, once the sum reaches 1, stores 1 and moves to decay; decay
  subtracts the decay rate and, once the difference is at or below the sustain level,
  stores the sustain level and moves to sustain; sustain stores the sustain level and
  stays; release subtracts the release rate and, once the difference is at or below 0,
  stores 0 and moves to idle; idle stores 0 and stays. \<^verbatim>\<open>gate_on\<close> enters attack from
  any stage, keeping the level.
\<close>

theorem process_transition_table:
  "fst (process e) = level (snd (process e))
   \<and> attack_rate (snd (process e)) = attack_rate e
   \<and> decay_rate (snd (process e)) = decay_rate e
   \<and> sustain_level (snd (process e)) = sustain_level e
   \<and> release_rate (snd (process e)) = release_rate e
   \<and> (stage e = ATTACK \<longrightarrow>
        (if 1 \<le> fadd (level e) (attack_rate e)
         then level (snd (process e)) = 1 \<and> stage (snd (process e)) = DECAY
         else level (snd (process e)) = fadd (level e) (attack_rate e)
            \<and> stage (snd (process e)) = ATTACK))
   \<and> (stage e = DECAY \<longrightarrow>
        (if fsub (level e) (decay_rate e) \<le> sustain_level e
         then level (snd (process e)) = sustain_level e \<and> stage (snd (process e)) = SUSTAIN
         else level (snd (process e)) = fsub (level e) (decay_rate e)
            \<and> stage (snd (process e)) = DECAY))
   \<and> (stage e = SUSTAIN \<longrightarrow>
        level (snd (process e)) = sustain_level e \<and> stage (snd (process e)) = SUSTAIN)
   \<and> (stage e = RELEASE \<longrightarrow>
        (if fsub (level e) (release_rate e) \<le> 0
         then level (snd (process e)) = 0 \<and> stage (snd (process e)) = IDLE
         else level (snd (process e)) = fsub (level e) (release_rate e)
            \<and> stage (snd (process e)) = RELEASE))
   \<and> (stage e = IDLE \<longrightarrow>
        level (snd (process e)) = 0 \<and> stage (snd (process e)) = IDLE)
   \<and> stage (gate_on e) = ATTACK \<and> level (gate_on e) = level e"
  by (cases "stage e") (simp_all add: process_def gate_on_def Let_def)

lemma to_float_quarters:
  "to_float 0 = 0" "to_float (1 / 4) = 1 / 4" "to_float (1 / 2) = 1 / 2"
  "to_float (3 / 4) = 3 / 4" "to_float 1 = 1"
  by code_simp+

theorem process_transition_table_witness:
  "stage (ex_env ATTACK (1 / 2)) = ATTACK
     \<and> process (ex_env ATTACK (1 / 2)) = (3 / 4, ex_env ATTACK (3 / 4))
   \<and> process (ex_env ATTACK (3 / 4)) = (1, ex_env DECAY 1)
   \<and> stage (ex_env DECAY 1) = DECAY
     \<and> process (ex_env DECAY 1) = (3 / 4, ex_env DECAY (3 / 4))
   \<and> process (ex_env DECAY (3 / 4)) = (1 / 2, ex_env SUSTAIN (1 / 2))
   \<and> stage (ex_env SUSTAIN (1 / 2)) = SUSTAIN
     \<and> process (ex_env SUSTAIN (1 / 2)) = (1 / 2, ex_env SUSTAIN (1 / 2))
   \<and> stage (ex_env RELEASE (1 / 2)) = RELEASE
     \<and> process (ex_env RELEASE (1 / 2)) = (1 / 4, ex_env RELEASE (1 / 4))
   \<and> process (ex_env RELEASE (1 / 4)) = (0, ex_env IDLE 0)
   \<and> stage (ex_env IDLE 0) = IDLE
     \<and> process (ex_env IDLE 0) = (0, ex_env IDLE 0)"
proof -
  have a1: "process (ex_env ATTACK (1 / 2)) = (3 / 4, ex_env ATTACK (3 / 4))"
    by (simp add: process_def ex_env_def fadd_def to_float_quarters Let_def)
  have a2: "process (ex_env ATTACK (3 / 4)) = (1, ex_env DECAY 1)"
    by (simp add: process_def ex_env_def fadd_def to_float_quarters Let_def)
  have d1: "process (ex_env DECAY 1) = (3 / 4, ex_env DECAY (3 / 4))"
    by (simp add: process_def ex_env_def fsub_def to_float_quarters Let_def)
  have d2: "process (ex_env DECAY (3 / 4)) = (1 / 2, ex_env SUSTAIN (1 / 2))"
    by (simp add: process_def ex_env_def fsub_def to_float_quarters Let_def)
  have s1: "process (ex_env SUSTAIN (1 / 2)) = (1 / 2, ex_env SUSTAIN (1 / 2))"
    by (simp add: process_def ex_env_def Let_def)
  have r1: "process (ex_env RELEASE (1 / 2)) = (1 / 4, ex_env RELEASE (1 / 4))"
    by (simp add: process_def ex_env_def fsub_def to_float_quarters Let_def)
  have r2: "process (ex_env RELEASE (1 / 4)) = (0, ex_env IDLE 0)"
    by (simp add: process_def ex_env_def fsub_def to_float_quarters Let_def)
  have i1: "process (ex_env IDLE 0) = (0, ex_env IDLE 0)"
    by (simp add: process_def ex_env_def Let_def)
  have st: "stage (ex_env ATTACK (1 / 2)) = ATTACK" "stage (ex_env DECAY 1) = DECAY"
    "stage (ex_env SUSTAIN (1 / 2)) = SUSTAIN" "stage (ex_env RELEASE (1 / 2)) = RELEASE"
    "stage (ex_env IDLE 0) = IDLE"
    by (simp_all add: ex_env_def)
  from process_transition_table [of "ex_env ATTACK (1 / 2)"] a1 a2 d1 d2 s1 r1 r2 i1 st
  show ?thesis by simp
qed

section \<open>Applying a preset\<close>

text \<open>
  C9. Applying a preset whose index is negative or not below the number of loaded
  presets (any index at all when no preset is loaded) returns the instance as it was:
  parameters, octave transpose, preset name and everything else. The same holds for
  selecting such a preset with \<^verbatim>\<open>set_param\<close> and the key \<^verbatim>\<open>preset\<close>.
\<close>

theorem apply_preset_out_of_range:
  assumes "preset_idx < 0 \<or> preset_count inst \<le> preset_idx"
  shows "v2_apply_preset inst preset_idx = inst
       \<and> (atoi val = preset_idx \<longrightarrow> v2_set_param inst ''preset'' val = inst)"
  using assms by (auto simp: v2_apply_preset_def v2_set_param_def Let_def)

lemma atoi_examples: "atoi ''1'' = 1" "atoi ''-1'' = - 1" "atoi ''0'' = 0"
  by code_simp+

theorem apply_preset_out_of_range_witness:
  "preset_count (ex_inst []) \<le> 0
   \<and> v2_apply_preset (ex_inst []) 0 = ex_inst []
   \<and> v2_set_param (ex_inst []) ''preset'' ''0'' = ex_inst []
   \<and> preset_count ((ex_inst [])\<lparr>presets := [ex_preset]\<rparr>) \<le> 1
   \<and> v2_apply_preset ((ex_inst [])\<lparr>presets := [ex_preset]\<rparr>) 1 = (ex_inst [])\<lparr>presets := [ex_preset]\<rparr>
   \<and> v2_set_param ((ex_inst [])\<lparr>presets := [ex_preset]\<rparr>) ''preset'' ''1''
       = (ex_inst [])\<lparr>presets := [ex_preset]\<rparr>
   \<and> v2_apply_preset ((ex_inst [])\<lparr>presets := [ex_preset]\<rparr>) (- 1) = (ex_inst [])\<lparr>presets := [ex_preset]\<rparr>
   \<and> v2_set_param ((ex_inst [])\<lparr>presets := [ex_preset]\<rparr>) ''preset'' ''-1''
       = (ex_inst [])\<lparr>presets := [ex_preset]\<rparr>"
  using apply_preset_out_of_range [of 0 "ex_inst []" "''0''"]
    apply_preset_out_of_range [of 1 "(ex_inst [])\<lparr>presets := [ex_preset]\<rparr>" "''1''"]
    apply_preset_out_of_range [of "- 1" "(ex_inst [])\<lparr>presets := [ex_preset]\<rparr>" "''-1''"]
  by (simp add: preset_count_def ex_inst_def atoi_examples)

text \<open>
  Beyond the range of \<^verbatim>\<open>int\<close> the value of \<^verbatim>\<open>atoi\<close> wraps, and the preset branch
  of \<^verbatim>\<open>v2_set_param\<close> sees the wrapped index: the text 4294967296 selects preset 0.
\<close>

lemma atoi_beyond_int:
  "atoi ''4294967296'' = 0" "atoi ''2147483648'' = - 2147483648"
  "atoi ''2147483647'' = 2147483647" "atoi ''99999999999999999999'' = - 1"
  by (simp_all add: atoi_def strtol10_def Let_def dec_val_def digit_val_def is_digit_def
      isspace_def int32_t_def)

lemma preset_index_wraps:
  "v2_set_param (ex_inst []\<lparr>presets := [ex_preset]\<rparr>) ''preset'' ''4294967296''
     = v2_apply_preset (ex_inst []\<lparr>presets := [ex_preset], current_preset := 0\<rparr>) 0"
  by (simp add: v2_set_param_def atoi_beyond_int Let_def preset_count_def ex_inst_def)

section \<open>The range of the stored parameters\<close>

lemma ex_file_strings:
  "json_get_string ex_preset_file ''name'' 64 = None"
  "json_get_string ex_preset_file ''engine'' 32 = None"
  by code_simp+

lemma ex_file_absent:
  "json_get_number ex_preset_file ''engine'' = None"
  "json_get_number ex_preset_file ''color'' = None"
  "json_get_number ex_preset_file ''attack'' = None"
  "json_get_number ex_preset_file ''decay'' = None"
  "json_get_number ex_preset_file ''sustain'' = None"
  "json_get_number ex_preset_file ''release'' = None"
  "json_get_number ex_preset_file ''fm'' = None"
  "json_get_number ex_preset_file ''cutoff'' = None"
  "json_get_number ex_preset_file ''resonance'' = None"
  "json_get_number ex_preset_file ''filt_env'' = None"
  "json_get_number ex_preset_file ''f_attack'' = None"
  "json_get_number ex_preset_file ''f_decay'' = None"
  "json_get_number ex_preset_file ''f_sustain'' = None"
  "json_get_number ex_preset_file ''f_release'' = None"
  "json_get_number ex_preset_file ''volume'' = None"
  "json_get_number ex_preset_file ''octave_transpose'' = None"
  by code_simp+

lemma ex_file_timbre_text:
  "strstr ex_preset_file (json_search ''timbre'') = Some (dq # ''timbre'' @ [dq] @ '':5}'')"
  "length (json_search ''timbre'') = 9"
  "atof_exact ''5}'' = 5"
  by code_simp+

lemma ex_file_timbre: "json_get_number ex_preset_file ''timbre'' = Some 5"
  using to_double_of_int [of 5] to_float_of_int [of 5]
  by (simp add: json_get_number_def ex_file_timbre_text atof_def)

lemma ex_file_length: "length ex_preset_file = 12"
  by code_simp

lemma load_ex_file:
  "preset_count inst < 64 \<Longrightarrow>
   p_params (last (presets (load_braids_preset inst (Some ex_preset_file)))) ! PARAM_TIMBRE = 5"
  by (simp add: load_braids_preset_def ex_file_length ex_file_strings ex_file_absent
      ex_file_timbre MAX_PRESETS_def Let_def PARAM_COUNT_def PARAM_ENGINE_def PARAM_TIMBRE_def
      PARAM_COLOR_def PARAM_ATTACK_def PARAM_DECAY_def PARAM_SUSTAIN_def PARAM_RELEASE_def
      PARAM_FM_def PARAM_CUTOFF_def PARAM_RESONANCE_def PARAM_FILT_ENV_def PARAM_F_ATTACK_def
      PARAM_F_DECAY_def PARAM_F_SUSTAIN_def PARAM_F_RELEASE_def PARAM_VOLUME_def
      numeral_eq_Suc)

text \<open>
  C1. The invariant that every stored parameter lies in its declared range fails after
  loading a preset: \<^verbatim>\<open>load_braids_preset\<close> stores the numbers of the file as they
  are, and \<^verbatim>\<open>v2_apply_preset\<close> copies them into the parameter table. An instance
  created over a preset directory whose one file is \<^verbatim>\<open>{"timbre":5}\<close> has the timbre 5,
  above the maximum 1 of its table entry.
\<close>

theorem preset_value_not_clamped:
  "params (v2_create_instance dsp [Some ex_preset_file]) ! PARAM_TIMBRE = 5
   \<and> pd_index (g_shadow_params ! 1) = PARAM_TIMBRE
   \<and> max_val (g_shadow_params ! 1) = 1"
proof -
  let ?i0 = "\<lparr>voices = replicate MAX_VOICES \<lparr>osc = osc_Init dsp, amp_env = zero_env, filt_env = zero_env,
               svf = svf_Init dsp, osc_buffer = replicate BRAIDS_BLOCK_SIZE 0,
               v_note = 0, velocity = 0, active = False, gate = False, age = 0\<rparr>, params = default_params,
                  octave_transpose = 0, voice_counter = 0, presets = [],
                  current_preset = 0, preset_name = ''Init''\<rparr>"
  let ?i1 = "load_braids_preset ?i0 (Some ex_preset_file)"
  have c0: "preset_count ?i0 < 64" by (simp add: preset_count_def)
  have l: "length (presets ?i1) = 1"
    by (simp add: load_braids_preset_def ex_file_length MAX_PRESETS_def preset_count_def Let_def)
  have t: "p_params (last (presets ?i1)) ! PARAM_TIMBRE = 5" by (rule load_ex_file [OF c0])
  from l obtain p where p: "presets ?i1 = [p]" by (cases "presets ?i1") auto
  with t have pt: "p_params p ! PARAM_TIMBRE = 5" by simp
  have lp: "length (params ?i1) = 16"
    by (simp add: load_braids_preset_def ex_file_length MAX_PRESETS_def preset_count_def Let_def
        default_params_def PARAM_COUNT_def)
  have "params (v2_apply_preset (?i1\<lparr>current_preset := 0\<rparr>) 0) ! PARAM_TIMBRE = 5"
    using p pt lp
    by (simp add: v2_apply_preset_def preset_count_def Let_def PARAM_COUNT_def PARAM_TIMBRE_def
        upt_rec numeral_eq_Suc nth_list_update)
  moreover have "v2_create_instance dsp [Some ex_preset_file] = v2_apply_preset (?i1\<lparr>current_preset := 0\<rparr>) 0"
    using p by (simp add: v2_create_instance_def load_presets_def MAX_PRESETS_def Let_def preset_count_def)
  ultimately show ?thesis
    by (simp add: g_shadow_params_def pdef_def PARAM_TIMBRE_def)
qed

section \<open>Note On with velocity 0\<close>

lemma map_update_same: "(map f xs)[i := f (xs ! i)] = map f xs"
  by (metis list_update_id map_update)

text \<open>
  C10. A message whose status is Note On (\<^verbatim>\<open>0x90\<close>, any channel) and whose velocity
  is 0 (or missing) has the effect of the Note Off with the same data bytes: with the
  note number transposed by the octave setting and clamped to 0..127, the voice that
  \<^verbatim>\<open>find_voice_for_note\<close> gives, if any, gets its gate cleared and \<^verbatim>\<open>gate_off\<close>
  called on both envelopes (release, unless the envelope is idle); nothing else changes,
  so no voice is allocated, stolen or re-triggered, and nothing at all changes when no
  voice matches.
\<close>

theorem note_on_velocity_zero:
  assumes len: "2 \<le> length msg"
    and st: "msg ! 0 AND 0xF0 = 0x90"
    and vel: "length msg = 2 \<or> msg ! 2 = 0"
  shows "v2_on_midi dsp inst msg = v2_on_midi dsp inst (0x80 # tl msg)
       \<and> v2_on_midi dsp inst msg =
           (let note = max 0 (min 127 (uint (msg ! 1) + octave_transpose inst * 12));
                vi = find_voice_for_note inst note
            in if 0 \<le> vi
               then inst\<lparr>voices := (voices inst)
                      [nat vi := (voices inst ! nat vi)
                         \<lparr>gate := False,
                          amp_env := gate_off (amp_env (voices inst ! nat vi)),
                          filt_env := gate_off (filt_env (voices inst ! nat vi))\<rparr>]\<rparr>
               else inst)
       \<and> voice_counter (v2_on_midi dsp inst msg) = voice_counter inst
       \<and> map active (voices (v2_on_midi dsp inst msg)) = map active (voices inst)
       \<and> map age (voices (v2_on_midi dsp inst msg)) = map age (voices inst)
       \<and> map v_note (voices (v2_on_midi dsp inst msg)) = map v_note (voices inst)
       \<and> map velocity (voices (v2_on_midi dsp inst msg)) = map velocity (voices inst)
       \<and> map osc (voices (v2_on_midi dsp inst msg)) = map osc (voices inst)"
proof -
  let ?note = "max 0 (min 127 (uint (msg ! 1) + octave_transpose inst * 12))"
  let ?vi = "find_voice_for_note inst ?note"
  let ?off = "if 0 \<le> ?vi
               then inst\<lparr>voices := (voices inst)
                      [nat ?vi := (voices inst ! nat ?vi)
                         \<lparr>gate := False,
                          amp_env := gate_off (amp_env (voices inst ! nat ?vi)),
                          filt_env := gate_off (filt_env (voices inst ! nat ?vi))\<rparr>]\<rparr>
               else inst"
  from len obtain a b r where msg: "msg = a # b # r" by (cases msg; cases "tl msg") auto
  have d2: "(if 2 < length msg then msg ! 2 else 0) = 0" using vel by auto
  have n: "(if 127 < (if uint b + octave_transpose inst * 12 < 0 then 0 else uint b + octave_transpose inst * 12)
            then 127 else (if uint b + octave_transpose inst * 12 < 0 then 0 else uint b + octave_transpose inst * 12))
           = max 0 (min 127 (uint b + octave_transpose inst * 12))" by auto
  have on: "v2_on_midi dsp inst msg = ?off"
    using st d2 unfolding v2_on_midi_def msg by (simp add: Let_def n del: max_min_distrib2 min_max_distrib2)
  have st80: "(0x80 :: 8 word) AND 0xF0 = 0x80" by simp
  have off: "v2_on_midi dsp inst (0x80 # tl msg) = ?off"
    unfolding v2_on_midi_def msg by (simp add: Let_def n st80)
  have m: "\<And>f. (\<And>v. f (v\<lparr>gate := False, amp_env := gate_off (amp_env v), filt_env := gate_off (filt_env v)\<rparr>) = f v)
      \<Longrightarrow> map f (voices ?off) = map f (voices inst)"
    by (auto simp: map_update map_update_same)
  show ?thesis
    unfolding on off [unfolded on [symmetric]] Let_def
    using m [of active] m [of age] m [of v_note] m [of velocity] m [of osc]
    by (simp add: on)
qed

theorem note_on_velocity_zero_witness:
  "2 \<le> length [0x90, 60, 0 :: 8 word]
   \<and> [0x90, 60, 0 :: 8 word] ! 0 AND 0xF0 = 0x90
   \<and> [0x90, 60, 0 :: 8 word] ! 2 = 0
   \<and> v2_on_midi ex_dsp (ex_inst [ex_voice True False 60 5, ex_voice True True 60 2,
                                   ex_voice True False 60 7, ex_voice False True 60 3]) [0x90, 60, 0]
       = ex_inst [ex_voice True False 60 5, ex_voice True False 60 2,
                  ex_voice True False 60 7, ex_voice False True 60 3]
   \<and> v2_on_midi ex_dsp (ex_inst [ex_voice True False 60 5, ex_voice True True 60 2,
                                   ex_voice True False 60 7, ex_voice False True 60 3]) [0x90, 60, 0]
       = v2_on_midi ex_dsp (ex_inst [ex_voice True False 60 5, ex_voice True True 60 2,
                                   ex_voice True False 60 7, ex_voice False True 60 3]) [0x80, 60, 0]
   \<and> 2 \<le> length [0x93, 61 :: 8 word]
   \<and> [0x93, 61 :: 8 word] ! 0 AND 0xF0 = 0x90
   \<and> length [0x93, 61 :: 8 word] = 2
   \<and> v2_on_midi ex_dsp (ex_inst [ex_voice True False 60 5, ex_voice True True 60 2,
                                   ex_voice True False 60 7, ex_voice False True 60 3]) [0x93, 61]
       = ex_inst [ex_voice True False 60 5, ex_voice True True 60 2,
                  ex_voice True False 60 7, ex_voice False True 60 3]"
proof -
  let ?i = "ex_inst [ex_voice True False 60 5, ex_voice True True 60 2,
                     ex_voice True False 60 7, ex_voice False True 60 3]"
  have s: "[0x90, 60, 0 :: 8 word] ! 0 AND 0xF0 = 0x90" "[0x93, 61 :: 8 word] ! 0 AND 0xF0 = 0x90"
    by simp_all
  have f: "find_voice_for_note ?i 60 = 1" "find_voice_for_note ?i 61 = - 1"
    by (simp_all add: find_voice_for_note_def ex_inst_def ex_voice_def MAX_VOICES_def upt_rec)
  have o: "octave_transpose ?i = 0" by (simp add: ex_inst_def)
  have g: "voices ?i ! 1 = ex_voice True True 60 2" by (simp add: ex_inst_def)
  have e: "(ex_voice True True 60 2)\<lparr>gate := False,
             amp_env := gate_off (amp_env (ex_voice True True 60 2)),
             filt_env := gate_off (filt_env (ex_voice True True 60 2))\<rparr> = ex_voice True False 60 2"
    by (simp add: ex_voice_def ex_env_def gate_off_def)
  have g': "voices ?i ! Suc 0 = ex_voice True True 60 2" by (simp add: ex_inst_def)
  have l: "2 \<le> length [0x90, 60, 0 :: 8 word]" "2 \<le> length [0x93, 61 :: 8 word]" by simp_all
  have v: "length [0x90, 60, 0 :: 8 word] = 2 \<or> [0x90, 60, 0 :: 8 word] ! 2 = 0"
    "length [0x93, 61 :: 8 word] = 2 \<or> [0x93, 61 :: 8 word] ! 2 = 0" by simp_all
  note T1 = note_on_velocity_zero [of "[0x90, 60, 0]" ex_dsp ?i, OF l(1) s(1) v(1)]
  note T2 = note_on_velocity_zero [of "[0x93, 61]" ex_dsp ?i, OF l(2) s(2) v(2)]
  from T1 have "v2_on_midi ex_dsp ?i [0x90, 60, 0] = v2_on_midi ex_dsp ?i (0x80 # tl [0x90, 60, 0])"
    by (rule conjunct1)
  then have a1: "v2_on_midi ex_dsp ?i [0x90, 60, 0] = v2_on_midi ex_dsp ?i [0x80, 60, 0]" by simp
  from T1 have "v2_on_midi ex_dsp ?i [0x90, 60, 0] =
           (let note = max 0 (min 127 (uint ([0x90, 60, 0 :: 8 word] ! 1) + octave_transpose ?i * 12));
                vi = find_voice_for_note ?i note
            in if 0 \<le> vi
               then ?i\<lparr>voices := (voices ?i)
                      [nat vi := (voices ?i ! nat vi)
                         \<lparr>gate := False,
                          amp_env := gate_off (amp_env (voices ?i ! nat vi)),
                          filt_env := gate_off (filt_env (voices ?i ! nat vi))\<rparr>]\<rparr>
               else ?i)"
    by (rule conjunct1 [OF conjunct2])
  then have a2: "v2_on_midi ex_dsp ?i [0x90, 60, 0] = ?i\<lparr>voices := (voices ?i)[1 := ex_voice True False 60 2]\<rparr>"
    by (simp add: Let_def f o g' e)
  from T2 have "v2_on_midi ex_dsp ?i [0x93, 61] =
           (let note = max 0 (min 127 (uint ([0x93, 61 :: 8 word] ! 1) + octave_transpose ?i * 12));
                vi = find_voice_for_note ?i note
            in if 0 \<le> vi
               then ?i\<lparr>voices := (voices ?i)
                      [nat vi := (voices ?i ! nat vi)
                         \<lparr>gate := False,
                          amp_env := gate_off (amp_env (voices ?i ! nat vi)),
                          filt_env := gate_off (filt_env (voices ?i ! nat vi))\<rparr>]\<rparr>
               else ?i)"
    by (rule conjunct1 [OF conjunct2])
  then have b: "v2_on_midi ex_dsp ?i [0x93, 61] = ?i"
    by (simp add: Let_def f o)
  have u: "?i\<lparr>voices := (voices ?i)[1 := ex_voice True False 60 2]\<rparr>
      = ex_inst [ex_voice True False 60 5, ex_voice True False 60 2,
                 ex_voice True False 60 7, ex_voice False True 60 3]"
    by (simp add: ex_inst_def)
  show ?thesis using a1 a2 b u s by simp
qed

section \<open>The rates of the envelope\<close>

text \<open>The values of \<^verbatim>\<open>time_to_rate\<close> at four parameters, rounding by rounding.\<close>

lemma tf_milli: "to_float (1 / 1000) = 8589935 / 8589934592"
  by (rule to_float_eval [where s = 116]) (simp_all add: round_even_def)

lemma tf_zero_1: "to_float (0 * 0) = 0"
  by (rule to_float_eval [where s = 0]) (simp_all add: round_even_def)

lemma tf_zero_2: "to_float (0 * 10) = 0"
  by (rule to_float_eval [where s = 0]) (simp_all add: round_even_def)

lemma tf_zero_3: "to_float (8589935 / 8589934592 + 0) = 8589935 / 8589934592"
  by (rule to_float_eval [where s = 116]) (simp_all add: round_even_def)

lemma tf_zero_4: "to_float (8589935 / 8589934592 * 44100) = 11560551 / 262144"
  by (rule to_float_eval [where s = 131]) (simp_all add: round_even_def)

lemma tf_zero_5: "to_float (1 / (11560551 / 262144)) = 12173943 / 536870912"
  by (rule to_float_eval [where s = 120]) (simp_all add: round_even_def)

lemma time_to_rate_zero: "time_to_rate (0) = 12173943 / 536870912"
  unfolding time_to_rate_def Let_def fadd_def fmul_def fdiv_def
  by (simp only: tf_milli tf_zero_1 tf_zero_2 tf_zero_3 tf_zero_4 tf_zero_5)

lemma tf_half_1: "to_float ((1 / 2) * (1 / 2)) = 1 / 4"
  by (rule to_float_eval [where s = 124]) (simp_all add: round_even_def)

lemma tf_half_2: "to_float (1 / 4 * 10) = 5 / 2"
  by (rule to_float_eval [where s = 127]) (simp_all add: round_even_def)

lemma tf_half_3: "to_float (8589935 / 8589934592 + 5 / 2) = 5244977 / 2097152"
  by (rule to_float_eval [where s = 127]) (simp_all add: round_even_def)

lemma tf_half_4: "to_float (5244977 / 2097152 * 44100) = 3529411 / 32"
  by (rule to_float_eval [where s = 142]) (simp_all add: round_even_def)

lemma tf_half_5: "to_float (1 / (3529411 / 32)) = 2492227 / 274877906944"
  by (rule to_float_eval [where s = 109]) (simp_all add: round_even_def)

lemma time_to_rate_half: "time_to_rate ((1 / 2)) = 2492227 / 274877906944"
  unfolding time_to_rate_def Let_def fadd_def fmul_def fdiv_def
  by (simp only: tf_milli tf_half_1 tf_half_2 tf_half_3 tf_half_4 tf_half_5)

lemma tf_one_1: "to_float (1 * 1) = 1"
  by (rule to_float_eval [where s = 126]) (simp_all add: round_even_def)

lemma tf_one_2: "to_float (1 * 10) = 10"
  by (rule to_float_eval [where s = 129]) (simp_all add: round_even_def)

lemma tf_one_3: "to_float (8589935 / 8589934592 + 10) = 10486809 / 1048576"
  by (rule to_float_eval [where s = 129]) (simp_all add: round_even_def)

lemma tf_one_4: "to_float (10486809 / 1048576 * 44100) = 3528353 / 8"
  by (rule to_float_eval [where s = 144]) (simp_all add: round_even_def)

lemma tf_one_5: "to_float (1 / (3528353 / 8)) = 9971897 / 4398046511104"
  by (rule to_float_eval [where s = 107]) (simp_all add: round_even_def)

lemma time_to_rate_one: "time_to_rate (1) = 9971897 / 4398046511104"
  unfolding time_to_rate_def Let_def fadd_def fmul_def fdiv_def
  by (simp only: tf_milli tf_one_1 tf_one_2 tf_one_3 tf_one_4 tf_one_5)

lemma tf_tiny_1: "to_float ((1 / 2 ^ 20) * (1 / 2 ^ 20)) = 1 / 1099511627776"
  by (rule to_float_eval [where s = 86]) (simp_all add: round_even_def)

lemma tf_tiny_2: "to_float (1 / 1099511627776 * 10) = 5 / 549755813888"
  by (rule to_float_eval [where s = 89]) (simp_all add: round_even_def)

lemma tf_tiny_3: "to_float (8589935 / 8589934592 + 5 / 549755813888) = 8589935 / 8589934592"
  by (rule to_float_eval [where s = 116]) (simp_all add: round_even_def)

lemma tf_tiny_4: "to_float (8589935 / 8589934592 * 44100) = 11560551 / 262144"
  by (rule to_float_eval [where s = 131]) (simp_all add: round_even_def)

lemma tf_tiny_5: "to_float (1 / (11560551 / 262144)) = 12173943 / 536870912"
  by (rule to_float_eval [where s = 120]) (simp_all add: round_even_def)

lemma time_to_rate_tiny: "time_to_rate ((1 / 2 ^ 20)) = 12173943 / 536870912"
  unfolding time_to_rate_def Let_def fadd_def fmul_def fdiv_def
  by (simp only: tf_milli tf_tiny_1 tf_tiny_2 tf_tiny_3 tf_tiny_4 tf_tiny_5)

lemma to_float_milli: "to_float (to_float (1 / 1000)) = to_float (1 / 1000)"
  "0 < to_float (to_float (1 / 1000) * 44100)"
  using tf_zero_3 tf_zero_4 by (simp_all add: tf_milli)

lemma time_to_rate_base:
  assumes "0 \<le> p"
  shows "to_float (1 / 1000) \<le> fadd (to_float (1 / 1000)) (fmul (fmul p p) 10)"
proof -
  have "0 \<le> p * p" using assms by simp
  from to_float_mono [OF this] have "0 \<le> fmul p p"
    using to_float_of_int [of 0] by (simp add: fmul_def)
  then have "0 \<le> fmul p p * 10" by simp
  from to_float_mono [OF this] have "0 \<le> fmul (fmul p p) 10"
    using to_float_of_int [of 0] by (simp add: fmul_def)
  then have "to_float (1 / 1000) \<le> to_float (1 / 1000) + fmul (fmul p p) 10" by simp
  from to_float_mono [OF this] show ?thesis by (simp add: fadd_def to_float_milli)
qed

lemma time_to_rate_antimono:
  assumes "0 \<le> p1" "p1 \<le> p2"
  shows "time_to_rate p2 \<le> time_to_rate p1"
proof -
  let ?t = "\<lambda>p. fadd (to_float (1 / 1000)) (fmul (fmul p p) 10)"
  have "p1 * p1 \<le> p2 * p2" using assms by (simp add: mult_mono)
  then have "fmul p1 p1 \<le> fmul p2 p2" unfolding fmul_def by (rule to_float_mono)
  then have "fmul p1 p1 * 10 \<le> fmul p2 p2 * 10" by simp
  then have "fmul (fmul p1 p1) 10 \<le> fmul (fmul p2 p2) 10" unfolding fmul_def by (rule to_float_mono)
  then have "to_float (1 / 1000) + fmul (fmul p1 p1) 10 \<le> to_float (1 / 1000) + fmul (fmul p2 p2) 10"
    by simp
  then have t: "?t p1 \<le> ?t p2" unfolding fadd_def by (rule to_float_mono)
  then have "?t p1 * 44100 \<le> ?t p2 * 44100" by simp
  then have m: "fmul (?t p1) 44100 \<le> fmul (?t p2) 44100" unfolding fmul_def by (rule to_float_mono)
  have "to_float (1 / 1000) * 44100 \<le> ?t p1 * 44100"
    using time_to_rate_base [OF assms(1)] by simp
  from to_float_mono [OF this] have pos: "0 < fmul (?t p1) 44100"
    using to_float_milli(2) by (simp add: fmul_def)
  with m have "1 / fmul (?t p2) 44100 \<le> 1 / fmul (?t p1) 44100"
    by (simp add: frac_le)
  then show ?thesis unfolding time_to_rate_def Let_def fdiv_def by (rule to_float_mono)
qed

lemma time_to_rate_pos:
  assumes "0 \<le> p" "p \<le> 1"
  shows "0 < time_to_rate p"
proof -
  have "time_to_rate 1 \<le> time_to_rate p" using assms by (intro time_to_rate_antimono) simp_all
  moreover have "0 < time_to_rate 1" by (simp add: time_to_rate_one)
  ultimately show ?thesis by simp
qed

text \<open>
  C8. The rate that \<^verbatim>\<open>set_params\<close> derives from a stage parameter never grows with
  the parameter: for \<open>0 \<le> p1 \<le> p2\<close> the rate at \<open>p2\<close> is at most the rate at
  \<open>p1\<close>, for the attack, the decay and the release stage. It need not be smaller: the
  rounding of the float operations maps close parameters to one rate.
\<close>

theorem rate_monotone:
  assumes "0 \<le> a1" "a1 \<le> a2" "0 \<le> d1" "d1 \<le> d2" "0 \<le> r1" "r1 \<le> r2"
  shows "attack_rate (set_params a2 d2 s r2 e) \<le> attack_rate (set_params a1 d1 s r1 e)
       \<and> decay_rate (set_params a2 d2 s r2 e) \<le> decay_rate (set_params a1 d1 s r1 e)
       \<and> release_rate (set_params a2 d2 s r2 e) \<le> release_rate (set_params a1 d1 s r1 e)"
  using assms by (simp add: set_params_def time_to_rate_antimono)

theorem rate_monotone_witness:
  "(0::real) \<le> 0 \<and> (0::real) \<le> 1 / 2 \<and> (1 / 2 :: real) \<le> 1
   \<and> attack_rate (set_params (1 / 2) 1 (1 / 2) 1 (ex_env IDLE 0))
       \<le> attack_rate (set_params 0 (1 / 2) (1 / 2) (1 / 2) (ex_env IDLE 0))
   \<and> attack_rate (set_params (1 / 2) 1 (1 / 2) 1 (ex_env IDLE 0)) = 2492227 / 274877906944
   \<and> attack_rate (set_params 0 (1 / 2) (1 / 2) (1 / 2) (ex_env IDLE 0)) = 12173943 / 536870912
   \<and> decay_rate (set_params (1 / 2) 1 (1 / 2) 1 (ex_env IDLE 0))
       \<le> decay_rate (set_params 0 (1 / 2) (1 / 2) (1 / 2) (ex_env IDLE 0))
   \<and> release_rate (set_params (1 / 2) 1 (1 / 2) 1 (ex_env IDLE 0))
       \<le> release_rate (set_params 0 (1 / 2) (1 / 2) (1 / 2) (ex_env IDLE 0))"
  using rate_monotone [of 0 "1 / 2" "1 / 2" 1 "1 / 2" 1 "1 / 2" "ex_env IDLE 0"]
  by (simp add: set_params_def time_to_rate_half time_to_rate_zero)

text \<open>
  The claim as stated, with the strictly smaller rate, fails at the parameters 0 and
  \<open>2 ^ - 20\<close>: ten times the square of the latter is below half the spacing of the
  floats at 0.001.
\<close>

theorem rate_not_strictly_monotone:
  "\<not> (\<forall>p1 p2. 0 \<le> p1 \<and> p1 < p2 \<and> p2 \<le> 1 \<longrightarrow> time_to_rate p2 < time_to_rate p1)"
proof
  assume "\<forall>p1 p2. 0 \<le> p1 \<and> p1 < p2 \<and> p2 \<le> 1 \<longrightarrow> time_to_rate p2 < time_to_rate p1"
  then have "time_to_rate (1 / 2 ^ 20) < time_to_rate 0" by simp
  moreover have "time_to_rate (1 / 2 ^ 20) = time_to_rate 0"
    by (simp only: time_to_rate_tiny time_to_rate_zero)
  ultimately show False by simp
qed

section \<open>The saturating mix\<close>

lemma int16_t_range: "- 32768 \<le> int16_t x" "int16_t x \<le> 32767"
  by (simp_all add: int16_t_def) 

lemma int16_t_id: "- 32768 \<le> x \<Longrightarrow> x \<le> 32767 \<Longrightarrow> int16_t x = x"
  by (simp add: int16_t_def)

lemma int32_t_id: "- 2147483648 \<le> x \<Longrightarrow> x < 2147483648 \<Longrightarrow> int32_t x = x"
  by (simp add: int32_t_def)

lemma int32_t_range: "- 2147483648 \<le> int32_t x" "int32_t x < 2147483648"
  by (simp_all add: int32_t_def)

lemma sat16_range: "- 32768 \<le> sat16 x" "sat16 x \<le> 32767"
  by (simp_all add: sat16_def Let_def)

lemma sat16_max_min: "sat16 x = max (- 32768) (min 32767 x)"
  by (simp add: sat16_def Let_def)

lemma in16_update: "in16 out \<Longrightarrow> in16 (out[i := int16_t x])"
  unfolding in16_def using int16_t_range [of x] by (auto dest!: set_update_subset_insert [THEN subsetD])

lemma mix_frame_in16: "in16 out \<Longrightarrow> in16 (mix_frame out idx sample g)"
  by (simp add: mix_frame_def Let_def in16_update)

lemma mix_frame_length: "length (mix_frame out idx sample g) = length out"
  by (simp add: mix_frame_def Let_def)

lemma render_samples_in16:
  "in16 out \<Longrightarrow> in16 (snd (render_samples dsp loc rendered ss v out))"
  by (induction ss arbitrary: v out) (simp_all add: Let_def mix_frame_in16)

lemma render_samples_length:
  "length (snd (render_samples dsp loc rendered ss v out)) = length out"
  by (induction ss arbitrary: v out) (simp_all add: Let_def mix_frame_length)

lemma render_blocks_in16:
  "in16 out \<Longrightarrow> in16 (snd (render_blocks dsp loc frames rendered v out))"
proof (induction dsp loc frames rendered v out rule: render_blocks.induct)
  case (1 dsp loc frames rendered v out)
  show ?case
  proof (cases "rendered < frames")
    case False
    with "1.prems" show ?thesis by (simp add: render_blocks.simps)
  next
    case True
    define bs where "bs = block_size_at frames rendered"
    define vo where "vo = render_samples dsp loc rendered [0..<bs] (render_osc dsp bs v) out"
    have vo16: "in16 (snd vo)" unfolding vo_def using "1.prems" by (rule render_samples_in16)
    have eq: "render_blocks dsp loc frames rendered v out =
        (if \<not> active (fst vo) then vo
         else render_blocks dsp loc frames (rendered + bs) (fst vo) (snd vo))"
      using True
      by (subst render_blocks.simps) (simp add: Let_def bs_def vo_def)
    show ?thesis
    proof (cases "active (fst vo)")
      case False
      with eq vo16 show ?thesis by simp
    next
      case act: True
      from "1.IH" [OF True bs_def vo_def _ vo16] act
      have "in16 (snd (render_blocks dsp loc frames (rendered + bs) (fst vo) (snd vo)))"
        by simp
      with eq act show ?thesis by simp
    qed
  qed
qed


lemma render_blocks_length:
  "length (snd (render_blocks dsp loc frames rendered v out)) = length out"
proof (induction dsp loc frames rendered v out rule: render_blocks.induct)
  case (1 dsp loc frames rendered v out)
  show ?case
  proof (cases "rendered < frames")
    case False
    then show ?thesis by (simp add: render_blocks.simps)
  next
    case True
    define bs where "bs = block_size_at frames rendered"
    define vo where "vo = render_samples dsp loc rendered [0..<bs] (render_osc dsp bs v) out"
    have l: "length (snd vo) = length out" unfolding vo_def by (rule render_samples_length)
    have eq: "render_blocks dsp loc frames rendered v out =
        (if \<not> active (fst vo) then vo
         else render_blocks dsp loc frames (rendered + bs) (fst vo) (snd vo))"
      using True
      by (subst render_blocks.simps) (simp add: Let_def bs_def vo_def)
    show ?thesis
    proof (cases "active (fst vo)")
      case False
      with eq l show ?thesis by simp
    next
      case act: True
      from "1.IH" [OF True bs_def vo_def] act l eq show ?thesis by simp
    qed
  qed
qed

lemma render_voice_in16: "in16 out \<Longrightarrow> in16 (snd (render_voice dsp inst loc frames v out))"
  by (simp add: render_voice_def Let_def render_blocks_in16)

lemma render_voice_length: "length (snd (render_voice dsp inst loc frames v out)) = length out"
  by (simp add: render_voice_def Let_def render_blocks_length)

lemma render_voices_in16:
  "in16 out \<Longrightarrow> in16 (snd (render_voices dsp inst loc frames vis vs out))"
  by (induction vis arbitrary: vs out) (simp_all add: Let_def render_voice_in16)

lemma render_voices_length:
  "length (snd (render_voices dsp inst loc frames vis vs out)) = length out"
  by (induction vis arbitrary: vs out) (simp_all add: Let_def render_voice_length)

lemma render_block_in16: "in16 (snd (v2_render_block dsp inst frames))"
proof -
  have "in16 (replicate (2 * frames) 0)" by (simp add: in16_def)
  then show ?thesis by (simp add: v2_render_block_def Let_def render_voices_in16)
qed

lemma render_block_length: "length (snd (v2_render_block dsp inst frames)) = 2 * frames"
  by (simp add: v2_render_block_def Let_def render_voices_length)

lemma fl_minus: "fl p q (- x) = - fl p q x"
  by (cases "x = 0") (auto simp: fl_def fl_nonneg_zero)

lemma to_float_minus: "to_float (- x) = - to_float x"
  by (simp add: to_float_def fl_minus)

lemma to_float_pow2: "to_float (2 ^ k) = 2 ^ k"
proof -
  have "fl_nonneg 24 149 (of_int 1 * 2 ^ (k + 149) / 2 ^ 149) = of_int 1 * 2 ^ (k + 149) / 2 ^ 149"
    by (rule fl_nonneg_exact) simp_all
  then show ?thesis by (simp add: to_float_def fl_def power_add)
qed

lemma to_float_abs_le:
  assumes "\<bar>x\<bar> \<le> 2 ^ k"
  shows "\<bar>to_float x\<bar> \<le> 2 ^ k"
proof -
  from assms have "x \<le> 2 ^ k" "- (2 ^ k) \<le> x" by linarith+
  from to_float_mono [OF this(1)] to_float_mono [OF this(2)]
  have "to_float x \<le> 2 ^ k" "- (2 ^ k) \<le> to_float x"
    by (simp_all add: to_float_pow2 to_float_minus)
  then show ?thesis by linarith
qed

lemma trunc_abs_le:
  assumes "\<bar>x\<bar> \<le> of_int n"
  shows "\<bar>trunc x\<bar> \<le> n"
proof (cases "x < 0")
  case True
  from assms have "of_int (- n) \<le> x" by simp
  then have "- n \<le> \<lceil>x\<rceil>" by (simp only: le_ceiling_iff)
  moreover have "\<lceil>x\<rceil> \<le> 0" using True by (simp add: ceiling_le_iff)
  ultimately show ?thesis using True by (simp add: trunc_def)
next
  case False
  from assms have "x \<le> of_int n" by linarith
  then have "\<lfloor>x\<rfloor> \<le> n" by (simp add: floor_le_iff) 
  moreover have "0 \<le> \<lfloor>x\<rfloor>" using False by simp
  ultimately show ?thesis using False by (simp add: trunc_def)
qed

lemma float_to_int_trunc:
  assumes "\<bar>trunc x\<bar> \<le> 2147483647"
  shows "float_to_int x = trunc x"
  using assms by (auto simp: float_to_int_def)

lemma float_to_int_range: "- 2147483648 \<le> float_to_int x" "float_to_int x \<le> 2147483647"
  by (simp_all add: float_to_int_def)

lemma contribution_bound:
  assumes "\<bar>sample\<bar> \<le> 33554432" "0 \<le> g" "g \<le> 1"
  shows "\<bar>trunc (fmul (to_float (of_int sample)) g)\<bar> \<le> 33554432"
proof -
  have "(of_int \<bar>sample\<bar> :: real) \<le> of_int 33554432" using assms(1) by (simp only: of_int_le_iff)
  then have "\<bar>(of_int sample :: real)\<bar> \<le> 2 ^ 25" by simp
  then have a: "\<bar>to_float (of_int sample)\<bar> \<le> 2 ^ 25" by (rule to_float_abs_le)
  have "\<bar>to_float (of_int sample) * g\<bar> = \<bar>to_float (of_int sample)\<bar> * g"
    using assms(2) by (simp add: abs_mult)
  also have "\<dots> \<le> 2 ^ 25 * 1" using a assms(2,3) by (intro mult_mono) simp_all
  finally have "\<bar>to_float (of_int sample) * g\<bar> \<le> 2 ^ 25" by simp
  then have "\<bar>fmul (to_float (of_int sample)) g\<bar> \<le> 2 ^ 25"
    unfolding fmul_def by (rule to_float_abs_le)
  then have "\<bar>fmul (to_float (of_int sample)) g\<bar> \<le> of_int 33554432" by simp
  then show ?thesis by (rule trunc_abs_le)
qed

lemma cdiv_127_bound: "\<bar>cdiv (int32_t x) 127\<bar> \<le> 33554432"
proof -
  have "\<bar>int32_t x\<bar> \<le> 2147483648" using int32_t_range [of x] by linarith
  then have "\<bar>int32_t x\<bar> div 127 \<le> 2147483648 div 127" by (rule zdiv_mono1) simp
  moreover have "\<bar>cdiv (int32_t x) 127\<bar> \<le> \<bar>int32_t x\<bar> div 127"
    by (simp add: cdiv_def abs_mult abs_sgn_eq)
  ultimately show ?thesis by simp
qed

lemma voice_sample_bound: "\<bar>fst (voice_sample dsp loc amp filt_val s v)\<bar> \<le> 33554432"
  unfolding voice_sample_def Let_def fst_conv by (rule cdiv_127_bound)

lemma to_float_quarter: "to_float (1 / 4) = 1 / 4"
  by (rule to_float_eval [where s = 124]) (simp_all add: round_even_def)

lemma render_gain_bound:
  assumes "0 \<le> params inst ! PARAM_VOLUME" "params inst ! PARAM_VOLUME \<le> 1"
  shows "0 \<le> gain (render_locals_of inst) \<and> gain (render_locals_of inst) \<le> 1"
proof -
  have "0 \<le> params inst ! PARAM_VOLUME / 4" "params inst ! PARAM_VOLUME / 4 \<le> 1 / 4"
    using assms by simp_all
  from to_float_mono [OF this(1)] to_float_mono [OF this(2)]
  show ?thesis using to_float_of_int [of 0]
    by (simp add: render_locals_of_def fdiv_def MAX_VOICES_def to_float_quarter)
qed

lemma int16_sat16: "int16_t (sat16 x) = max (- 32768) (min 32767 x)"
  using sat16_range [of x] by (simp only: int16_t_id sat16_max_min)

lemma mix_frame_exact:
  assumes idx: "idx + 1 < length out"
    and old: "- 32768 \<le> out ! idx" "out ! idx \<le> 32767"
      "- 32768 \<le> out ! (idx + 1)" "out ! (idx + 1) \<le> 32767"
    and smp: "\<bar>sample\<bar> \<le> 33554432" and g: "0 \<le> g" "g \<le> 1"
  shows "mix_frame out idx sample g ! idx
           = max (- 32768) (min 32767 (out ! idx + trunc (fmul (to_float (of_int sample)) g)))"
    and "mix_frame out idx sample g ! (idx + 1)
           = max (- 32768) (min 32767 (out ! (idx + 1) + trunc (fmul (to_float (of_int sample)) g)))"
    and "\<forall>i. i \<noteq> idx \<and> i \<noteq> idx + 1 \<longrightarrow> mix_frame out idx sample g ! i = out ! i"
proof -
  define c where "c = trunc (fmul (to_float (of_int sample)) g)"
  have c: "\<bar>c\<bar> \<le> 33554432" unfolding c_def by (rule contribution_bound [OF smp g])
  then have c32: "float_to_int (fmul (to_float (of_int sample)) g) = c"
    unfolding c_def by (intro float_to_int_trunc) linarith
  have l: "int32_t (out ! idx + c) = out ! idx + c"
    using c old by (intro int32_t_id) linarith+
  have r: "int32_t (out ! (idx + 1) + c) = out ! (idx + 1) + c"
    using c old by (intro int32_t_id) linarith+
  have m: "mix_frame out idx sample g
      = out[idx := max (- 32768) (min 32767 (out ! idx + c)),
            idx + 1 := max (- 32768) (min 32767 (out ! (idx + 1) + c))]"
    unfolding mix_frame_def Let_def c32 l r int16_sat16 ..
  show "mix_frame out idx sample g ! idx
           = max (- 32768) (min 32767 (out ! idx + trunc (fmul (to_float (of_int sample)) g)))"
    unfolding m c_def [symmetric] using idx by (simp del: max_min_distrib2 min_max_distrib2)
  show "mix_frame out idx sample g ! (idx + 1)
           = max (- 32768) (min 32767 (out ! (idx + 1) + trunc (fmul (to_float (of_int sample)) g)))"
    unfolding m c_def [symmetric] using idx by (simp del: max_min_distrib2 min_max_distrib2)
  show "\<forall>i. i \<noteq> idx \<and> i \<noteq> idx + 1 \<longrightarrow> mix_frame out idx sample g ! i = out ! i"
    unfolding m by simp
qed

text \<open>
  The mix of a sample into a frame within the ranges of the parameters: for a buffer
  whose two samples of the frame are 16-bit values, a sample of the size the renderer
  produces and a gain in 0..1, each channel becomes its old value plus the scaled sample,
  saturated to -32768..32767: the
  sum is exact, nothing wraps in the 32-bit intermediates or in the store, the two
  channels are treated alike and independently, and no other sample of the buffer
  changes. The sample that \<^verbatim>\<open>v2_render_block\<close> mixes is of that size whatever the
  voice does, and its gain is in 0..1 when the volume is in its range; every sample of
  the buffer it returns, for every frame, is a 16-bit value.
\<close>

theorem mix_saturates:
  assumes idx: "idx + 1 < length out"
    and old: "- 32768 \<le> out ! idx" "out ! idx \<le> 32767"
      "- 32768 \<le> out ! (idx + 1)" "out ! (idx + 1) \<le> 32767"
    and smp: "\<bar>sample\<bar> \<le> 33554432" and g: "0 \<le> g" "g \<le> 1"
  shows "mix_frame out idx sample g ! idx
           = max (- 32768) (min 32767 (out ! idx + trunc (fmul (to_float (of_int sample)) g)))
       \<and> mix_frame out idx sample g ! (idx + 1)
           = max (- 32768) (min 32767 (out ! (idx + 1) + trunc (fmul (to_float (of_int sample)) g)))
       \<and> (\<forall>i. i \<noteq> idx \<and> i \<noteq> idx + 1 \<longrightarrow> mix_frame out idx sample g ! i = out ! i)
       \<and> \<bar>fst (voice_sample dsp loc amp filt_val s v)\<bar> \<le> 33554432
       \<and> (0 \<le> params inst ! PARAM_VOLUME \<and> params inst ! PARAM_VOLUME \<le> 1
            \<longrightarrow> 0 \<le> gain (render_locals_of inst) \<and> gain (render_locals_of inst) \<le> 1)
       \<and> length (snd (v2_render_block dsp inst frames)) = 2 * frames
       \<and> (\<forall>i < 2 * frames. - 32768 \<le> snd (v2_render_block dsp inst frames) ! i
                             \<and> snd (v2_render_block dsp inst frames) ! i \<le> 32767)"
proof -
  have "\<forall>i < 2 * frames. - 32768 \<le> snd (v2_render_block dsp inst frames) ! i
                             \<and> snd (v2_render_block dsp inst frames) ! i \<le> 32767"
    using render_block_in16 [of dsp inst frames] render_block_length [of dsp inst frames]
    by (simp add: in16_def)
  with mix_frame_exact [OF idx old smp g] voice_sample_bound [of dsp loc amp filt_val s v]
    render_gain_bound [of inst] render_block_length [of dsp inst frames]
  show ?thesis by blast
qed

lemma to_float_mix_examples:
  "to_float 4000 = 4000" "to_float 2000 = 2000" "to_float (- 70000) = - 70000"
  "to_float (- 35000) = - 35000"
  using to_float_of_int [of 4000] to_float_of_int [of 2000] to_float_of_int [of "- 70000"]
    to_float_of_int [of "- 35000"]
  by simp_all

theorem mix_saturates_witness:
  "2 + 1 < length [100, - 200, 32000, - 32700 :: int]
   \<and> \<bar>4000 :: int\<bar> \<le> 33554432 \<and> (0 :: real) \<le> 1 / 2 \<and> (1 / 2 :: real) \<le> 1
   \<and> mix_frame [100, - 200, 32000, - 32700] 2 4000 (1 / 2) ! 2 = 32767
   \<and> mix_frame [100, - 200, 32000, - 32700] 2 4000 (1 / 2) ! (2 + 1) = - 30700
   \<and> mix_frame [100, - 200, 32000, - 32700] 2 4000 (1 / 2) ! 0 = 100
   \<and> 0 + 1 < length [100, - 200, 32000, - 32700 :: int]
   \<and> \<bar>- 70000 :: int\<bar> \<le> 33554432
   \<and> mix_frame [100, - 200, 32000, - 32700] 0 (- 70000) (1 / 2) ! 0 = - 32768
   \<and> mix_frame [100, - 200, 32000, - 32700] 0 (- 70000) (1 / 2) ! (0 + 1) = - 32768
   \<and> length (snd (v2_render_block ex_dsp ex_released 128)) = 2 * 128"
proof -
  have c: "trunc (fmul (to_float 4000) (1 / 2)) = 2000"
    "trunc (fmul (to_float (- 70000)) (1 / 2)) = - 35000"
    by (simp_all add: fmul_def to_float_mix_examples trunc_def)
  from mix_saturates [of 2 "[100, - 200, 32000, - 32700]" 4000 "1 / 2"
      ex_dsp "render_locals_of ex_released" 1 1 0 "voices ex_released ! 0" ex_released 128]
    mix_saturates [of 0 "[100, - 200, 32000, - 32700]" "- 70000" "1 / 2"
      ex_dsp "render_locals_of ex_released" 1 1 0 "voices ex_released ! 0" ex_released 128]
  show ?thesis by (simp add: c)
qed

section \<open>Retiring a released voice\<close>

lemma amp_after_0: "amp_after e 0 = e"
  by (simp add: amp_after_def)

lemma amp_after_Suc: "amp_after e (Suc n) = amp_after (snd (process e)) n"
  unfolding amp_after_def by (simp only: funpow_Suc_right o_apply)

lemma amp_after_Suc': "amp_after e (Suc n) = snd (process (amp_after e n))"
  by (simp add: amp_after_def)

lemma amp_after_add: "amp_after e (a + b) = amp_after (amp_after e a) b"
  by (induction a arbitrary: e) (simp_all add: amp_after_0 amp_after_Suc)

lemma steps_alive_le: "steps_alive e m \<le> m"
  by (induction m arbitrary: e) simp_all

text \<open>The first idle step, in terms of the envelope after each call.\<close>

lemma steps_alive_first:
  "steps_alive e m = k \<and> k < m \<longleftrightarrow>
     k < m \<and> \<not> is_active (amp_after e (Suc k)) \<and> (\<forall>j < k. is_active (amp_after e (Suc j)))"
proof (induction m arbitrary: e k)
  case 0
  then show ?case by simp
next
  case (Suc m)
  show ?case
  proof (cases "is_active (snd (process e))")
    case False
    have "(\<forall>j < k. is_active (amp_after e (Suc j))) \<longleftrightarrow> k = 0"
    proof
      assume a: "\<forall>j < k. is_active (amp_after e (Suc j))"
      show "k = 0"
      proof (rule ccontr)
        assume "k \<noteq> 0"
        then have "0 < k" by simp
        with a have "is_active (amp_after e (Suc 0))" by blast
        with False show False by (simp add: amp_after_Suc amp_after_0)
      qed
    qed simp
    with False show ?thesis by (auto simp: amp_after_Suc amp_after_0)
  next
    case True
    show ?thesis
    proof (cases k)
      case 0
      with True show ?thesis by (simp add: amp_after_Suc amp_after_0)
    next
      case (Suc k')
      have "(\<forall>j < Suc k'. is_active (amp_after e (Suc j)))
          \<longleftrightarrow> (\<forall>j < k'. is_active (amp_after (snd (process e)) (Suc j)))"
        using True by (auto simp: less_Suc_eq_0_disj amp_after_Suc amp_after_0)
      with Suc.IH [of "snd (process e)" k'] True Suc show ?thesis
        by (simp add: amp_after_Suc)
    qed
  qed
qed

lemma steps_alive_all:
  "steps_alive e m = m \<longleftrightarrow> (\<forall>j < m. is_active (amp_after e (Suc j)))"
proof (induction m arbitrary: e)
  case 0
  then show ?case by simp
next
  case (Suc m)
  show ?case
  proof (cases "is_active (snd (process e))")
    case False
    then have "\<not> is_active (amp_after e (Suc 0))" by (simp add: amp_after_Suc amp_after_0)
    then have "\<not> (\<forall>j < Suc m. is_active (amp_after e (Suc j)))" by blast
    with False show ?thesis by simp
  next
    case True
    have "(\<forall>j < Suc m. is_active (amp_after e (Suc j)))
          \<longleftrightarrow> (\<forall>j < m. is_active (amp_after (snd (process e)) (Suc j)))"
      using True by (auto simp: less_Suc_eq_0_disj amp_after_Suc amp_after_0)
    with Suc.IH [of "snd (process e)"] True show ?thesis by simp
  qed
qed

lemma steps_alive_add:
  "steps_alive e (a + b) =
     (if steps_alive e a < a then steps_alive e a else a + steps_alive (amp_after e a) b)"
proof (induction a arbitrary: e)
  case 0
  then show ?case by (simp add: amp_after_0)
next
  case (Suc a)
  then show ?case by (simp add: amp_after_Suc)
qed

lemma voice_sample_fields:
  "gate (snd (voice_sample dsp loc amp filt_val s v)) = gate v"
  "active (snd (voice_sample dsp loc amp filt_val s v)) = active v"
  "amp_env (snd (voice_sample dsp loc amp filt_val s v)) = amp_env v"
  by (simp_all add: voice_sample_def Let_def)

lemma mix_frame_other:
  "i \<noteq> idx \<Longrightarrow> i \<noteq> idx + 1 \<Longrightarrow> mix_frame out idx sample g ! i = out ! i"
  by (simp add: mix_frame_def Let_def)

text \<open>
  The sample loop on an ungated voice: with \<open>k\<close> the number of steps before the
  amplitude envelope goes idle, the voice stays as active as it was when \<open>k\<close> is the
  whole block and is retired otherwise, and the output changes in the \<open>k\<close> frames from
  \<open>rendered + a\<close> on only.
\<close>

lemma render_samples_ungated:
  assumes "\<not> gate v"
  shows "(let r = render_samples dsp loc rendered [a..<a + m] v out;
              k = steps_alive (amp_env v) m
          in \<not> gate (fst r)
           \<and> (k = m \<longrightarrow> active (fst r) = active v \<and> amp_env (fst r) = amp_after (amp_env v) m)
           \<and> (k < m \<longrightarrow> \<not> active (fst r))
           \<and> (\<forall>i. i < 2 * (rendered + a) \<or> 2 * (rendered + a + k) \<le> i \<longrightarrow> snd r ! i = out ! i))"
  using assms
proof (induction m arbitrary: a v out)
  case 0
  then show ?case by (simp add: amp_after_0)
next
  case (Suc m)
  have upt: "[a..<a + Suc m] = a # [Suc a..<Suc a + m]" by (simp add: upt_rec)
  define v1 where "v1 = v\<lparr>amp_env := snd (process (amp_env v)), filt_env := snd (process (filt_env v))\<rparr>"
  show ?case
  proof (cases "is_active (snd (process (amp_env v)))")
    case False
    with Suc.prems show ?thesis unfolding upt by (simp add: Let_def)
  next
    case True
    define sv where "sv = voice_sample dsp loc (fst (process (amp_env v))) (fst (process (filt_env v))) a v1"
    define out1 where "out1 = mix_frame out ((rendered + a) * 2) (fst sv) (gain loc)"
    have g: "\<not> gate (snd sv)" using Suc.prems by (simp add: sv_def voice_sample_fields v1_def)
    have e: "amp_env (snd sv) = snd (process (amp_env v))" by (simp add: sv_def voice_sample_fields v1_def)
    have ac: "active (snd sv) = active v" by (simp add: sv_def voice_sample_fields v1_def)
    have step: "render_samples dsp loc rendered [a..<a + Suc m] v out
        = render_samples dsp loc rendered [Suc a..<Suc a + m] (snd sv) out1"
      unfolding upt using True by (simp add: Let_def sv_def out1_def v1_def)
    note IH = Suc.IH [OF g, of "Suc a" out1, unfolded Let_def e]
    have o: "\<And>i. i < 2 * (rendered + a) \<or> 2 * (rendered + a + Suc (steps_alive (snd (process (amp_env v))) m)) \<le> i
        \<Longrightarrow> out1 ! i = out ! i"
      unfolding out1_def by (rule mix_frame_other) auto
    show ?thesis
      unfolding step Let_def using IH True ac o
      by (auto simp: amp_after_Suc)
  qed
qed

lemma render_osc_fields:
  "gate (render_osc dsp bs v) = gate v"
  "active (render_osc dsp bs v) = active v"
  "amp_env (render_osc dsp bs v) = amp_env v"
  by (simp_all add: render_osc_def Let_def)

lemma block_size_at_bounds:
  "rendered < frames \<Longrightarrow> 0 < block_size_at frames rendered"
  "rendered < frames \<Longrightarrow> rendered + block_size_at frames rendered \<le> frames"
  by (simp_all add: block_size_at_def BRAIDS_BLOCK_SIZE_def)

lemma render_blocks_ungated:
  assumes "\<not> gate v" "active v"
  shows "(let r = render_blocks dsp loc frames rendered v out;
              m = frames - rendered;
              k = steps_alive (amp_env v) m
          in \<not> gate (fst r)
           \<and> (k = m \<longrightarrow> active (fst r) \<and> amp_env (fst r) = amp_after (amp_env v) m)
           \<and> (k < m \<longrightarrow> \<not> active (fst r))
           \<and> (\<forall>i. i < 2 * rendered \<or> 2 * (rendered + k) \<le> i \<longrightarrow> snd r ! i = out ! i))"
  using assms
proof (induction dsp loc frames rendered v out rule: render_blocks.induct)
  case (1 dsp loc frames rendered v out)
  show ?case
  proof (cases "rendered < frames")
    case False
    then have eq0: "render_blocks dsp loc frames rendered v out = (v, out)"
      by (subst render_blocks.simps) simp
    from False have "frames - rendered = 0" by simp
    with "1.prems" show ?thesis unfolding eq0 Let_def by (simp add: amp_after_0)
  next
    case True
    define bs where "bs = block_size_at frames rendered"
    define v1 where "v1 = render_osc dsp bs v"
    define vo where "vo = render_samples dsp loc rendered [0..<bs] v1 out"
    define e where "e = amp_env v"
    define k1 where "k1 = steps_alive e bs"
    from block_size_at_bounds [OF True] have bs: "0 < bs" "rendered + bs \<le> frames"
      by (simp_all add: bs_def)
    define rest where "rest = frames - (rendered + bs)"
    have rest: "frames - rendered = bs + rest" "rest = frames - (rendered + bs)"
      using bs by (simp_all add: rest_def)
    have g1: "\<not> gate v1" and a1: "active v1" and e1: "amp_env v1 = e"
      using "1.prems" by (simp_all add: v1_def render_osc_fields e_def)
    from render_samples_ungated [OF g1, of dsp loc rendered 0 bs out]
    have S: "\<not> gate (fst vo)"
      "k1 = bs \<longrightarrow> active (fst vo) \<and> amp_env (fst vo) = amp_after e bs"
      "k1 < bs \<longrightarrow> \<not> active (fst vo)"
      "\<forall>i. i < 2 * rendered \<or> 2 * (rendered + k1) \<le> i \<longrightarrow> snd vo ! i = out ! i"
      by (simp_all add: Let_def vo_def e1 k1_def a1)
    have eq: "render_blocks dsp loc frames rendered v out =
        (if \<not> active (fst vo) then vo
         else render_blocks dsp loc frames (rendered + bs) (fst vo) (snd vo))"
      using True
      by (subst render_blocks.simps) (simp add: Let_def bs_def vo_def v1_def)
    have k1le: "k1 \<le> bs" unfolding k1_def by (rule steps_alive_le)
    have total: "steps_alive e (frames - rendered) = (if k1 < bs then k1 else bs + steps_alive (amp_after e bs) rest)"
      unfolding rest(1) k1_def by (rule steps_alive_add)
    show ?thesis
    proof (cases "k1 < bs")
      case lt: True
      with S(3) have na: "\<not> active (fst vo)" by simp
      have "k1 < frames - rendered" using lt rest(1) by linarith
      with na eq S lt total show ?thesis
        by (simp add: Let_def e_def [symmetric])
    next
      case False
      with k1le have k1: "k1 = bs" by simp
      with S(2) have act: "active (fst vo)" and env: "amp_env (fst vo) = amp_after e bs" by simp_all
      have IH: "let r = render_blocks dsp loc frames (rendered + bs) (fst vo) (snd vo);
              m = frames - (rendered + bs);
              k = steps_alive (amp_env (fst vo)) m
          in \<not> gate (fst r)
           \<and> (k = m \<longrightarrow> active (fst r) \<and> amp_env (fst r) = amp_after (amp_env (fst vo)) m)
           \<and> (k < m \<longrightarrow> \<not> active (fst r))
           \<and> (\<forall>i. i < 2 * (rendered + bs) \<or> 2 * (rendered + bs + k) \<le> i \<longrightarrow> snd r ! i = snd vo ! i)"
        using act S(1) by (intro "1.IH" [OF True bs_def]) (simp_all add: vo_def v1_def)
      from act have IH': "\<not> gate (fst (render_blocks dsp loc frames (rendered + bs) (fst vo) (snd vo)))"
        "steps_alive (amp_after e bs) rest = rest \<longrightarrow>
           active (fst (render_blocks dsp loc frames (rendered + bs) (fst vo) (snd vo)))
         \<and> amp_env (fst (render_blocks dsp loc frames (rendered + bs) (fst vo) (snd vo)))
             = amp_after (amp_after e bs) rest"
        "steps_alive (amp_after e bs) rest < rest \<longrightarrow>
           \<not> active (fst (render_blocks dsp loc frames (rendered + bs) (fst vo) (snd vo)))"
        "\<forall>i. i < 2 * (rendered + bs) \<or> 2 * (rendered + bs + steps_alive (amp_after e bs) rest) \<le> i
           \<longrightarrow> snd (render_blocks dsp loc frames (rendered + bs) (fst vo) (snd vo)) ! i = snd vo ! i"
        using IH unfolding Let_def env rest(2) [symmetric] by simp_all
      have t: "steps_alive e (bs + rest) = bs + steps_alive (amp_after e bs) rest"
        using total [unfolded rest(1)] k1 by simp
      have o: "\<forall>i. i < 2 * rendered \<or> 2 * (rendered + (bs + steps_alive (amp_after e bs) rest)) \<le> i
           \<longrightarrow> snd (render_blocks dsp loc frames (rendered + bs) (fst vo) (snd vo)) ! i = out ! i"
      proof (intro allI impI)
        fix i assume i: "i < 2 * rendered \<or> 2 * (rendered + (bs + steps_alive (amp_after e bs) rest)) \<le> i"
        then have "i < 2 * (rendered + bs) \<or> 2 * (rendered + bs + steps_alive (amp_after e bs) rest) \<le> i"
          by auto
        with IH'(4) have "snd (render_blocks dsp loc frames (rendered + bs) (fst vo) (snd vo)) ! i = snd vo ! i"
          by blast
        moreover from i k1 have "i < 2 * rendered \<or> 2 * (rendered + k1) \<le> i" by auto
        with S(4) have "snd vo ! i = out ! i" by blast
        ultimately show "snd (render_blocks dsp loc frames (rendered + bs) (fst vo) (snd vo)) ! i = out ! i"
          by simp
      qed
      show ?thesis
        unfolding Let_def eq e_def [symmetric] rest(1) t
        using act IH'(1,2,3) o by (simp add: amp_after_add)
    qed
  qed
qed

lemma apply_params_fields:
  "gate (apply_params_to_voice dsp inst v) = gate v"
  "active (apply_params_to_voice dsp inst v) = active v"
  "stage (amp_env (apply_params_to_voice dsp inst v)) = stage (amp_env v)"
  "level (amp_env (apply_params_to_voice dsp inst v)) = level (amp_env v)"
  "release_rate (amp_env (apply_params_to_voice dsp inst v)) = time_to_rate (params inst ! PARAM_RELEASE)"
  by (simp_all add: apply_params_to_voice_def Let_def set_params_def)

lemma render_voice_ungated:
  assumes "\<not> gate v" "active v"
  shows "(let r = render_voice dsp inst loc frames v out;
              k = steps_alive (amp_env (apply_params_to_voice dsp inst v)) frames
          in \<not> gate (fst r)
           \<and> (k = frames \<longrightarrow> active (fst r))
           \<and> (k < frames \<longrightarrow> \<not> active (fst r))
           \<and> (\<forall>i. 2 * k \<le> i \<longrightarrow> snd r ! i = out ! i))"
proof -
  define v1 where "v1 = apply_params_to_voice dsp inst v"
  define pitch where "pitch = (if to_float (1 / 1000) < fm_amount loc
                      then int16_t (note_to_pitch (v_note v1) + int16_t (float_to_int (fmul (fm_amount loc) 1536)))
                      else note_to_pitch (v_note v1))"
  define v2 where "v2 = v1\<lparr>osc := osc_set_pitch dsp pitch (osc v1)\<rparr>"
  have r: "render_voice dsp inst loc frames v out = render_blocks dsp loc frames 0 v2 out"
    using assms(2) by (simp add: render_voice_def Let_def v1_def v2_def pitch_def)
  have f: "\<not> gate v2" "active v2" "amp_env v2 = amp_env v1"
    using assms by (simp_all add: v2_def v1_def apply_params_fields)
  from render_blocks_ungated [OF f(1,2), of dsp loc frames 0 out]
  show ?thesis unfolding r Let_def f(3) v1_def [symmetric] by simp
qed

lemma render_voice_inactive: "\<not> active v \<Longrightarrow> render_voice dsp inst loc frames v out = (v, out)"
  by (simp add: render_voice_def)

lemma to_float_zero: "to_float 0 = 0"
  using to_float_of_int [of 0] by simp

text \<open>Below 1 the rounding to float adds at most \<open>2 ^ - 25\<close>.\<close>

lemma to_float_upper:
  assumes "0 \<le> x" "x < 1"
  shows "to_float x \<le> x + 1 / 2 ^ 25"
proof -
  obtain s where s: "x * 2 ^ 149 < 2 ^ (24 + s)" "s = 0 \<or> 2 ^ (24 + s - 1) \<le> x * 2 ^ 149"
    "fl_nonneg 24 149 x = of_int (round_even (x * 2 ^ 149 / 2 ^ s)) * 2 ^ s / 2 ^ 149"
    using fl_nonneg_shift [OF assms(1)] by blast
  have x149: "x * 2 ^ 149 < 2 ^ 149" using assms(2) by simp
  have "s \<le> 125"
  proof (rule ccontr)
    assume "\<not> s \<le> 125"
    then have s126: "126 \<le> s" by simp
    then have "s \<noteq> 0" by simp
    with s(2) have "2 ^ (24 + s - 1) \<le> x * 2 ^ 149" by simp
    moreover have "(2::real) ^ 149 \<le> 2 ^ (24 + s - 1)" using s126 by (intro power_increasing) simp_all
    ultimately show False using x149 by linarith
  qed
  then have p: "(2::real) ^ s \<le> 2 ^ 125" by (intro power_increasing) simp_all
  have "of_int (round_even (x * 2 ^ 149 / 2 ^ s)) \<le> x * 2 ^ 149 / 2 ^ s + 1 / 2"
    by (rule round_even_bounds)
  then have "of_int (round_even (x * 2 ^ 149 / 2 ^ s)) * 2 ^ s \<le> (x * 2 ^ 149 / 2 ^ s + 1 / 2) * 2 ^ s"
    by (simp add: mult_right_mono)
  also have "\<dots> = x * 2 ^ 149 + 2 ^ s / 2" by (simp add: field_simps)
  also have "\<dots> \<le> x * 2 ^ 149 + 2 ^ 125 / 2" using p by simp
  finally have "of_int (round_even (x * 2 ^ 149 / 2 ^ s)) * 2 ^ s / 2 ^ 149
      \<le> (x * 2 ^ 149 + 2 ^ 125 / 2) / 2 ^ 149"
    by (simp add: divide_right_mono)
  also have "\<dots> = x + 1 / 2 ^ 25" by (simp add: field_simps)
  finally show ?thesis using assms(1) s(3) by (simp add: to_float_def fl_def)
qed

text \<open>One release step either ends in idle or lowers the level by at least half the rate.\<close>

lemma release_step:
  assumes st: "stage e = RELEASE" and l: "level e \<le> 1" and r: "1 / 2 ^ 24 \<le> release_rate e"
    and act: "is_active (snd (process e))"
  shows "stage (snd (process e)) = RELEASE"
    and "release_rate (snd (process e)) = release_rate e"
    and "level (snd (process e)) \<le> level e - release_rate e / 2"
    and "0 < level (snd (process e))"
proof -
  let ?x = "level e - release_rate e"
  have pos: "0 < fsub (level e) (release_rate e)"
    using act st by (auto simp: process_def Let_def is_active_def split: if_splits)
  then have e': "snd (process e) = e\<lparr>level := fsub (level e) (release_rate e)\<rparr>"
    using st by (simp add: process_def Let_def)
  show "stage (snd (process e)) = RELEASE" "release_rate (snd (process e)) = release_rate e"
    "0 < level (snd (process e))"
    using st pos by (simp_all add: e')
  have x0: "0 < ?x"
  proof (rule ccontr)
    assume "\<not> 0 < ?x"
    then have "?x \<le> 0" by simp
    from to_float_mono [OF this] pos show False by (simp add: fsub_def to_float_zero)
  qed
  have "0 < release_rate e" using r by (rule less_le_trans [rotated]) simp
  with l have "?x < 1" by simp
  with x0 have "to_float ?x \<le> ?x + 1 / 2 ^ 25" by (intro to_float_upper) simp_all
  also have "\<dots> \<le> level e - release_rate e / 2" using r by simp
  finally show "level (snd (process e)) \<le> level e - release_rate e / 2"
    by (simp add: e' fsub_def)
qed

lemma release_run:
  assumes "stage e = RELEASE" "level e \<le> 1" "1 / 2 ^ 24 \<le> release_rate e"
    and "\<forall>j < n. is_active (amp_after e (Suc j))"
  shows "stage (amp_after e n) = RELEASE \<and> release_rate (amp_after e n) = release_rate e
       \<and> level (amp_after e n) \<le> level e - of_nat n * (release_rate e / 2)
       \<and> (0 < n \<longrightarrow> 0 < level (amp_after e n))"
  using assms(4)
proof (induction n)
  case 0
  with assms show ?case by (simp add: amp_after_0)
next
  case (Suc n)
  then have IH: "stage (amp_after e n) = RELEASE" "release_rate (amp_after e n) = release_rate e"
    "level (amp_after e n) \<le> level e - of_nat n * (release_rate e / 2)"
    by simp_all
  have "0 \<le> release_rate e" using assms(3) by (rule order_trans [rotated]) simp
  then have "0 \<le> of_nat n * (release_rate e / 2)" by simp
  with IH(3) assms(2) have l1: "level (amp_after e n) \<le> 1" by linarith
  have a: "is_active (snd (process (amp_after e n)))"
    using Suc.prems by (simp add: amp_after_Suc')
  from release_step [OF IH(1) l1 _ a] IH(2) assms(3)
  have S: "stage (amp_after e (Suc n)) = RELEASE" "release_rate (amp_after e (Suc n)) = release_rate e"
    "level (amp_after e (Suc n)) \<le> level (amp_after e n) - release_rate e / 2"
    "0 < level (amp_after e (Suc n))"
    by (simp_all add: amp_after_Suc')
  have "level (amp_after e (Suc n)) \<le> level e - of_nat n * (release_rate e / 2) - release_rate e / 2"
    using S(3) IH(3) by linarith
  also have "\<dots> = level e - of_nat (Suc n) * (release_rate e / 2)"
    by (simp add: algebra_simps)
  finally have "level (amp_after e (Suc n)) \<le> level e - of_nat (Suc n) * (release_rate e / 2)" .
  with S show ?case by blast
qed

lemma release_ends:
  assumes "stage e = RELEASE" "level e \<le> 1" "1 / 2 ^ 24 \<le> release_rate e"
  shows "\<exists>k. \<not> is_active (amp_after e (Suc k)) \<and> (\<forall>j < k. is_active (amp_after e (Suc j)))"
proof -
  have rpos: "0 < release_rate e" using assms(3) by (rule less_le_trans [rotated]) simp
  define n where "n = Suc (nat \<lceil>2 * level e / release_rate e\<rceil>)"
  have "\<exists>k. \<not> is_active (amp_after e (Suc k))"
  proof (rule ccontr)
    assume "\<not> (\<exists>k. \<not> is_active (amp_after e (Suc k)))"
    then have "\<forall>j < n. is_active (amp_after e (Suc j))" by simp
    from release_run [OF assms this]
    have le: "level (amp_after e n) \<le> level e - of_nat n * (release_rate e / 2)"
      and pos: "0 < level (amp_after e n)" by (simp_all add: n_def)
    have "2 * level e / release_rate e \<le> of_int \<lceil>2 * level e / release_rate e\<rceil>" by simp
    also have "\<dots> \<le> of_nat (nat \<lceil>2 * level e / release_rate e\<rceil>)" by simp
    also have "\<dots> \<le> of_nat n" by (simp add: n_def)
    finally have "2 * level e / release_rate e \<le> of_nat n" .
    then have "2 * level e \<le> of_nat n * release_rate e" using rpos by (simp add: pos_divide_le_eq)
    with le pos show False by simp
  qed
  then show ?thesis by (simp only: exists_least_iff [of "\<lambda>k. \<not> is_active (amp_after e (Suc k))"]) simp
qed

lemma rate_floor: "0 \<le> p \<Longrightarrow> p \<le> 1 \<Longrightarrow> 1 / 2 ^ 24 \<le> time_to_rate p"
proof -
  assume "0 \<le> p" "p \<le> 1"
  then have "time_to_rate 1 \<le> time_to_rate p" by (intro time_to_rate_antimono)
  then show ?thesis by (simp add: time_to_rate_one)
qed

lemma render_voices_length_vs:
  "length (fst (render_voices dsp inst loc frames vis vs out)) = length vs"
  by (induction vis arbitrary: vs out) (simp_all add: Let_def)

lemma render_voices_other:
  "vi \<notin> set vis \<Longrightarrow> fst (render_voices dsp inst loc frames vis vs out) ! vi = vs ! vi"
  by (induction vis arbitrary: vs out) (auto simp: Let_def)

lemma render_voices_nth:
  assumes "distinct vis" "vi \<in> set vis" "vi < length vs"
  shows "\<exists>out'. fst (render_voices dsp inst loc frames vis vs out) ! vi
           = fst (render_voice dsp inst loc frames (vs ! vi) out')"
  using assms
proof (induction vis arbitrary: vs out)
  case Nil
  then show ?case by simp
next
  case (Cons a vis)
  show ?case
  proof (cases "vi = a")
    case True
    with Cons.prems have "a \<notin> set vis" by simp
    from render_voices_other [OF this, of dsp inst loc frames
        "vs[a := fst (render_voice dsp inst loc frames (vs ! a) out)]"
        "snd (render_voice dsp inst loc frames (vs ! a) out)"] Cons.prems(3) True
    have "fst (render_voices dsp inst loc frames (a # vis) vs out) ! vi
        = fst (render_voice dsp inst loc frames (vs ! vi) out)"
      by (simp add: Let_def)
    then show ?thesis by blast
  next
    case False
    with Cons.prems have "distinct vis" "vi \<in> set vis" by simp_all
    from Cons.IH [OF this, of "vs[a := fst (render_voice dsp inst loc frames (vs ! a) out)]"
        "snd (render_voice dsp inst loc frames (vs ! a) out)"] Cons.prems(3) False
    show ?thesis by (simp add: Let_def)
  qed
qed

lemma render_block_voice:
  assumes "vi < MAX_VOICES" "vi < length (voices inst)"
  shows "\<exists>out'. voices (fst (v2_render_block dsp inst frames)) ! vi
           = fst (render_voice dsp inst (render_locals_of inst) frames (voices inst ! vi) out')"
  using render_voices_nth [of "[0..<MAX_VOICES]" vi "voices inst" dsp inst "render_locals_of inst" frames
      "replicate (2 * frames) 0"] assms
  by (simp add: v2_render_block_def Let_def)

text \<open>
  C2. Rendering an active voice whose gate is cleared, with \<open>k\<close> the first step of
  the callback at which its amplitude envelope is idle after \<^verbatim>\<open>process\<close>: the voice
  leaves the callback with \<^verbatim>\<open>active\<close> cleared, the output buffer is as it was from
  frame \<open>k\<close> on (nothing is mixed for that sample or for a later frame), every later
  rendering of the voice returns voice and buffer unchanged, and the voice is inactive in
  the instance that \<^verbatim>\<open>v2_render_block\<close> returns. When the envelope is idle at no step
  of the callback the voice stays active. A voice in release, with a level of at most 1
  and a release parameter in its range, is retired by every callback with enough frames.
\<close>

theorem release_retires_voice:
  assumes act: "active v" and ng: "\<not> gate v"
  shows "(k < frames
          \<and> \<not> is_active (amp_after (amp_env (apply_params_to_voice dsp inst v)) (Suc k))
          \<and> (\<forall>j < k. is_active (amp_after (amp_env (apply_params_to_voice dsp inst v)) (Suc j)))
        \<longrightarrow> \<not> active (fst (render_voice dsp inst loc frames v out))
          \<and> (\<forall>i \<ge> 2 * k. snd (render_voice dsp inst loc frames v out) ! i = out ! i)
          \<and> (\<forall>frames' out'.
                render_voice dsp inst loc frames' (fst (render_voice dsp inst loc frames v out)) out'
                  = (fst (render_voice dsp inst loc frames v out), out'))
          \<and> (vi < MAX_VOICES \<and> vi < length (voices inst) \<and> voices inst ! vi = v
               \<longrightarrow> \<not> active (voices (fst (v2_render_block dsp inst frames)) ! vi)))
       \<and> ((\<forall>j < frames. is_active (amp_after (amp_env (apply_params_to_voice dsp inst v)) (Suc j)))
        \<longrightarrow> active (fst (render_voice dsp inst loc frames v out)))
       \<and> (stage (amp_env v) = RELEASE \<and> level (amp_env v) \<le> 1
          \<and> 0 \<le> params inst ! PARAM_RELEASE \<and> params inst ! PARAM_RELEASE \<le> 1
        \<longrightarrow> (\<exists>n. \<forall>m \<ge> n. \<not> active (fst (render_voice dsp inst loc m v out))))"
proof (intro conjI impI)
  let ?e = "amp_env (apply_params_to_voice dsp inst v)"
  note R = render_voice_ungated [OF ng act, unfolded Let_def]
  {
    assume h: "k < frames \<and> \<not> is_active (amp_after ?e (Suc k))
          \<and> (\<forall>j < k. is_active (amp_after ?e (Suc j)))"
    then have k: "steps_alive ?e frames = k" "k < frames"
      using steps_alive_first [of ?e frames k] by simp_all
    from R [of dsp inst loc frames out] k
    show na: "\<not> active (fst (render_voice dsp inst loc frames v out))"
      and "\<forall>i \<ge> 2 * k. snd (render_voice dsp inst loc frames v out) ! i = out ! i"
      by simp_all
    from na show "\<forall>frames' out'.
                render_voice dsp inst loc frames' (fst (render_voice dsp inst loc frames v out)) out'
                  = (fst (render_voice dsp inst loc frames v out), out')"
      by (simp add: render_voice_inactive)
    {
      assume vi: "vi < MAX_VOICES \<and> vi < length (voices inst) \<and> voices inst ! vi = v"
      then obtain out' where "voices (fst (v2_render_block dsp inst frames)) ! vi
           = fst (render_voice dsp inst (render_locals_of inst) frames v out')"
        using render_block_voice [of vi inst dsp frames] by auto
      moreover from R [of dsp inst "render_locals_of inst" frames out'] k
      have "\<not> active (fst (render_voice dsp inst (render_locals_of inst) frames v out'))" by simp
      ultimately show "\<not> active (voices (fst (v2_render_block dsp inst frames)) ! vi)" by simp
    }
  }
  {
    assume "\<forall>j < frames. is_active (amp_after ?e (Suc j))"
    then have "steps_alive ?e frames = frames" by (simp add: steps_alive_all)
    with R [of dsp inst loc frames out]
    show "active (fst (render_voice dsp inst loc frames v out))" by simp
  }
  {
    assume h: "stage (amp_env v) = RELEASE \<and> level (amp_env v) \<le> 1
          \<and> 0 \<le> params inst ! PARAM_RELEASE \<and> params inst ! PARAM_RELEASE \<le> 1"
    then have "1 / 2 ^ 24 \<le> time_to_rate (params inst ! PARAM_RELEASE)"
      by (intro rate_floor) simp_all
    with h have "stage ?e = RELEASE" "level ?e \<le> 1" "1 / 2 ^ 24 \<le> release_rate ?e"
      by (simp_all only: apply_params_fields)
    from release_ends [OF this] obtain k where
      k: "\<not> is_active (amp_after ?e (Suc k))" "\<forall>j < k. is_active (amp_after ?e (Suc j))"
      by blast
    have "\<forall>m \<ge> Suc k. \<not> active (fst (render_voice dsp inst loc m v out))"
    proof (intro allI impI)
      fix m assume "Suc k \<le> m"
      then have "steps_alive ?e m = k" "k < m"
        using steps_alive_first [of ?e m k] k by simp_all
      with R [of dsp inst loc m out]
      show "\<not> active (fst (render_voice dsp inst loc m v out))" by simp
    qed
    then show "\<exists>n. \<forall>m \<ge> n. \<not> active (fst (render_voice dsp inst loc m v out))" by blast
  }
qed

lemma release_from_zero:
  assumes "stage e = RELEASE" "level e \<le> 0" "0 \<le> release_rate e"
  shows "\<not> is_active (amp_after e (Suc 0))"
proof -
  have "level e - release_rate e \<le> 0" using assms by simp
  from to_float_mono [OF this] have "fsub (level e) (release_rate e) \<le> 0"
    by (simp add: fsub_def to_float_zero)
  with assms(1) show ?thesis
    by (simp add: amp_after_Suc amp_after_0 process_def Let_def is_active_def)
qed

lemma ex_released_voice:
  "active (voices ex_released ! 0)" "\<not> gate (voices ex_released ! 0)"
  "stage (amp_env (voices ex_released ! 0)) = RELEASE"
  "level (amp_env (voices ex_released ! 0)) = 0"
  "length (voices ex_released) = 4"
  "params ex_released = default_params"
proof -
  let ?i0 = "v2_create_instance ex_dsp []"
  define v0 :: "(unit, unit) BraidsVoice" where
    "v0 = \<lparr>osc = (), amp_env = zero_env, filt_env = zero_env,
            svf = (), osc_buffer = replicate BRAIDS_BLOCK_SIZE 0,
            v_note = 0, velocity = 0, active = False, gate = False, age = 0\<rparr>"
  have i0: "?i0 = \<lparr>voices = [v0, v0, v0, v0], params = default_params,
                  octave_transpose = 0, voice_counter = 0, presets = [],
                  current_preset = 0, preset_name = ''Init''\<rparr>"
    by (simp add: v2_create_instance_def load_presets_def preset_count_def Let_def MAX_VOICES_def
        numeral_eq_Suc v0_def ex_dsp_def)
  have f0: "find_free_voice ?i0 = 0"
    unfolding i0 by (simp add: find_free_voice_def MAX_VOICES_def upt_rec v0_def)
  have s90: "(0x90 :: 8 word) AND 0xF0 = 0x90" "(0x80 :: 8 word) AND 0xF0 = 0x80" by simp_all
  define v1 where "v1 = (apply_params_to_voice ex_dsp (?i0\<lparr>voice_counter := 1\<rparr>)
      (v0\<lparr>v_note := 60, velocity := 100, active := True, gate := True, age := 1,
          osc := osc_set_pitch ex_dsp (note_to_pitch 60) (osc v0)\<rparr>))
      \<lparr>osc := (), amp_env := gate_on (amp_env (apply_params_to_voice ex_dsp (?i0\<lparr>voice_counter := 1\<rparr>)
      (v0\<lparr>v_note := 60, velocity := 100, active := True, gate := True, age := 1,
          osc := osc_set_pitch ex_dsp (note_to_pitch 60) (osc v0)\<rparr>))),
        filt_env := gate_on (filt_env (apply_params_to_voice ex_dsp (?i0\<lparr>voice_counter := 1\<rparr>)
      (v0\<lparr>v_note := 60, velocity := 100, active := True, gate := True, age := 1,
          osc := osc_set_pitch ex_dsp (note_to_pitch 60) (osc v0)\<rparr>)))\<rparr>"
  have v1: "active v1" "gate v1" "v_note v1 = 60" "stage (amp_env v1) = ATTACK" "level (amp_env v1) = 0"
    by (simp_all add: v1_def apply_params_to_voice_def Let_def set_params_def gate_on_def v0_def
        zero_env_def init_def)
  have i1: "v2_on_midi ex_dsp ?i0 [0x90, 60, 100]
      = \<lparr>voices = [v1, v0, v0, v0], params = default_params,
                  octave_transpose = 0, voice_counter = 1, presets = [],
                  current_preset = 0, preset_name = ''Init''\<rparr>"
    unfolding v2_on_midi_def [of ex_dsp ?i0] f0 by (simp add: Let_def s90 v1_def i0)
  let ?i1 = "\<lparr>voices = [v1, v0, v0, v0], params = default_params,
                  octave_transpose = 0, voice_counter = 1, presets = [],
                  current_preset = 0, preset_name = ''Init''\<rparr> :: (unit, unit) braids_instance"
  have f1: "find_voice_for_note ?i1 60 = 0"
    using v1(1,2,3) by (simp add: find_voice_for_note_def MAX_VOICES_def upt_rec)
  have i2: "ex_released = ?i1\<lparr>voices := [v1\<lparr>gate := False, amp_env := gate_off (amp_env v1),
                              filt_env := gate_off (filt_env v1)\<rparr>, v0, v0, v0]\<rparr>"
    unfolding ex_released_def i1 v2_on_midi_def [of ex_dsp ?i1] by (simp add: Let_def s90 f1)
  show "active (voices ex_released ! 0)" "\<not> gate (voices ex_released ! 0)"
    "stage (amp_env (voices ex_released ! 0)) = RELEASE"
    "level (amp_env (voices ex_released ! 0)) = 0"
    "length (voices ex_released) = 4"
    "params ex_released = default_params"
    using v1 by (simp_all add: i2 gate_off_def)
qed

lemma default_release: "params ex_released ! PARAM_RELEASE = to_float (3 / 10)"
  by (simp add: ex_released_voice default_params_def PARAM_COUNT_def PARAM_ENGINE_def PARAM_TIMBRE_def
      PARAM_COLOR_def PARAM_ATTACK_def PARAM_DECAY_def PARAM_SUSTAIN_def PARAM_RELEASE_def
      PARAM_FM_def PARAM_CUTOFF_def PARAM_RESONANCE_def PARAM_FILT_ENV_def PARAM_F_ATTACK_def
      PARAM_F_DECAY_def PARAM_F_SUSTAIN_def PARAM_F_RELEASE_def PARAM_VOLUME_def numeral_eq_Suc)

lemma tf_three_tenths: "to_float (3 / 10) = 5033165 / 16777216"
  by (rule to_float_eval [where s = 124]) (simp_all add: round_even_def)

theorem release_retires_voice_witness:
  "active (voices ex_released ! 0) \<and> \<not> gate (voices ex_released ! 0)
   \<and> (0 :: nat) < 128
   \<and> \<not> is_active (amp_after (amp_env (apply_params_to_voice ex_dsp ex_released
                                          (voices ex_released ! 0))) (Suc 0))
   \<and> \<not> active (fst (render_voice ex_dsp ex_released (render_locals_of ex_released) 128
                       (voices ex_released ! 0) (replicate 256 0)))
   \<and> snd (render_voice ex_dsp ex_released (render_locals_of ex_released) 128
            (voices ex_released ! 0) (replicate 256 0)) ! 0 = 0
   \<and> snd (render_voice ex_dsp ex_released (render_locals_of ex_released) 128
            (voices ex_released ! 0) (replicate 256 0)) ! 255 = 0
   \<and> \<not> active (voices (fst (v2_render_block ex_dsp ex_released 128)) ! 0)
   \<and> stage (amp_env (voices ex_released ! 0)) = RELEASE
   \<and> level (amp_env (voices ex_released ! 0)) \<le> 1
   \<and> 0 \<le> params ex_released ! PARAM_RELEASE \<and> params ex_released ! PARAM_RELEASE \<le> 1"
proof -
  let ?v = "voices ex_released ! 0"
  let ?e = "amp_env (apply_params_to_voice ex_dsp ex_released ?v)"
  have r: "0 \<le> params ex_released ! PARAM_RELEASE" "params ex_released ! PARAM_RELEASE \<le> 1"
    by (simp_all add: default_release tf_three_tenths)
  have "0 \<le> time_to_rate (params ex_released ! PARAM_RELEASE)"
    using rate_floor [OF r] by (rule order_trans [rotated]) simp
  then have idle: "\<not> is_active (amp_after ?e (Suc 0))"
    by (intro release_from_zero) (simp_all add: apply_params_fields ex_released_voice)
  from release_retires_voice [OF ex_released_voice(1,2), of 0 128 ex_dsp ex_released
      "render_locals_of ex_released" "replicate 256 0" 0] idle ex_released_voice r
  show ?thesis by (simp add: MAX_VOICES_def)
qed

section \<open>Reading back the text of a number\<close>

lemma digit_char_props:
  assumes "d < 10"
  shows "is_digit (digit_char d)" "digit_val (digit_char d) = d"
proof -
  from assms have "d \<in> {0, 1, 2, 3, 4, 5, 6, 7, 8, 9}" by auto
  then show "is_digit (digit_char d)" "digit_val (digit_char d) = d"
    by (auto simp: is_digit_def digit_val_def digit_char_def)
qed

lemma is_digit_not:
  assumes "is_digit c"
  shows "c \<noteq> dq" "\<not> isspace c" "c \<noteq> CHR ''-''" "c \<noteq> CHR ''+''" "c \<noteq> CHR ''.''"
    "c \<noteq> CHR '',''" "c \<noteq> CHR 0x7D" "c \<noteq> CHR ''e''" "c \<noteq> CHR ''E''"
  using assms by (auto simp: is_digit_def dq_def isspace_def)

lemma show_nat_all_digits: "\<forall>c \<in> set (show_nat n). is_digit c"
proof (induction n rule: show_nat.induct)
  case (1 n)
  show ?case
  proof (cases "n < 10")
    case True
    then show ?thesis by (subst show_nat.simps) (simp add: digit_char_props)
  next
    case False
    have "n mod 10 < 10" by simp
    then have "is_digit (digit_char (n mod 10))" by (rule digit_char_props)
    with 1 False show ?thesis by (subst show_nat.simps) simp
  qed
qed

lemma show_nat_nonempty: "show_nat n \<noteq> []"
  by (subst show_nat.simps) simp

lemma dec_val_snoc: "dec_val (xs @ [c]) = 10 * dec_val xs + digit_val c"
  by (simp add: dec_val_def)

lemma dec_val_append: "dec_val (xs @ ys) = dec_val xs * 10 ^ length ys + dec_val ys"
proof (induction ys rule: rev_induct)
  case Nil
  then show ?case by (simp add: dec_val_def)
next
  case (snoc y ys)
  have "dec_val (xs @ ys @ [y]) = 10 * dec_val (xs @ ys) + digit_val y"
    using dec_val_snoc [of "xs @ ys" y] by simp
  also have "\<dots> = dec_val xs * 10 ^ length (ys @ [y]) + dec_val (ys @ [y])"
    by (simp add: snoc.IH dec_val_snoc algebra_simps)
  finally show ?case .
qed

lemma dec_val_show_nat: "dec_val (show_nat n) = n"
proof (induction n rule: show_nat.induct)
  case (1 n)
  show ?case
  proof (cases "n < 10")
    case True
    then show ?thesis by (subst show_nat.simps) (simp add: dec_val_def digit_char_props)
  next
    case False
    have "n mod 10 < 10" by simp
    with 1 False show ?thesis
      by (subst show_nat.simps) (simp add: dec_val_snoc digit_char_props)
  qed
qed

lemma takeWhile_digits:
  assumes "\<forall>c \<in> set ds. is_digit c" "\<not> is_digit c"
  shows "takeWhile is_digit (ds @ c # r) = ds" "dropWhile is_digit (ds @ c # r) = c # r"
  using assms by (simp_all add: takeWhile_append2 dropWhile_append2)

lemma atof_exact_digit:
  assumes "s \<noteq> []" "is_digit (hd s)"
  shows "atof_exact s = atof_unsigned s"
proof -
  from assms obtain h t where ht: "s = h # t" "is_digit h" by (cases s) auto
  then show ?thesis using is_digit_not [OF ht(2)] by (simp add: atof_exact_def)
qed

lemma atof_exact_minus: "atof_exact (CHR ''-'' # s) = - atof_unsigned s"
  by (simp add: atof_exact_def isspace_def)

lemma dec_exponent_none: "c \<noteq> CHR ''e'' \<Longrightarrow> c \<noteq> CHR ''E'' \<Longrightarrow> dec_exponent (c # r) = 0"
  by (simp add: dec_exponent_def)

lemma atof_unsigned_int_text:
  assumes ds: "ds \<noteq> []" "\<forall>c \<in> set ds. is_digit c"
    and c: "\<not> is_digit c" "c \<noteq> CHR ''.''" "c \<noteq> CHR ''e''" "c \<noteq> CHR ''E''"
  shows "atof_unsigned (ds @ c # r) = of_nat (dec_val ds)"
  unfolding atof_unsigned_def Let_def takeWhile_digits [OF ds(2) c(1)]
  using c ds(1) by (simp add: dec_exponent_none)

lemma atof_unsigned_fraction_text:
  assumes ds: "ds \<noteq> []" "\<forall>c \<in> set ds. is_digit c" and fs: "\<forall>c \<in> set fs. is_digit c"
    and c: "\<not> is_digit c" "c \<noteq> CHR ''e''" "c \<noteq> CHR ''E''"
  shows "atof_unsigned (ds @ CHR ''.'' # fs @ c # r) = of_nat (dec_val (ds @ fs)) / 10 ^ length fs"
proof -
  have dot: "\<not> is_digit CHR ''.''" by (simp add: is_digit_def)
  show ?thesis
    unfolding atof_unsigned_def Let_def takeWhile_digits [OF ds(2) dot]
    using c ds(1) by (simp add: dec_exponent_none takeWhile_digits [OF fs c(1)])
qed

text \<open>Reading back the conversions \<^verbatim>\<open>%d\<close> and \<^verbatim>\<open>%.4f\<close>.\<close>

lemma atof_exact_show_int:
  assumes c: "\<not> is_digit c" "c \<noteq> CHR ''.''" "c \<noteq> CHR ''e''" "c \<noteq> CHR ''E''"
  shows "atof_exact (show_int i @ c # r) = of_int i"
proof (cases "i < 0")
  case True
  have "atof_unsigned (show_nat (nat (- i)) @ c # r) = of_nat (nat (- i))"
    using atof_unsigned_int_text [OF show_nat_nonempty show_nat_all_digits c]
    by (simp add: dec_val_show_nat)
  with True show ?thesis by (simp add: show_int_def atof_exact_minus)
next
  case False
  have h: "show_nat (nat i) @ c # r \<noteq> []" "is_digit (hd (show_nat (nat i) @ c # r))"
    using show_nat_nonempty [of "nat i"] show_nat_all_digits [of "nat i"] by simp_all
  have "atof_unsigned (show_nat (nat i) @ c # r) = of_nat (nat i)"
    using atof_unsigned_int_text [OF show_nat_nonempty show_nat_all_digits c]
    by (simp add: dec_val_show_nat)
  with False show ?thesis by (simp add: show_int_def atof_exact_digit [OF h])
qed

lemma four_digits:
  "dec_val [digit_char (n div 1000 mod 10), digit_char (n div 100 mod 10),
            digit_char (n div 10 mod 10), digit_char (n mod 10)] = n mod 10000"
proof -
  have d: "n div 1000 mod 10 < 10" "n div 100 mod 10 < 10" "n div 10 mod 10 < 10" "n mod 10 < 10"
    by simp_all
  have v: "digit_val (digit_char (n div 1000 mod 10)) = n div 1000 mod 10"
    "digit_val (digit_char (n div 100 mod 10)) = n div 100 mod 10"
    "digit_val (digit_char (n div 10 mod 10)) = n div 10 mod 10"
    "digit_val (digit_char (n mod 10)) = n mod 10"
    by (rule digit_char_props(2) [OF d(1)], rule digit_char_props(2) [OF d(2)],
        rule digit_char_props(2) [OF d(3)], rule digit_char_props(2) [OF d(4)])
  have m1: "n mod 10000 = 1000 * (n div 1000 mod 10) + n mod 1000"
    using mod_mult2_eq [of n 1000 10] by simp
  have m2: "n mod 1000 = 100 * (n div 100 mod 10) + n mod 100"
    using mod_mult2_eq [of n 100 10] by simp
  have m3: "n mod 100 = 10 * (n div 10 mod 10) + n mod 10"
    using mod_mult2_eq [of n 10 10] by simp
  have "dec_val [digit_char (n div 1000 mod 10), digit_char (n div 100 mod 10),
            digit_char (n div 10 mod 10), digit_char (n mod 10)]
      = 10 * (10 * (10 * (10 * 0 + n div 1000 mod 10) + n div 100 mod 10) + n div 10 mod 10) + n mod 10"
    unfolding dec_val_def foldl.simps v ..
  also have "\<dots> = 1000 * (n div 1000 mod 10) + (100 * (n div 100 mod 10) + (10 * (n div 10 mod 10) + n mod 10))"
    by (simp only: algebra_simps)
  also have "\<dots> = n mod 10000" unfolding m3 [symmetric] m2 [symmetric] m1 [symmetric] ..
  finally show ?thesis .
qed

lemma atof_exact_show_fixed4:
  assumes c: "\<not> is_digit c" "c \<noteq> CHR ''e''" "c \<noteq> CHR ''E''"
  shows "atof_exact (show_fixed4 v @ c # r) = fixed4 v"
proof -
  define n where "n = nat (round_even (\<bar>v\<bar> * 10000))"
  define fs where "fs = [digit_char (n div 1000 mod 10), digit_char (n div 100 mod 10),
            digit_char (n div 10 mod 10), digit_char (n mod 10)]"
  have fsd: "\<forall>c \<in> set fs. is_digit c" by (simp add: fs_def digit_char_props)
  have n0: "0 \<le> round_even (\<bar>v\<bar> * 10000)" by (rule round_even_ge_int) simp
  have u: "atof_unsigned (show_nat (n div 10000) @ CHR ''.'' # fs @ c # r) = of_nat n / 10000"
  proof -
    have "atof_unsigned (show_nat (n div 10000) @ CHR ''.'' # fs @ c # r)
        = of_nat (dec_val (show_nat (n div 10000) @ fs)) / 10 ^ length fs"
      by (rule atof_unsigned_fraction_text [OF show_nat_nonempty show_nat_all_digits fsd c])
    also have "dec_val (show_nat (n div 10000) @ fs) = n div 10000 * 10000 + n mod 10000"
      by (simp add: dec_val_append dec_val_show_nat) (simp add: fs_def four_digits)
    finally show ?thesis by (simp add: fs_def)
  qed
  have sf: "show_fixed4 v = (if v < 0 then [CHR ''-''] else []) @ show_nat (n div 10000) @ CHR ''.'' # fs"
    by (simp add: show_fixed4_def Let_def n_def fs_def)
  show ?thesis
  proof (cases "v < 0")
    case True
    then show ?thesis using u n0 by (simp add: sf atof_exact_minus fixed4_def n_def)
  next
    case False
    have h: "show_nat (n div 10000) @ CHR ''.'' # fs @ c # r \<noteq> []"
      "is_digit (hd (show_nat (n div 10000) @ CHR ''.'' # fs @ c # r))"
      using show_nat_nonempty [of "n div 10000"] show_nat_all_digits [of "n div 10000"] by simp_all
    from False show ?thesis using u n0 atof_exact_digit [OF h] by (simp add: sf fixed4_def n_def)
  qed
qed

section \<open>The keys of a state snapshot\<close>

lemma starts_with_neq: "c \<noteq> p \<Longrightarrow> starts_with (c # cs) (p # ps) = False"
  by simp

lemma strstr_skip: "c \<noteq> p \<Longrightarrow> strstr (c # cs) (p # ps) = strstr cs (p # ps)"
  by simp

lemma strstr_skip_list:
  "\<forall>c \<in> set xs. c \<noteq> p \<Longrightarrow> strstr (xs @ ys) (p # ps) = strstr ys (p # ps)"
  by (induction xs) simp_all

lemma show_int_no_dq: "\<forall>c \<in> set (show_int i). c \<noteq> dq"
  using show_nat_all_digits is_digit_not(1) by (auto simp: show_int_def dq_def)

lemma show_fixed4_no_dq: "\<forall>c \<in> set (show_fixed4 v). c \<noteq> dq"
proof -
  have d: "\<And>n. digit_char (n mod 10) \<noteq> dq"
    using digit_char_props(1) is_digit_not(1) by (metis mod_less_divisor zero_less_numeral)
  show ?thesis
    using show_nat_all_digits is_digit_not(1) d
    by (auto simp: show_fixed4_def Let_def dq_def)
qed

lemma state_text:
  "v2_get_param_state inst =
     CHR 0x7B # dq # ''preset'' @ dq # CHR '':'' # show_int (current_preset inst)
       @ CHR '','' # dq # ''octave_transpose'' @ dq # CHR '':'' # show_int (octave_transpose inst)
       @ CHR '','' # dq # ''engine'' @ dq # CHR '':'' # show_int (float_to_int (params inst ! 0))
       @ CHR '','' # dq # ''timbre'' @ dq # CHR '':'' # show_fixed4 (params inst ! 1)
       @ CHR '','' # dq # ''color'' @ dq # CHR '':'' # show_fixed4 (params inst ! 2)
       @ CHR '','' # dq # ''attack'' @ dq # CHR '':'' # show_fixed4 (params inst ! 3)
       @ CHR '','' # dq # ''decay'' @ dq # CHR '':'' # show_fixed4 (params inst ! 4)
       @ CHR '','' # dq # ''sustain'' @ dq # CHR '':'' # show_fixed4 (params inst ! 5)
       @ CHR '','' # dq # ''release'' @ dq # CHR '':'' # show_fixed4 (params inst ! 6)
       @ CHR '','' # dq # ''fm'' @ dq # CHR '':'' # show_fixed4 (params inst ! 7)
       @ CHR '','' # dq # ''cutoff'' @ dq # CHR '':'' # show_fixed4 (params inst ! 8)
       @ CHR '','' # dq # ''resonance'' @ dq # CHR '':'' # show_fixed4 (params inst ! 9)
       @ CHR '','' # dq # ''filt_env'' @ dq # CHR '':'' # show_fixed4 (params inst ! 10)
       @ CHR '','' # dq # ''f_attack'' @ dq # CHR '':'' # show_fixed4 (params inst ! 11)
       @ CHR '','' # dq # ''f_decay'' @ dq # CHR '':'' # show_fixed4 (params inst ! 12)
       @ CHR '','' # dq # ''f_sustain'' @ dq # CHR '':'' # show_fixed4 (params inst ! 13)
       @ CHR '','' # dq # ''f_release'' @ dq # CHR '':'' # show_fixed4 (params inst ! 14)
       @ CHR '','' # dq # ''volume'' @ dq # CHR '':'' # show_fixed4 (params inst ! 15)
       @ [CHR 0x7D]"
  by (simp add: v2_get_param_state_def g_shadow_params_def pdef_def PARAM_ENGINE_def PARAM_TIMBRE_def
      PARAM_COLOR_def PARAM_ATTACK_def PARAM_DECAY_def PARAM_SUSTAIN_def PARAM_RELEASE_def
      PARAM_FM_def PARAM_CUTOFF_def PARAM_RESONANCE_def PARAM_FILT_ENV_def PARAM_F_ATTACK_def
      PARAM_F_DECAY_def PARAM_F_SUSTAIN_def PARAM_F_RELEASE_def PARAM_VOLUME_def)


lemma show_int_hd: "show_int i \<noteq> []" "hd (show_int i) \<noteq> CHR '' ''"
proof -
  have "hd (show_nat n) \<noteq> CHR '' ''" for n
    using show_nat_nonempty [of n] show_nat_all_digits [of n] is_digit_not(2) [of "hd (show_nat n)"]
    by (auto simp: isspace_def)
  then show "show_int i \<noteq> []" "hd (show_int i) \<noteq> CHR '' ''"
    using show_nat_nonempty by (simp_all add: show_int_def)
qed

lemma show_fixed4_hd: "show_fixed4 v \<noteq> []" "hd (show_fixed4 v) \<noteq> CHR '' ''"
proof -
  have "hd (show_nat n) \<noteq> CHR '' ''" for n
    using show_nat_nonempty [of n] show_nat_all_digits [of n] is_digit_not(2) [of "hd (show_nat n)"]
    by (auto simp: isspace_def)
  then show "show_fixed4 v \<noteq> []" "hd (show_fixed4 v) \<noteq> CHR '' ''"
    using show_nat_nonempty by (simp_all add: show_fixed4_def Let_def hd_append)
qed

lemma dropWhile_space_hd:
  "xs \<noteq> [] \<Longrightarrow> hd xs \<noteq> CHR '' '' \<Longrightarrow> dropWhile (\<lambda>c. c = CHR '' '') (xs @ ys) = xs @ ys"
  by (cases xs) simp_all

lemma number_int:
  assumes "strstr txt (json_search k) = Some (json_search k @ show_int i @ c # r)"
    and "\<not> is_digit c" "c \<noteq> CHR ''.''" "c \<noteq> CHR ''e''" "c \<noteq> CHR ''E''"
  shows "json_get_number txt k = Some (to_float (to_double (of_int i)))"
  using assms(1) dropWhile_space_hd [OF show_int_hd, of i "c # r"]
    atof_exact_show_int [OF assms(2-5), of i r]
  by (simp add: json_get_number_def atof_def)

lemma number_fixed4:
  assumes "strstr txt (json_search k) = Some (json_search k @ show_fixed4 v @ c # r)"
    and "\<not> is_digit c" "c \<noteq> CHR ''e''" "c \<noteq> CHR ''E''"
  shows "json_get_number txt k = Some (to_float (to_double (fixed4 v)))"
  using assms(1) dropWhile_space_hd [OF show_fixed4_hd, of v "c # r"]
    atof_exact_show_fixed4 [OF assms(2-4), of v r]
  by (simp add: json_get_number_def atof_def)

lemmas no_dq = show_int_no_dq [unfolded dq_def] show_fixed4_no_dq [unfolded dq_def]

lemma find_preset:
  "\<exists>r. strstr (v2_get_param_state inst) (json_search ''preset'')
     = Some (json_search ''preset'' @ show_int (current_preset inst) @ CHR '','' # r)"
  unfolding state_text
  by (simp add: json_search_def dq_def strstr_skip_list no_dq)

lemma find_octave_transpose:
  "\<exists>r. strstr (v2_get_param_state inst) (json_search ''octave_transpose'')
     = Some (json_search ''octave_transpose'' @ show_int (octave_transpose inst) @ CHR '','' # r)"
  unfolding state_text
  by (simp add: json_search_def dq_def strstr_skip_list no_dq)

lemma find_engine:
  "\<exists>r. strstr (v2_get_param_state inst) (json_search ''engine'')
     = Some (json_search ''engine'' @ show_int (float_to_int (params inst ! 0)) @ CHR '','' # r)"
  unfolding state_text
  by (simp add: json_search_def dq_def strstr_skip_list no_dq)

lemma find_timbre:
  "\<exists>r. strstr (v2_get_param_state inst) (json_search ''timbre'')
     = Some (json_search ''timbre'' @ show_fixed4 (params inst ! 1) @ CHR '','' # r)"
  unfolding state_text
  by (simp add: json_search_def dq_def strstr_skip_list no_dq)

lemma find_color:
  "\<exists>r. strstr (v2_get_param_state inst) (json_search ''color'')
     = Some (json_search ''color'' @ show_fixed4 (params inst ! 2) @ CHR '','' # r)"
  unfolding state_text
  by (simp add: json_search_def dq_def strstr_skip_list no_dq)

lemma find_attack:
  "\<exists>r. strstr (v2_get_param_state inst) (json_search ''attack'')
     = Some (json_search ''attack'' @ show_fixed4 (params inst ! 3) @ CHR '','' # r)"
  unfolding state_text
  by (simp add: json_search_def dq_def strstr_skip_list no_dq)

lemma find_decay:
  "\<exists>r. strstr (v2_get_param_state inst) (json_search ''decay'')
     = Some (json_search ''decay'' @ show_fixed4 (params inst ! 4) @ CHR '','' # r)"
  unfolding state_text
  by (simp add: json_search_def dq_def strstr_skip_list no_dq)

lemma find_sustain:
  "\<exists>r. strstr (v2_get_param_state inst) (json_search ''sustain'')
     = Some (json_search ''sustain'' @ show_fixed4 (params inst ! 5) @ CHR '','' # r)"
  unfolding state_text
  by (simp add: json_search_def dq_def strstr_skip_list no_dq)

lemma find_release:
  "\<exists>r. strstr (v2_get_param_state inst) (json_search ''release'')
     = Some (json_search ''release'' @ show_fixed4 (params inst ! 6) @ CHR '','' # r)"
  unfolding state_text
  by (simp add: json_search_def dq_def strstr_skip_list no_dq)

lemma find_fm:
  "\<exists>r. strstr (v2_get_param_state inst) (json_search ''fm'')
     = Some (json_search ''fm'' @ show_fixed4 (params inst ! 7) @ CHR '','' # r)"
  unfolding state_text
  by (simp add: json_search_def dq_def strstr_skip_list no_dq)

lemma find_cutoff:
  "\<exists>r. strstr (v2_get_param_state inst) (json_search ''cutoff'')
     = Some (json_search ''cutoff'' @ show_fixed4 (params inst ! 8) @ CHR '','' # r)"
  unfolding state_text
  by (simp add: json_search_def dq_def strstr_skip_list no_dq)

lemma find_resonance:
  "\<exists>r. strstr (v2_get_param_state inst) (json_search ''resonance'')
     = Some (json_search ''resonance'' @ show_fixed4 (params inst ! 9) @ CHR '','' # r)"
  unfolding state_text
  by (simp add: json_search_def dq_def strstr_skip_list no_dq)

lemma find_filt_env:
  "\<exists>r. strstr (v2_get_param_state inst) (json_search ''filt_env'')
     = Some (json_search ''filt_env'' @ show_fixed4 (params inst ! 10) @ CHR '','' # r)"
  unfolding state_text
  by (simp add: json_search_def dq_def strstr_skip_list no_dq)

lemma find_f_attack:
  "\<exists>r. strstr (v2_get_param_state inst) (json_search ''f_attack'')
     = Some (json_search ''f_attack'' @ show_fixed4 (params inst ! 11) @ CHR '','' # r)"
  unfolding state_text
  by (simp add: json_search_def dq_def strstr_skip_list no_dq)

lemma find_f_decay:
  "\<exists>r. strstr (v2_get_param_state inst) (json_search ''f_decay'')
     = Some (json_search ''f_decay'' @ show_fixed4 (params inst ! 12) @ CHR '','' # r)"
  unfolding state_text
  by (simp add: json_search_def dq_def strstr_skip_list no_dq)

lemma find_f_sustain:
  "\<exists>r. strstr (v2_get_param_state inst) (json_search ''f_sustain'')
     = Some (json_search ''f_sustain'' @ show_fixed4 (params inst ! 13) @ CHR '','' # r)"
  unfolding state_text
  by (simp add: json_search_def dq_def strstr_skip_list no_dq)

lemma find_f_release:
  "\<exists>r. strstr (v2_get_param_state inst) (json_search ''f_release'')
     = Some (json_search ''f_release'' @ show_fixed4 (params inst ! 14) @ CHR '','' # r)"
  unfolding state_text
  by (simp add: json_search_def dq_def strstr_skip_list no_dq)

lemma find_volume:
  "\<exists>r. strstr (v2_get_param_state inst) (json_search ''volume'')
     = Some (json_search ''volume'' @ show_fixed4 (params inst ! 15) @ CHR 0x7D # r)"
  unfolding state_text
  by (simp add: json_search_def dq_def strstr_skip_list no_dq)

lemma state_numbers_int:
  "json_get_number (v2_get_param_state inst) ''preset'' = Some (to_float (to_double (of_int (current_preset inst))))"
  "json_get_number (v2_get_param_state inst) ''octave_transpose'' = Some (to_float (to_double (of_int (octave_transpose inst))))"
  "json_get_number (v2_get_param_state inst) ''engine'' = Some (to_float (to_double (of_int (float_to_int (params inst ! 0)))))"
  using find_preset [of inst] find_octave_transpose [of inst] find_engine [of inst]
  by (auto intro!: number_int simp: is_digit_def)

lemma state_numbers_float:
  "json_get_number (v2_get_param_state inst) ''timbre'' = Some (to_float (to_double (fixed4 (params inst ! 1))))"
  "json_get_number (v2_get_param_state inst) ''color'' = Some (to_float (to_double (fixed4 (params inst ! 2))))"
  "json_get_number (v2_get_param_state inst) ''attack'' = Some (to_float (to_double (fixed4 (params inst ! 3))))"
  "json_get_number (v2_get_param_state inst) ''decay'' = Some (to_float (to_double (fixed4 (params inst ! 4))))"
  "json_get_number (v2_get_param_state inst) ''sustain'' = Some (to_float (to_double (fixed4 (params inst ! 5))))"
  "json_get_number (v2_get_param_state inst) ''release'' = Some (to_float (to_double (fixed4 (params inst ! 6))))"
  "json_get_number (v2_get_param_state inst) ''fm'' = Some (to_float (to_double (fixed4 (params inst ! 7))))"
  "json_get_number (v2_get_param_state inst) ''cutoff'' = Some (to_float (to_double (fixed4 (params inst ! 8))))"
  "json_get_number (v2_get_param_state inst) ''resonance'' = Some (to_float (to_double (fixed4 (params inst ! 9))))"
  "json_get_number (v2_get_param_state inst) ''filt_env'' = Some (to_float (to_double (fixed4 (params inst ! 10))))"
  "json_get_number (v2_get_param_state inst) ''f_attack'' = Some (to_float (to_double (fixed4 (params inst ! 11))))"
  "json_get_number (v2_get_param_state inst) ''f_decay'' = Some (to_float (to_double (fixed4 (params inst ! 12))))"
  "json_get_number (v2_get_param_state inst) ''f_sustain'' = Some (to_float (to_double (fixed4 (params inst ! 13))))"
  "json_get_number (v2_get_param_state inst) ''f_release'' = Some (to_float (to_double (fixed4 (params inst ! 14))))"
  "json_get_number (v2_get_param_state inst) ''volume'' = Some (to_float (to_double (fixed4 (params inst ! 15))))"
  using find_timbre [of inst] find_color [of inst] find_attack [of inst] find_decay [of inst] find_sustain [of inst] find_release [of inst] find_fm [of inst] find_cutoff [of inst] find_resonance [of inst] find_filt_env [of inst] find_f_attack [of inst] find_f_decay [of inst] find_f_sustain [of inst] find_f_release [of inst] find_volume [of inst]
  by (auto intro!: number_fixed4 simp: is_digit_def)

section \<open>Restoring a state snapshot\<close>

lemma list16:
  "length (xs::'a list) = 16 \<Longrightarrow>
     \<exists>x0 x1 x2 x3 x4 x5 x6 x7 x8 x9 x10 x11 x12 x13 x14 x15.
       xs = [x0, x1, x2, x3, x4, x5, x6, x7, x8, x9, x10, x11, x12, x13, x14, x15]"
  by (simp add: numeral_eq_Suc length_Suc_conv) blast

lemma state_numbers:
  "d \<in> set g_shadow_params \<Longrightarrow>
     json_get_number (v2_get_param_state inst) (pd_key d)
       = Some (to_float (to_double (snapshot_value (pd_type d) (params inst ! pd_index d))))"
  by (auto simp: g_shadow_params_def pdef_def snapshot_value_def state_numbers_int
        state_numbers_float PARAM_ENGINE_def PARAM_TIMBRE_def PARAM_COLOR_def PARAM_ATTACK_def
        PARAM_DECAY_def PARAM_SUSTAIN_def PARAM_RELEASE_def PARAM_FM_def PARAM_CUTOFF_def
        PARAM_RESONANCE_def PARAM_FILT_ENV_def PARAM_F_ATTACK_def PARAM_F_DECAY_def
        PARAM_F_SUSTAIN_def PARAM_F_RELEASE_def PARAM_VOLUME_def)

lemma restore_fold:
  assumes "\<And>d. d \<in> set ds \<Longrightarrow> json_get_number val (pd_key d) = Some (f d)"
  shows "fold (\<lambda>d i. case json_get_number val (pd_key d) of
                    Some fval \<Rightarrow>
                      i\<lparr>params := (params i)[pd_index d := clamp_float (min_val d) (max_val d) fval]\<rparr>
                  | None \<Rightarrow> i) ds i0
         = i0\<lparr>params := fold (\<lambda>d ps. ps[pd_index d := clamp_float (min_val d) (max_val d) (f d)])
                          ds (params i0)\<rparr>"
  using assms by (induction ds arbitrary: i0) simp_all

lemma table_updates:
  assumes "length ps = PARAM_COUNT"
  shows "fold (\<lambda>d ps. ps[pd_index d := g d]) g_shadow_params ps = map g g_shadow_params"
proof -
  from assms have "length ps = 16" by (simp add: PARAM_COUNT_def)
  from list16 [OF this] obtain x0 x1 x2 x3 x4 x5 x6 x7 x8 x9 x10 x11 x12 x13 x14 x15
    where "ps = [x0, x1, x2, x3, x4, x5, x6, x7, x8, x9, x10, x11, x12, x13, x14, x15]"
    by blast
  then show ?thesis
    by (simp add: g_shadow_params_def pdef_def PARAM_ENGINE_def PARAM_TIMBRE_def PARAM_COLOR_def
        PARAM_ATTACK_def PARAM_DECAY_def PARAM_SUSTAIN_def PARAM_RELEASE_def PARAM_FM_def
        PARAM_CUTOFF_def PARAM_RESONANCE_def PARAM_FILT_ENV_def PARAM_F_ATTACK_def
        PARAM_F_DECAY_def PARAM_F_SUSTAIN_def PARAM_F_RELEASE_def PARAM_VOLUME_def)
qed

lemma restore_params_all:
  assumes "length (params i0) = PARAM_COUNT"
    and "\<And>d. d \<in> set g_shadow_params \<Longrightarrow> json_get_number val (pd_key d) = Some (f d)"
  shows "restore_params val i0
           = i0\<lparr>params := map (\<lambda>d. clamp_float (min_val d) (max_val d) (f d)) g_shadow_params\<rparr>"
  unfolding restore_params_def
  by (simp only: restore_fold [of g_shadow_params val f, OF assms(2)]
        table_updates [OF assms(1), of "\<lambda>d. clamp_float (min_val d) (max_val d) (f d)"])

lemma fold_update_length: "length (fold (\<lambda>i ps. ps[i := h i]) js ps) = length ps"
  by (induction js arbitrary: ps) simp_all

lemma apply_preset_length: "length (params (v2_apply_preset inst i)) = length (params inst)"
  by (simp add: v2_apply_preset_def Let_def fold_update_length)

lemma state_restore:
  assumes "length (params inst) = PARAM_COUNT"
  shows "params (v2_set_param inst ''state'' (v2_get_param_state inst))
           = map (\<lambda>d. clamp_float (min_val d) (max_val d)
                    (to_float (to_double (snapshot_value (pd_type d) (params inst ! pd_index d)))))
               g_shadow_params"
    and "octave_transpose (v2_set_param inst ''state'' (v2_get_param_state inst))
           = clamp_octave (float_to_int (to_float (to_double (of_int (octave_transpose inst)))))"
proof -
  define val where "val = v2_get_param_state inst"
  define idx where "idx = float_to_int (to_float (to_double (of_int (current_preset inst))))"
  define inst1 where "inst1 = (if 0 \<le> idx \<and> idx < preset_count inst
                     then v2_apply_preset (inst\<lparr>current_preset := idx\<rparr>) idx else inst)"
  define inst2 where "inst2 = inst1\<lparr>octave_transpose :=
                     clamp_octave (float_to_int (to_float (to_double (of_int (octave_transpose inst)))))\<rparr>"
  have len: "length (params inst2) = PARAM_COUNT"
    using assms by (simp add: inst2_def inst1_def apply_preset_length)
  have "v2_set_param inst ''state'' val = restore_params val inst2"
    by (simp add: v2_set_param_def val_def state_numbers_int Let_def inst2_def inst1_def idx_def)
  also have "\<dots> = inst2\<lparr>params := map (\<lambda>d. clamp_float (min_val d) (max_val d)
                    (to_float (to_double (snapshot_value (pd_type d) (params inst ! pd_index d)))))
               g_shadow_params\<rparr>"
    using len by (rule restore_params_all) (simp add: val_def state_numbers)
  finally have e: "v2_set_param inst ''state'' (v2_get_param_state inst)
      = inst2\<lparr>params := map (\<lambda>d. clamp_float (min_val d) (max_val d)
                    (to_float (to_double (snapshot_value (pd_type d) (params inst ! pd_index d)))))
               g_shadow_params\<rparr>"
    by (simp add: val_def)
  show "params (v2_set_param inst ''state'' (v2_get_param_state inst))
           = map (\<lambda>d. clamp_float (min_val d) (max_val d)
                    (to_float (to_double (snapshot_value (pd_type d) (params inst ! pd_index d)))))
               g_shadow_params"
    by (simp add: e)
  show "octave_transpose (v2_set_param inst ''state'' (v2_get_param_state inst))
           = clamp_octave (float_to_int (to_float (to_double (of_int (octave_transpose inst)))))"
    by (simp add: e inst2_def)
qed

lemma to_double_eval:
  assumes "0 \<le> x" and "x * 2 ^ 1074 < 2 ^ (53 + s)" and "s = 0 \<or> 2 ^ (53 + s - 1) \<le> x * 2 ^ 1074"
    and "of_int (round_even (x * 2 ^ 1074 / 2 ^ s)) * 2 ^ s / 2 ^ 1074 = y"
  shows "to_double x = y"
  using fl_nonneg_at [OF assms(1-3)] assms(1,4) by (simp add: to_double_def fl_def)

lemma td_three_tenths: "to_double (3 / 10) = 5404319552844595 / 18014398509481984"
  by (rule to_double_eval [where s = 1020]) (simp_all add: round_even_def)

lemma td_seven_tenths: "to_double (7 / 10) = 3152519739159347 / 4503599627370496"
  by (rule to_double_eval [where s = 1021]) (simp_all add: round_even_def)

lemma td_half: "to_double (1 / 2) = 1 / 2"
  by (rule to_double_eval [where s = 1021]) (simp_all add: round_even_def)

lemma td_small: "to_double (1 / 100000) = 5902958103587057 / 590295810358705651712"
  by (rule to_double_eval [where s = 1005]) (simp_all add: round_even_def)

lemma tf_double_three_tenths: "to_float (5404319552844595 / 18014398509481984) = 5033165 / 16777216"
  by (rule to_float_eval [where s = 124]) (simp_all add: round_even_def)

lemma tf_double_seven_tenths: "to_float (3152519739159347 / 4503599627370496) = 11744051 / 16777216"
  by (rule to_float_eval [where s = 125]) (simp_all add: round_even_def)

lemma tf_seven_tenths: "to_float (7 / 10) = 11744051 / 16777216"
  by (rule to_float_eval [where s = 125]) (simp_all add: round_even_def)

lemma tf_half: "to_float (1 / 2) = 1 / 2"
  by (rule to_float_eval [where s = 125]) (simp_all add: round_even_def)

lemma tf_double_small: "to_float (5902958103587057 / 590295810358705651712) = 2748779 / 274877906944"
  by (rule to_float_eval [where s = 109]) (simp_all add: round_even_def)

lemma table_identity:
  assumes "length ps = PARAM_COUNT"
  shows "map (\<lambda>d. ps ! pd_index d) g_shadow_params = ps"
proof -
  from assms have "length ps = 16" by (simp add: PARAM_COUNT_def)
  from list16 [OF this] obtain x0 x1 x2 x3 x4 x5 x6 x7 x8 x9 x10 x11 x12 x13 x14 x15
    where "ps = [x0, x1, x2, x3, x4, x5, x6, x7, x8, x9, x10, x11, x12, x13, x14, x15]"
    by blast
  then show ?thesis
    by (simp add: g_shadow_params_def pdef_def PARAM_ENGINE_def PARAM_TIMBRE_def PARAM_COLOR_def
        PARAM_ATTACK_def PARAM_DECAY_def PARAM_SUSTAIN_def PARAM_RELEASE_def PARAM_FM_def
        PARAM_CUTOFF_def PARAM_RESONANCE_def PARAM_FILT_ENV_def PARAM_F_ATTACK_def
        PARAM_F_DECAY_def PARAM_F_SUSTAIN_def PARAM_F_RELEASE_def PARAM_VOLUME_def)
qed

lemma float_to_int_of_int:
  assumes "\<bar>i\<bar> \<le> 2147483647"
  shows "float_to_int (of_int i) = i"
proof -
  have "trunc (of_int i) = i" by (simp add: trunc_def)
  with assms show ?thesis by (simp add: float_to_int_trunc)
qed

lemma read_back_of_int:
  assumes "\<bar>i\<bar> < 16777216"
  shows "to_float (to_double (of_int i)) = of_int i"
  using assms by (simp add: to_double_of_int to_float_of_int)

lemma octave_read_back:
  assumes "- 3 \<le> t" "t \<le> 3"
  shows "clamp_octave (float_to_int (to_float (to_double (of_int t)))) = t"
proof -
  from assms have "\<bar>t\<bar> < 16777216" "\<bar>t\<bar> \<le> 2147483647" by simp_all
  then have "float_to_int (to_float (to_double (of_int t))) = t"
    by (simp add: read_back_of_int float_to_int_of_int)
  with assms show ?thesis by (simp add: clamp_octave_def)
qed

text \<open>
  A parameter within the range of its table entry is written and read back as a number
  within the range: the restore clamps nothing.
\<close>

lemma table_cases:
  assumes "d \<in> set g_shadow_params"
  shows "pd_type d = PARAM_TYPE_INT \<and> min_val d = 0 \<and> max_val d = 46
       \<or> pd_type d = PARAM_TYPE_FLOAT \<and> min_val d = 0 \<and> max_val d = 1"
  using assms by (auto simp: g_shadow_params_def pdef_def NUM_SHAPES_def)

lemma fixed4_unit:
  assumes "0 \<le> v" "v \<le> 1"
  shows "0 \<le> fixed4 v" "fixed4 v \<le> 1"
proof -
  have "of_int 0 \<le> \<bar>v\<bar> * 10000" "\<bar>v\<bar> * 10000 \<le> of_int 10000" using assms by simp_all
  then have "0 \<le> round_even (\<bar>v\<bar> * 10000)" "round_even (\<bar>v\<bar> * 10000) \<le> 10000"
    by (simp_all only: round_even_ge_int round_even_le_int)
  then have "(0 :: real) \<le> of_int (round_even (\<bar>v\<bar> * 10000))"
    "(of_int (round_even (\<bar>v\<bar> * 10000)) :: real) \<le> 10000"
    by simp_all
  with assms(1) show "0 \<le> fixed4 v" "fixed4 v \<le> 1" by (simp_all add: fixed4_def)
qed

lemma read_back_unit:
  assumes "0 \<le> x" "x \<le> 1"
  shows "0 \<le> to_float (to_double x)" "to_float (to_double x) \<le> 1"
proof -
  from to_double_mono [OF assms(1)] to_double_mono [OF assms(2)]
  have "0 \<le> to_double x" "to_double x \<le> 1"
    using to_double_of_int [of 0] to_double_of_int [of 1] by simp_all
  from to_float_mono [OF this(1)] to_float_mono [OF this(2)]
  show "0 \<le> to_float (to_double x)" "to_float (to_double x) \<le> 1"
    using to_float_of_int [of 0] to_float_of_int [of 1] by simp_all
qed

lemma engine_in_range:
  assumes "0 \<le> v" "v \<le> 46"
  shows "float_to_int v = \<lfloor>v\<rfloor>" "0 \<le> \<lfloor>v\<rfloor>" "\<lfloor>v\<rfloor> \<le> 46"
proof -
  show f: "0 \<le> \<lfloor>v\<rfloor>" using assms(1) by simp
  from assms(2) have "v \<le> of_int 46" by simp
  then show c: "\<lfloor>v\<rfloor> \<le> 46" by (simp only: floor_le_iff)
  have "trunc v = \<lfloor>v\<rfloor>" using assms(1) by (simp add: trunc_def)
  with f c show "float_to_int v = \<lfloor>v\<rfloor>" by (simp add: float_to_int_trunc)
qed

lemma read_back_in_range:
  assumes "d \<in> set g_shadow_params" "min_val d \<le> v" "v \<le> max_val d"
  shows "clamp_float (min_val d) (max_val d) (to_float (to_double (snapshot_value (pd_type d) v)))
           = to_float (to_double (snapshot_value (pd_type d) v))"
proof -
  from table_cases [OF assms(1)] show ?thesis
  proof
    assume e: "pd_type d = PARAM_TYPE_INT \<and> min_val d = 0 \<and> max_val d = 46"
    with assms have v: "0 \<le> v" "v \<le> 46" by simp_all
    note k = engine_in_range [OF v]
    from k(2,3) have "\<bar>\<lfloor>v\<rfloor>\<bar> < 16777216" by simp
    then have "to_float (to_double (of_int \<lfloor>v\<rfloor>)) = of_int \<lfloor>v\<rfloor>" by (rule read_back_of_int)
    with e k show ?thesis by (simp add: snapshot_value_def clamp_float_def)
  next
    assume e: "pd_type d = PARAM_TYPE_FLOAT \<and> min_val d = 0 \<and> max_val d = 1"
    with assms have v: "0 \<le> v" "v \<le> 1" by simp_all
    note r = read_back_unit [OF fixed4_unit [OF v]]
    with e show ?thesis by (simp add: snapshot_value_def clamp_float_def)
  qed
qed

lemma fresh_instance:
  "params (v2_create_instance dsp []) = default_params"
  "octave_transpose (v2_create_instance dsp []) = 0"
  by (simp_all add: v2_create_instance_def load_presets_def preset_count_def Let_def)

lemma default_params_values:
  "default_params = [0, 1 / 2, 1 / 2, 0, 1 / 2, 1, 5033165 / 16777216, 0, 1, 0, 0, 0,
      5033165 / 16777216, 0, 5033165 / 16777216, 11744051 / 16777216]"
  by (simp add: default_params_def PARAM_COUNT_def PARAM_ENGINE_def PARAM_TIMBRE_def
      PARAM_COLOR_def PARAM_ATTACK_def PARAM_DECAY_def PARAM_SUSTAIN_def PARAM_RELEASE_def
      PARAM_FM_def PARAM_CUTOFF_def PARAM_RESONANCE_def PARAM_FILT_ENV_def PARAM_F_ATTACK_def
      PARAM_F_DECAY_def PARAM_F_SUSTAIN_def PARAM_F_RELEASE_def PARAM_VOLUME_def numeral_eq_Suc
      tf_half tf_three_tenths tf_seven_tenths)

lemma fixed4_defaults:
  "fixed4 0 = 0" "fixed4 (1 / 2) = 1 / 2" "fixed4 1 = 1"
  "fixed4 (5033165 / 16777216) = 3 / 10" "fixed4 (11744051 / 16777216) = 7 / 10"
  by (simp_all add: fixed4_def round_even_def)

lemma read_back_defaults:
  "to_float (to_double 0) = 0" "to_float (to_double (1 / 2)) = 1 / 2" "to_float (to_double 1) = 1"
  "to_float (to_double (3 / 10)) = 5033165 / 16777216"
  "to_float (to_double (7 / 10)) = 11744051 / 16777216"
  using to_double_of_int [of 0] to_float_of_int [of 0] to_double_of_int [of 1] to_float_of_int [of 1]
  by (simp_all add: td_half tf_half td_three_tenths tf_double_three_tenths td_seven_tenths
      tf_double_seven_tenths)

text \<open>Every reachable state has that shape.\<close>

lemma clamp_octave_range: "- 3 \<le> clamp_octave t" "clamp_octave t \<le> 3"
  by (simp_all add: clamp_octave_def Let_def)

lemma load_preset_shape:
  assumes "state_shape inst"
  shows "state_shape (load_braids_preset inst file)"
  using assms clamp_octave_range
  by (auto simp: state_shape_def load_braids_preset_def Let_def split: option.splits)

lemma load_presets_shape:
  assumes "state_shape inst"
  shows "state_shape (fold (\<lambda>f i. load_braids_preset i f) files inst)"
  using assms by (induction files arbitrary: inst) (simp_all add: load_preset_shape)

lemma apply_preset_shape:
  assumes "state_shape inst"
  shows "state_shape (v2_apply_preset inst i)"
proof (cases "i < 0 \<or> preset_count inst \<le> i")
  case True
  with assms show ?thesis by (simp add: v2_apply_preset_def)
next
  case False
  then have "nat i < length (presets inst)" by (simp add: preset_count_def nat_less_iff)
  then have "presets inst ! nat i \<in> set (presets inst)" by (rule nth_mem)
  with assms False show ?thesis
    by (simp add: state_shape_def v2_apply_preset_def Let_def fold_update_length)
qed

lemma shape_fields:
  "state_shape inst \<Longrightarrow> state_shape (inst\<lparr>current_preset := c\<rparr>)"
  "state_shape inst \<Longrightarrow> state_shape (inst\<lparr>voices := vs\<rparr>)"
  "state_shape inst \<Longrightarrow> state_shape (inst\<lparr>voice_counter := n\<rparr>)"
  "state_shape inst \<Longrightarrow> state_shape (inst\<lparr>octave_transpose := clamp_octave t\<rparr>)"
  "state_shape inst \<Longrightarrow> state_shape (inst\<lparr>params := (params inst)[i := x]\<rparr>)"
  by (simp_all add: state_shape_def clamp_octave_range)

lemma restore_params_shape:
  assumes "state_shape inst"
  shows "state_shape (restore_params val inst)"
proof -
  have "state_shape (fold (\<lambda>d i. case json_get_number val (pd_key d) of
                    Some fval \<Rightarrow>
                      i\<lparr>params := (params i)[pd_index d := clamp_float (min_val d) (max_val d) fval]\<rparr>
                  | None \<Rightarrow> i) ds inst)" for ds
    using assms
    by (induction ds arbitrary: inst) (simp_all add: shape_fields split: option.splits)
  then show ?thesis by (simp add: restore_params_def)
qed

lemma set_named_shape:
  assumes "state_shape inst"
  shows "state_shape (set_named ds k fval inst)"
  using assms by (induction ds) (simp_all add: shape_fields)

lemma set_param_shape:
  assumes "state_shape inst"
  shows "state_shape (v2_set_param inst k val)"
proof -
  consider (state) "k = ''state''"
    | (octave) "k \<noteq> ''state''" "k = ''octave_transpose''"
    | (preset) "k \<noteq> ''state''" "k \<noteq> ''octave_transpose''" "k = ''preset''"
    | (engine) "k \<noteq> ''state''" "k \<noteq> ''octave_transpose''" "k \<noteq> ''preset''" "k = ''engine''"
    | (named) "k \<noteq> ''state''" "k \<noteq> ''octave_transpose''" "k \<noteq> ''preset''" "k \<noteq> ''engine''"
    by blast
  then show ?thesis
  proof cases
    case state
    show ?thesis
      unfolding v2_set_param_def state
      by (simp add: Let_def restore_params_shape apply_preset_shape shape_fields assms
          split: option.splits)
  next
    case octave
    then have "v2_set_param inst k val = inst\<lparr>octave_transpose := clamp_octave (atoi val)\<rparr>"
      by (simp add: v2_set_param_def)
    with assms show ?thesis by (simp add: shape_fields)
  next
    case preset
    then have "v2_set_param inst k val
        = (let idx = atoi val in
         if 0 \<le> idx \<and> idx < preset_count inst then
           v2_apply_preset
             (inst\<lparr>voices := map (\<lambda>v. v\<lparr>active := False, gate := False,
                                          amp_env := init (amp_env v),
                                          filt_env := init (filt_env v)\<rparr>) (voices inst),
                   current_preset := idx\<rparr>) idx
         else inst)"
      by (simp add: v2_set_param_def)
    with assms show ?thesis by (simp add: Let_def apply_preset_shape shape_fields)
  next
    case engine
    then have "v2_set_param inst k val
        = (case shape_index (take NUM_SHAPES g_shape_names) val 0 of
           Some i \<Rightarrow> inst\<lparr>params := (params inst)[PARAM_ENGINE := of_nat i]\<rparr>
         | None \<Rightarrow>
             (let v = to_float (atof val);
                  v1 = (if v < 0 then 0 else v);
                  v2 = (if of_nat NUM_SHAPES \<le> v1 then of_nat NUM_SHAPES - 1 else v1)
              in inst\<lparr>params := (params inst)[PARAM_ENGINE := v2]\<rparr>))"
      by (simp add: v2_set_param_def)
    with assms show ?thesis by (simp add: Let_def shape_fields split: option.splits)
  next
    case named
    then have "v2_set_param inst k val = set_named g_shadow_params k (to_float (atof val)) inst"
      by (simp add: v2_set_param_def)
    with assms show ?thesis by (simp add: set_named_shape)
  qed
qed

lemma shape_cong:
  assumes "state_shape b" "length (params a) = length (params b)"
    "octave_transpose a = octave_transpose b" "presets a = presets b"
  shows "state_shape a"
  using assms by (simp add: state_shape_def)

lemma on_midi_fields:
  "length (params (v2_on_midi dsp inst msg)) = length (params inst)"
  "octave_transpose (v2_on_midi dsp inst msg) = octave_transpose inst"
  "presets (v2_on_midi dsp inst msg) = presets inst"
  by (simp_all add: v2_on_midi_def Let_def)

lemma on_midi_shape:
  assumes "state_shape inst"
  shows "state_shape (v2_on_midi dsp inst msg)"
  using assms by (rule shape_cong) (rule on_midi_fields)+

lemma create_shape: "state_shape (v2_create_instance dsp files)"
proof -
  define i0 where "i0 = \<lparr>voices = replicate MAX_VOICES
               \<lparr>osc = osc_Init dsp, amp_env = zero_env, filt_env = zero_env,
               svf = svf_Init dsp, osc_buffer = replicate BRAIDS_BLOCK_SIZE 0,
               v_note = 0, velocity = 0, active = False, gate = False, age = 0\<rparr>,
             params = default_params,
                  octave_transpose = 0, voice_counter = 0, presets = [],
                  current_preset = 0, preset_name = ''Init''\<rparr>"
  have "state_shape i0" by (simp add: i0_def state_shape_def default_params_def)
  then have 1: "state_shape (load_presets i0 files)"
    unfolding load_presets_def by (rule load_presets_shape)
  have "v2_create_instance dsp files
      = (if 0 < preset_count (load_presets i0 files)
         then v2_apply_preset ((load_presets i0 files)\<lparr>current_preset := 0\<rparr>) 0
         else load_presets i0 files)"
    by (simp add: v2_create_instance_def Let_def i0_def)
  with 1 show ?thesis by (simp add: apply_preset_shape shape_fields)
qed

lemma render_shape:
  assumes "state_shape inst"
  shows "state_shape (fst (v2_render_block dsp inst frames))"
  using assms by (simp add: v2_render_block_def Let_def shape_fields)

lemma reachable_shape: "reachable dsp inst \<Longrightarrow> state_shape inst"
  by (induction rule: reachable.induct)
    (simp_all add: create_shape set_param_shape on_midi_shape render_shape)

text \<open>
  C7. The state is written with the key \<^verbatim>\<open>state\<close> into a buffer that holds all of it,
  and the text is given back to \<^verbatim>\<open>v2_set_param\<close> with the same key. For an instance
  whose parameters lie within the ranges of their table entries, with the sixteen
  parameters of the C array and the octave transpose between -3 and 3 that every
  reachable state has, the octave transpose is reproduced, and every parameter of the
  table becomes the \<^verbatim>\<open>float\<close> nearest to the number that its text denotes: the engine
  truncated to an integer, every other value rounded to four decimals. The parameter
  values are reproduced exactly when none of them is changed by that conversion.
\<close>

theorem state_round_trip:
  assumes "length (params inst) = PARAM_COUNT"
    and "- 3 \<le> octave_transpose inst" and "octave_transpose inst \<le> 3"
    and "\<forall>d \<in> set g_shadow_params.
           min_val d \<le> params inst ! pd_index d \<and> params inst ! pd_index d \<le> max_val d"
  shows "octave_transpose (v2_set_param inst ''state'' (v2_get_param_state inst))
           = octave_transpose inst
       \<and> params (v2_set_param inst ''state'' (v2_get_param_state inst))
           = map (\<lambda>d. to_float (to_double (snapshot_value (pd_type d) (params inst ! pd_index d))))
               g_shadow_params
       \<and> (params (v2_set_param inst ''state'' (v2_get_param_state inst)) = params inst
            \<longleftrightarrow> (\<forall>d \<in> set g_shadow_params.
                   to_float (to_double (snapshot_value (pd_type d) (params inst ! pd_index d)))
                     = params inst ! pd_index d))"
proof -
  let ?r = "v2_set_param inst ''state'' (v2_get_param_state inst)"
  let ?f = "\<lambda>d. to_float (to_double (snapshot_value (pd_type d) (params inst ! pd_index d)))"
  have o: "octave_transpose ?r = octave_transpose inst"
    using state_restore(2) [OF assms(1)] octave_read_back [OF assms(2,3)] by simp
  have "params ?r = map (\<lambda>d. clamp_float (min_val d) (max_val d) (?f d)) g_shadow_params"
    by (rule state_restore(1) [OF assms(1)])
  also have "\<dots> = map ?f g_shadow_params"
    using assms(4) by (intro map_cong refl read_back_in_range) simp_all
  finally have p: "params ?r = map ?f g_shadow_params" .
  have "params ?r = params inst
      \<longleftrightarrow> map ?f g_shadow_params = map (\<lambda>d. params inst ! pd_index d) g_shadow_params"
    by (simp only: p table_identity [OF assms(1)])
  also have "\<dots> \<longleftrightarrow> (\<forall>d \<in> set g_shadow_params. ?f d = params inst ! pd_index d)"
    by (rule map_eq_conv)
  finally show ?thesis using o p by blast
qed

lemma ex_tweaked_state:
  "params ex_tweaked = [12, 1 / 4, 1 / 2, 0, 1 / 2, 1, 5033165 / 16777216, 0, 1, 0, 0, 0,
      5033165 / 16777216, 0, 5033165 / 16777216, 11744051 / 16777216]"
  "octave_transpose ex_tweaked = 2"
proof -
  have n: "shape_index (take 47 g_shape_names) ''12'' 0 = None" by code_simp
  have e: "atof_exact ''12'' = 12" "atof_exact ''0.25'' = 1 / 4" "atoi ''2'' = 2" by code_simp+
  have q: "to_double (1 / 4) = 1 / 4"
    by (rule to_double_eval [where s = 1020]) (simp_all add: round_even_def)
  have t: "to_float (atof ''12'') = 12" "to_float (atof ''0.25'') = 1 / 4"
    using read_back_of_int [of 12] by (simp_all only: atof_def e q to_float_quarter) simp
  have 1: "v2_set_param (v2_create_instance ex_dsp []) ''engine'' ''12''
      = (v2_create_instance ex_dsp [])\<lparr>params := default_params[PARAM_ENGINE := 12]\<rparr>"
    by (simp add: v2_set_param_def n t Let_def NUM_SHAPES_def fresh_instance)
  have 2: "ex_tweaked = (v2_create_instance ex_dsp [])
      \<lparr>params := default_params[PARAM_ENGINE := 12, PARAM_TIMBRE := 1 / 4], octave_transpose := 2\<rparr>"
    unfolding ex_tweaked_def 1
    by (simp add: v2_set_param_def e t g_shadow_params_def pdef_def clamp_float_def
        clamp_octave_def)
  show "params ex_tweaked = [12, 1 / 4, 1 / 2, 0, 1 / 2, 1, 5033165 / 16777216, 0, 1, 0, 0, 0,
      5033165 / 16777216, 0, 5033165 / 16777216, 11744051 / 16777216]"
    by (simp add: 2 default_params_values PARAM_ENGINE_def PARAM_TIMBRE_def)
  show "octave_transpose ex_tweaked = 2" by (simp add: 2)
qed

theorem state_round_trip_witness:
  "reachable ex_dsp ex_tweaked
   \<and> params ex_tweaked ! PARAM_ENGINE = 12 \<and> params ex_tweaked ! PARAM_TIMBRE = 1 / 4
   \<and> octave_transpose ex_tweaked = 2
   \<and> octave_transpose (v2_set_param ex_tweaked ''state'' (v2_get_param_state ex_tweaked)) = 2
   \<and> params (v2_set_param ex_tweaked ''state'' (v2_get_param_state ex_tweaked))
      = params ex_tweaked"
proof -
  let ?i = "ex_tweaked"
  have r: "reachable ex_dsp ?i"
    unfolding ex_tweaked_def by (intro reachable.param_set reachable.created)
  have l: "length (params ?i) = PARAM_COUNT" by (simp add: ex_tweaked_state PARAM_COUNT_def)
  have t: "- 3 \<le> octave_transpose ?i" "octave_transpose ?i \<le> 3"
    by (simp_all add: ex_tweaked_state)
  have b: "\<forall>d \<in> set g_shadow_params.
           min_val d \<le> params ?i ! pd_index d \<and> params ?i ! pd_index d \<le> max_val d"
    by (simp add: ex_tweaked_state g_shadow_params_def pdef_def NUM_SHAPES_def
        PARAM_ENGINE_def PARAM_TIMBRE_def PARAM_COLOR_def
        PARAM_ATTACK_def PARAM_DECAY_def PARAM_SUSTAIN_def PARAM_RELEASE_def PARAM_FM_def
        PARAM_CUTOFF_def PARAM_RESONANCE_def PARAM_FILT_ENV_def PARAM_F_ATTACK_def
        PARAM_F_DECAY_def PARAM_F_SUSTAIN_def PARAM_F_RELEASE_def PARAM_VOLUME_def)
  note T = state_round_trip [OF l t b]
  from conjunct1 [OF T]
  have o: "octave_transpose (v2_set_param ?i ''state'' (v2_get_param_state ?i)) = 2"
    by (simp add: ex_tweaked_state)
  have f: "fixed4 (1 / 4) = 1 / 4" by (simp add: fixed4_def round_even_def)
  have q: "to_float (to_double (1 / 4)) = 1 / 4"
  proof -
    have d: "to_double (1 / 4) = 1 / 4"
      by (rule to_double_eval [where s = 1020]) (simp_all add: round_even_def)
    show ?thesis by (simp only: d to_float_quarter)
  qed
  have e: "float_to_int 12 = 12" using float_to_int_of_int [of 12] by simp
  have "map (\<lambda>d. to_float (to_double (snapshot_value (pd_type d) (params ?i ! pd_index d))))
          g_shadow_params = params ?i"
    using read_back_of_int [of 12]
    by (simp add: ex_tweaked_state g_shadow_params_def pdef_def snapshot_value_def e f q
        fixed4_defaults read_back_defaults
        PARAM_ENGINE_def PARAM_TIMBRE_def PARAM_COLOR_def
        PARAM_ATTACK_def PARAM_DECAY_def PARAM_SUSTAIN_def PARAM_RELEASE_def PARAM_FM_def
        PARAM_CUTOFF_def PARAM_RESONANCE_def PARAM_FILT_ENV_def PARAM_F_ATTACK_def
        PARAM_F_DECAY_def PARAM_F_SUSTAIN_def PARAM_F_RELEASE_def PARAM_VOLUME_def)
  with conjunct1 [OF conjunct2 [OF T]]
  have p: "params (v2_set_param ?i ''state'' (v2_get_param_state ?i)) = params ?i" by simp
  from r o p show ?thesis
    by (simp add: ex_tweaked_state PARAM_ENGINE_def PARAM_TIMBRE_def)
qed

text \<open>
  A timbre of 0.00001 is written as \<^verbatim>\<open>0.0000\<close> and restored as 0: the parameter values
  are not reproduced in general.
\<close>

lemma ex_timbre_params:
  "params ex_timbre = default_params[PARAM_TIMBRE := 2748779 / 274877906944]"
proof -
  have e: "atof_exact ''0.00001'' = 1 / 100000" by code_simp
  have t: "to_float (atof ''0.00001'') = 2748779 / 274877906944"
    unfolding atof_def e by (simp only: td_small tf_double_small)
  show ?thesis
    by (simp add: ex_timbre_def v2_set_param_def g_shadow_params_def pdef_def fresh_instance
        clamp_float_def t)
qed

theorem round_trip_loses_timbre:
  "reachable ex_dsp ex_timbre
   \<and> params ex_timbre ! PARAM_TIMBRE = 2748779 / 274877906944
   \<and> params (v2_set_param ex_timbre ''state'' (v2_get_param_state ex_timbre)) ! PARAM_TIMBRE = 0
   \<and> params (v2_set_param ex_timbre ''state'' (v2_get_param_state ex_timbre)) \<noteq> params ex_timbre"
proof -
  have r: "reachable ex_dsp ex_timbre"
    unfolding ex_timbre_def by (rule reachable.param_set) (rule reachable.created)
  have l: "length (params ex_timbre) = PARAM_COUNT"
    by (simp add: ex_timbre_params default_params_values PARAM_COUNT_def PARAM_TIMBRE_def)
  have a: "params ex_timbre ! PARAM_TIMBRE = 2748779 / 274877906944"
    by (simp add: ex_timbre_params default_params_values PARAM_TIMBRE_def)
  have "fixed4 (2748779 / 274877906944) = 0" by (simp add: fixed4_def round_even_def)
  then have "to_float (to_double (snapshot_value PARAM_TYPE_FLOAT (params ex_timbre ! PARAM_TIMBRE))) = 0"
    by (simp add: a snapshot_value_def read_back_defaults)
  then have b: "params (v2_set_param ex_timbre ''state'' (v2_get_param_state ex_timbre)) ! PARAM_TIMBRE = 0"
    unfolding state_restore(1) [OF l]
    by (simp add: g_shadow_params_def pdef_def PARAM_TIMBRE_def clamp_float_def)
  from r a b show ?thesis by auto
qed

section \<open>The mix at a volume beyond its range\<close>

lemma volume_file_strings:
  "json_get_string ex_volume_file ''name'' 64 = None"
  "json_get_string ex_volume_file ''engine'' 32 = None"
  by code_simp+

lemma volume_file_absent:
  "json_get_number ex_volume_file ''engine'' = None"
  "json_get_number ex_volume_file ''timbre'' = None"
  "json_get_number ex_volume_file ''color'' = None"
  "json_get_number ex_volume_file ''attack'' = None"
  "json_get_number ex_volume_file ''decay'' = None"
  "json_get_number ex_volume_file ''sustain'' = None"
  "json_get_number ex_volume_file ''release'' = None"
  "json_get_number ex_volume_file ''fm'' = None"
  "json_get_number ex_volume_file ''cutoff'' = None"
  "json_get_number ex_volume_file ''resonance'' = None"
  "json_get_number ex_volume_file ''filt_env'' = None"
  "json_get_number ex_volume_file ''f_attack'' = None"
  "json_get_number ex_volume_file ''f_decay'' = None"
  "json_get_number ex_volume_file ''f_sustain'' = None"
  "json_get_number ex_volume_file ''f_release'' = None"
  "json_get_number ex_volume_file ''octave_transpose'' = None"
  by code_simp+

lemma volume_file_text:
  "strstr ex_volume_file (json_search ''volume'')
     = Some (dq # ''volume'' @ [dq] @ '':4e9}'')"
  "length (json_search ''volume'') = 9"
  "atof_exact ''4e9}'' = 4000000000"
  "length ex_volume_file = 14"
  by code_simp+

lemma tf_volume: "to_float 4000000000 = 4000000000"
  by (rule to_float_eval [where s = 157]) (simp_all add: round_even_def)

lemma volume_file_volume: "json_get_number ex_volume_file ''volume'' = Some 4000000000"
  using to_double_of_int [of 4000000000]
  by (simp add: json_get_number_def volume_file_text atof_def tf_volume)

lemma params16:
  "(replicate PARAM_COUNT (0::real))
       [PARAM_ENGINE := a0, PARAM_TIMBRE := a1, PARAM_COLOR := a2, PARAM_ATTACK := a3,
        PARAM_DECAY := a4, PARAM_SUSTAIN := a5, PARAM_RELEASE := a6, PARAM_FM := a7,
        PARAM_CUTOFF := a8, PARAM_RESONANCE := a9, PARAM_FILT_ENV := a10,
        PARAM_F_ATTACK := a11, PARAM_F_DECAY := a12, PARAM_F_SUSTAIN := a13,
        PARAM_F_RELEASE := a14, PARAM_VOLUME := a15]
     = [a0, a1, a2, a3, a4, a5, a6, a7, a8, a9, a10, a11, a12, a13, a14, a15]"
  by (simp add: PARAM_COUNT_def PARAM_ENGINE_def PARAM_TIMBRE_def
      PARAM_COLOR_def PARAM_ATTACK_def PARAM_DECAY_def PARAM_SUSTAIN_def PARAM_RELEASE_def
      PARAM_FM_def PARAM_CUTOFF_def PARAM_RESONANCE_def PARAM_FILT_ENV_def PARAM_F_ATTACK_def
      PARAM_F_DECAY_def PARAM_F_SUSTAIN_def PARAM_F_RELEASE_def PARAM_VOLUME_def numeral_eq_Suc)

lemma loud_params:
  "default_params[PARAM_VOLUME := 4000000000]
     = [0, 1 / 2, 1 / 2, 0, 1 / 2, 1, 5033165 / 16777216, 0, 1, 0, 0, 0,
        5033165 / 16777216, 0, 5033165 / 16777216, 4000000000]"
  unfolding default_params_values by (simp add: PARAM_VOLUME_def)

lemma loud_preset:
  assumes "presets i0 = []"
  shows "presets (load_braids_preset i0 (Some ex_volume_file))
           = [\<lparr>p_name = take 63 (''Preset '' @ show_int 0),
               p_params = default_params[PARAM_VOLUME := 4000000000],
               p_octave_transpose = 0\<rparr>]"
  unfolding loud_params load_braids_preset_def Let_def params16
  using assms
  by (simp add: volume_file_text volume_file_strings volume_file_absent
      volume_file_volume MAX_PRESETS_def preset_count_def
      tf_half tf_three_tenths tf_seven_tenths to_float_zero to_float_quarters)

lemma copy_preset:
  assumes "length ps = 16" "length qs = 16"
  shows "fold (\<lambda>i ps. ps[i := qs ! i]) [0..<PARAM_COUNT] ps = qs"
proof -
  from list16 [OF assms(1)] list16 [OF assms(2)] show ?thesis
    by (auto simp: PARAM_COUNT_def upt_rec)
qed

lemma loud_created:
  "v2_create_instance ex_dsp [Some ex_volume_file]
     = \<lparr>voices = [ex_idle_voice, ex_idle_voice, ex_idle_voice, ex_idle_voice],
        params = default_params[PARAM_VOLUME := 4000000000],
        octave_transpose = 0, voice_counter = 0,
        presets = [\<lparr>p_name = take 63 (''Preset '' @ show_int 0),
               p_params = default_params[PARAM_VOLUME := 4000000000],
               p_octave_transpose = 0\<rparr>],
        current_preset = 0,
        preset_name = take 63 (take 63 (''Preset '' @ show_int 0))\<rparr>"
proof -
  define i0 :: "(unit, unit) braids_instance" where
    "i0 = \<lparr>voices = [ex_idle_voice, ex_idle_voice, ex_idle_voice, ex_idle_voice],
           params = default_params, octave_transpose = 0, voice_counter = 0, presets = [],
           current_preset = 0, preset_name = ''Init''\<rparr>"
  have p0: "presets i0 = []" by (simp add: i0_def)
  have k: "load_braids_preset i0 (Some ex_volume_file)
      = i0\<lparr>presets := presets (load_braids_preset i0 (Some ex_volume_file))\<rparr>"
    by (simp add: load_braids_preset_def Let_def)
  have l: "length (default_params[PARAM_VOLUME := 4000000000]) = 16" "length default_params = 16"
    by (simp add: loud_params, simp add: default_params_values)
  have "v2_create_instance ex_dsp [Some ex_volume_file]
      = (let i1 = load_braids_preset i0 (Some ex_volume_file)
         in if 0 < preset_count i1 then v2_apply_preset (i1\<lparr>current_preset := 0\<rparr>) 0 else i1)"
    by (simp add: v2_create_instance_def load_presets_def Let_def MAX_VOICES_def MAX_PRESETS_def
        numeral_eq_Suc ex_idle_voice_def ex_dsp_def i0_def BRAIDS_BLOCK_SIZE_def)
  also have "\<dots> = v2_apply_preset ((i0\<lparr>presets := presets (load_braids_preset i0 (Some ex_volume_file))\<rparr>)
                        \<lparr>current_preset := 0\<rparr>) 0"
    by (subst k, subst (2) k) (simp add: Let_def preset_count_def loud_preset [OF p0])
  finally show ?thesis
    unfolding loud_preset [OF p0]
    by (simp add: v2_apply_preset_def preset_count_def Let_def copy_preset [OF l(2) l(1)] i0_def)
qed

lemma loud_state:
  "ex_loud
     = \<lparr>voices = [ex_struck_voice, ex_idle_voice, ex_idle_voice, ex_idle_voice],
        params = default_params[PARAM_VOLUME := 4000000000],
        octave_transpose = 0, voice_counter = 1,
        presets = [\<lparr>p_name = take 63 (''Preset '' @ show_int 0),
               p_params = default_params[PARAM_VOLUME := 4000000000],
               p_octave_transpose = 0\<rparr>],
        current_preset = 0,
        preset_name = take 63 (take 63 (''Preset '' @ show_int 0))\<rparr>"
proof -
  let ?i0 = "v2_create_instance ex_dsp [Some ex_volume_file]"
  have f0: "find_free_voice ?i0 = 0"
    unfolding loud_created by (simp add: find_free_voice_def MAX_VOICES_def upt_rec ex_idle_voice_def)
  have s90: "(0x90 :: 8 word) AND 0xF0 = 0x90" by simp
  define i1 where "i1 = ?i0\<lparr>voice_counter := 1\<rparr>"
  define w where "w = apply_params_to_voice ex_dsp i1
      (ex_idle_voice\<lparr>v_note := 60, velocity := 127, active := True, gate := True, age := 1,
          osc := osc_set_pitch ex_dsp (note_to_pitch 60) (osc ex_idle_voice)\<rparr>)"
  have v: "w\<lparr>osc := osc_Strike ex_dsp (osc w), amp_env := gate_on (amp_env w),
            filt_env := gate_on (filt_env w)\<rparr> = ex_struck_voice"
    unfolding w_def i1_def loud_created loud_params
    by (simp add: apply_params_to_voice_def Let_def set_params_def gate_on_def ex_idle_voice_def
        ex_struck_voice_def zero_env_def init_def ex_dsp_def
        PARAM_ENGINE_def PARAM_TIMBRE_def PARAM_COLOR_def
        PARAM_ATTACK_def PARAM_DECAY_def PARAM_SUSTAIN_def PARAM_RELEASE_def PARAM_FM_def
        PARAM_CUTOFF_def PARAM_RESONANCE_def PARAM_FILT_ENV_def PARAM_F_ATTACK_def
        PARAM_F_DECAY_def PARAM_F_SUSTAIN_def PARAM_F_RELEASE_def PARAM_VOLUME_def)
  have "v2_on_midi ex_dsp ?i0 [0x90, 60, 127]
      = i1\<lparr>voices := (voices i1)[0 := w\<lparr>osc := osc_Strike ex_dsp (osc w),
            amp_env := gate_on (amp_env w), filt_env := gate_on (filt_env w)\<rparr>]\<rparr>"
    unfolding v2_on_midi_def [of ex_dsp ?i0] f0
    by (simp add: Let_def s90 w_def i1_def loud_created)
  then have "v2_on_midi ex_dsp ?i0 [0x90, 60, 127] = i1\<lparr>voices := (voices i1)[0 := ex_struck_voice]\<rparr>"
    by (simp only: v)
  then show ?thesis unfolding ex_loud_def by (simp add: i1_def loud_created)
qed

lemma tf_loud:
  "to_float 1000000000 = 1000000000"
  "to_float (99 / 100) = 4152361 / 4194304"
  "to_float (1 / 100) = 5368709 / 536870912"
  "to_float (12173943 / 536870912) = 12173943 / 536870912"
  "to_float (1521742875 / 67108864) = 1486077 / 65536"
  "to_float 22000000000 = 22000001024"
proof -
  show "to_float 1000000000 = 1000000000"
    by (rule to_float_eval [where s = 155]) (simp_all add: round_even_def)
  show "to_float (99 / 100) = 4152361 / 4194304"
    by (rule to_float_eval [where s = 125]) (simp_all add: round_even_def)
  show "to_float (1 / 100) = 5368709 / 536870912"
    by (rule to_float_eval [where s = 119]) (simp_all add: round_even_def)
  show "to_float (12173943 / 536870912) = 12173943 / 536870912"
    by (rule to_float_eval [where s = 120]) (simp_all add: round_even_def)
  show "to_float (1521742875 / 67108864) = 1486077 / 65536"
    by (rule to_float_eval [where s = 130]) (simp_all add: round_even_def)
  show "to_float 22000000000 = 22000001024"
    by (rule to_float_eval [where s = 160]) (simp_all add: round_even_def)
qed

lemma loud_locals:
  "render_locals_of ex_loud
     = \<lparr>gain = 1000000000, fm_amount = 0, base_cutoff = 1, filt_env_amount = 0,
        use_filter = False\<rparr>"
proof -
  have p: "params ex_loud = [0, 1 / 2, 1 / 2, 0, 1 / 2, 1, 5033165 / 16777216, 0, 1, 0, 0, 0,
        5033165 / 16777216, 0, 5033165 / 16777216, 4000000000]"
    by (simp add: loud_state loud_params)
  show ?thesis
    unfolding render_locals_of_def p
    by (simp add: fdiv_def MAX_VOICES_def tf_loud
        PARAM_VOLUME_def PARAM_FM_def PARAM_CUTOFF_def PARAM_RESONANCE_def PARAM_FILT_ENV_def)
qed

lemma loud_mix: "mix_frame [0, 0] 0 22 1000000000 = [- 32768, - 32768]"
proof -
  have e: "fmul (to_float (of_int 22)) 1000000000 = 22000001024"
    using to_float_of_int [of 22] by (simp add: fmul_def tf_loud)
  show ?thesis
    unfolding mix_frame_def e
    by (simp add: Let_def float_to_int_def trunc_def int32_t_def sat16_def int16_t_def)
qed

lemma struck_process:
  "process (amp_env ex_struck_voice)
     = (12173943 / 536870912, (amp_env ex_struck_voice)\<lparr>level := 12173943 / 536870912\<rparr>)"
  "process (filt_env ex_struck_voice)
     = (12173943 / 536870912, (filt_env ex_struck_voice)\<lparr>level := 12173943 / 536870912\<rparr>)"
  by (simp_all add: process_def ex_struck_voice_def Let_def fadd_def time_to_rate_zero tf_loud)

lemma struck_sample:
  assumes "osc_buffer v ! 0 = 1000" "velocity v = 127"
  shows "voice_sample ex_dsp
           \<lparr>gain = 1000000000, fm_amount = 0, base_cutoff = 1, filt_env_amount = 0,
            use_filter = False\<rparr> (12173943 / 536870912) f 0 v = (22, v)"
proof -
  have e: "fmul (to_float (of_int 1000)) (12173943 / 536870912) = 1486077 / 65536"
    using to_float_of_int [of 1000] by (simp add: fmul_def tf_loud)
  have "float_to_int (fmul (to_float (of_int 1000)) (12173943 / 536870912)) = 22"
    unfolding e by (simp add: float_to_int_def trunc_def)
  with assms show ?thesis
    by (simp add: voice_sample_def Let_def int32_t_def cdiv_def)
qed

lemma loud_render_samples:
  "snd (render_samples ex_dsp
         \<lparr>gain = 1000000000, fm_amount = 0, base_cutoff = 1, filt_env_amount = 0,
          use_filter = False\<rparr> 0 [0] (render_osc ex_dsp 1 ex_struck_voice) [0, 0])
     = mix_frame [0, 0] 0 22 1000000000"
  "active (fst (render_samples ex_dsp
         \<lparr>gain = 1000000000, fm_amount = 0, base_cutoff = 1, filt_env_amount = 0,
          use_filter = False\<rparr> 0 [0] (render_osc ex_dsp 1 ex_struck_voice) [0, 0]))"
proof -
  define v where "v = render_osc ex_dsp 1 ex_struck_voice"
  define v1 where "v1 = v\<lparr>amp_env := (amp_env ex_struck_voice)\<lparr>level := 12173943 / 536870912\<rparr>,
            filt_env := (filt_env ex_struck_voice)\<lparr>level := 12173943 / 536870912\<rparr>\<rparr>"
  have f: "amp_env v = amp_env ex_struck_voice" "filt_env v = filt_env ex_struck_voice"
    "gate v" "active v" "velocity v = 127" "osc_buffer v ! 0 = 1000"
    by (simp_all add: v_def render_osc_def Let_def ex_struck_voice_def ex_dsp_def
        BRAIDS_BLOCK_SIZE_def int16_t_def upt_rec)
  have g: "gate v1" "active v1" "velocity v1 = 127" "osc_buffer v1 ! 0 = 1000"
    by (simp_all add: v1_def f)
  note s = struck_sample [OF g(4,3)]
  have e: "render_samples ex_dsp
         \<lparr>gain = 1000000000, fm_amount = 0, base_cutoff = 1, filt_env_amount = 0,
          use_filter = False\<rparr> 0 [0] v [0, 0] = (v1, mix_frame [0, 0] 0 22 1000000000)"
    using g(1) by (simp add: Let_def f struck_process v1_def [symmetric] s)
  show "snd (render_samples ex_dsp
         \<lparr>gain = 1000000000, fm_amount = 0, base_cutoff = 1, filt_env_amount = 0,
          use_filter = False\<rparr> 0 [0] (render_osc ex_dsp 1 ex_struck_voice) [0, 0])
     = mix_frame [0, 0] 0 22 1000000000"
    unfolding v_def [symmetric] e by (simp only: snd_conv)
  show "active (fst (render_samples ex_dsp
         \<lparr>gain = 1000000000, fm_amount = 0, base_cutoff = 1, filt_env_amount = 0,
          use_filter = False\<rparr> 0 [0] (render_osc ex_dsp 1 ex_struck_voice) [0, 0]))"
    unfolding v_def [symmetric] e by (simp only: fst_conv g(2))
qed

lemma loud_render_voice:
  "snd (render_voice ex_dsp ex_loud (render_locals_of ex_loud) 1 ex_struck_voice [0, 0])
     = mix_frame [0, 0] 0 22 1000000000"
proof -
  let ?L = "\<lparr>gain = 1000000000, fm_amount = 0, base_cutoff = 1, filt_env_amount = 0,
          use_filter = False\<rparr>"
  have p: "params ex_loud = [0, 1 / 2, 1 / 2, 0, 1 / 2, 1, 5033165 / 16777216, 0, 1, 0, 0, 0,
        5033165 / 16777216, 0, 5033165 / 16777216, 4000000000]"
    by (simp add: loud_state loud_params)
  have a: "apply_params_to_voice ex_dsp ex_loud ex_struck_voice = ex_struck_voice"
    unfolding apply_params_to_voice_def p
    by (simp add: Let_def set_params_def ex_struck_voice_def ex_dsp_def
        PARAM_ENGINE_def PARAM_TIMBRE_def PARAM_COLOR_def
        PARAM_ATTACK_def PARAM_DECAY_def PARAM_SUSTAIN_def PARAM_RELEASE_def PARAM_FM_def
        PARAM_CUTOFF_def PARAM_RESONANCE_def PARAM_FILT_ENV_def PARAM_F_ATTACK_def
        PARAM_F_DECAY_def PARAM_F_SUSTAIN_def PARAM_F_RELEASE_def PARAM_VOLUME_def)
  have o: "ex_struck_voice\<lparr>osc := osc_set_pitch ex_dsp x (osc ex_struck_voice)\<rparr> = ex_struck_voice" for x
    by (simp add: ex_struck_voice_def)
  have r: "render_voice ex_dsp ex_loud ?L 1 ex_struck_voice [0, 0]
      = render_blocks ex_dsp ?L 1 0 ex_struck_voice [0, 0]"
    by (simp add: render_voice_def a Let_def tf_milli o) (simp add: ex_struck_voice_def)
  define R where "R = render_samples ex_dsp ?L 0 [0] (render_osc ex_dsp 1 ex_struck_voice) [0, 0]"
  have R: "snd R = mix_frame [0, 0] 0 22 1000000000" "active (fst R)"
    unfolding R_def by (rule loud_render_samples)+
  have bs: "block_size_at 1 0 = 1" by (simp add: block_size_at_def BRAIDS_BLOCK_SIZE_def)
  have u: "[0..<1] = [0::nat]" by simp
  have c: "render_blocks ex_dsp ?L 1 1 (fst R) (snd R) = (fst R, snd R)"
    by (subst render_blocks.simps) simp
  have "render_blocks ex_dsp ?L 1 0 ex_struck_voice [0, 0]
      = (if \<not> active (fst R) then R else render_blocks ex_dsp ?L 1 (0 + 1) (fst R) (snd R))"
    by (subst render_blocks.simps)
      (simp only: bs u Let_def zero_less_one if_True R_def [symmetric])
  then have "render_blocks ex_dsp ?L 1 0 ex_struck_voice [0, 0] = R"
    using R(2) c by simp
  with r R(1) show ?thesis by (simp add: loud_locals)
qed

lemma render_voices_idle:
  assumes "\<forall>vi \<in> set vis. \<not> active (vs ! vi)"
  shows "render_voices dsp inst loc frames vis vs out = (vs, out)"
  using assms by (induction vis) (simp_all add: render_voice_inactive)

lemma loud_render_block:
  "snd (v2_render_block ex_dsp ex_loud 1) = mix_frame [0, 0] 0 22 1000000000"
proof -
  let ?L = "render_locals_of ex_loud"
  define r where "r = render_voice ex_dsp ex_loud ?L 1 ex_struck_voice [0, 0]"
  have v: "voices ex_loud = [ex_struck_voice, ex_idle_voice, ex_idle_voice, ex_idle_voice]"
    by (simp add: loud_state)
  have i: "\<forall>vi \<in> set [1, 2, 3].
      \<not> active ([fst r, ex_idle_voice, ex_idle_voice, ex_idle_voice] ! vi)"
    by (simp add: ex_idle_voice_def)
  have "render_voices ex_dsp ex_loud ?L 1 [0, 1, 2, 3] (voices ex_loud) [0, 0]
      = render_voices ex_dsp ex_loud ?L 1 [1, 2, 3]
          [fst r, ex_idle_voice, ex_idle_voice, ex_idle_voice] (snd r)"
    unfolding v by (simp add: Let_def r_def)
  also have "\<dots> = ([fst r, ex_idle_voice, ex_idle_voice, ex_idle_voice], snd r)"
    using i by (rule render_voices_idle)
  finally have "snd (render_voices ex_dsp ex_loud ?L 1 [0, 1, 2, 3] (voices ex_loud) [0, 0]) = snd r"
    by simp
  moreover have "[0..<MAX_VOICES] = [0, 1, 2, 3]" by (simp add: MAX_VOICES_def upt_rec)
  moreover have "replicate (2 * 1) (0::int) = [0, 0]" by (simp add: numeral_eq_Suc)
  ultimately have "snd (v2_render_block ex_dsp ex_loud 1) = snd r"
    by (simp add: v2_render_block_def Let_def)
  then show ?thesis by (simp only: r_def loud_render_voice)
qed

text \<open>
  C4. The mix does not saturate when the volume is beyond its range, as a preset file can
  make it. An instance created over the preset file \<^verbatim>\<open>{"volume":4e9}\<close> has the gain
  1000000000; after a Note On, the first frame of \<^verbatim>\<open>v2_render_block\<close> mixes the sample
  22 of the voice into the cleared buffer. The scaled sample 22000001024 is not a value of
  \<^verbatim>\<open>int32_t\<close>: its conversion gives the smallest value, and both channels are stored
  as -32768, where the sum saturated to 16 bits is 32767.
\<close>

theorem preset_volume_breaks_mix:
  "params ex_loud ! PARAM_VOLUME = 4000000000
   \<and> gain (render_locals_of ex_loud) = 1000000000
   \<and> snd (v2_render_block ex_dsp ex_loud 1) = mix_frame [0, 0] 0 22 1000000000
   \<and> fmul (to_float (of_int 22)) 1000000000 = 22000001024
   \<and> sat16 (0 + 22000001024) = 32767
   \<and> snd (v2_render_block ex_dsp ex_loud 1) = [- 32768, - 32768]"
proof -
  have "params ex_loud = [0, 1 / 2, 1 / 2, 0, 1 / 2, 1, 5033165 / 16777216, 0, 1, 0, 0, 0,
        5033165 / 16777216, 0, 5033165 / 16777216, 4000000000]"
    by (simp add: loud_state loud_params)
  then have p: "params ex_loud ! PARAM_VOLUME = 4000000000"
    by (simp add: PARAM_VOLUME_def)
  have g: "gain (render_locals_of ex_loud) = 1000000000" by (simp add: loud_locals)
  have f: "fmul (to_float (of_int 22)) 1000000000 = 22000001024"
    using to_float_of_int [of 22] by (simp add: fmul_def tf_loud)
  have s: "sat16 (0 + 22000001024) = 32767" by (simp add: sat16_def)
  from p g f s loud_render_block loud_mix show ?thesis by simp
qed

end
